(* ===== verification/Prelude.thy ===== *)
theory Prelude
  imports Complex_Main "HOL-Library.Multiset"
begin

text \<open>
  Shared vocabulary of the development: the error-state monad in which a database
  transaction is written, its Hoare triples, keyed table rows with the laws of lookup,
  update and summation, and comparator-driven stable sorting (the contract of
  JavaScript's \<open>Array.prototype.sort\<close>) as an interface.
\<close>

named_theorems hoare_intros \<open>introduction rules for transaction triples\<close>
named_theorems row_simps \<open>rewriting of keyed rows\<close>

section \<open>Transactions: state passing with errors as values\<close>

text \<open>
  The body of an interactive transaction either throws, and the database rolls back, or
  returns a value with the new state. \<open>Inl\<close> is a throw: it carries no state.
\<close>

type_synonym ('e, 's, 'a) tx = "'s \<Rightarrow> 'e + ('a \<times> 's)"

definition tx_return :: "'a \<Rightarrow> ('e, 's, 'a) tx" where
  "tx_return a s = Inr (a, s)"

definition tx_throw :: "'e \<Rightarrow> ('e, 's, 'a) tx" where
  "tx_throw e s = Inl e"

definition tx_bind :: "('e, 's, 'a) tx \<Rightarrow> ('a \<Rightarrow> ('e, 's, 'b) tx) \<Rightarrow> ('e, 's, 'b) tx" where
  "tx_bind m f s = (case m s of Inl e \<Rightarrow> Inl e | Inr (a, t) \<Rightarrow> f a t)"

definition tx_then :: "('e, 's, 'a) tx \<Rightarrow> ('e, 's, 'b) tx \<Rightarrow> ('e, 's, 'b) tx" where
  "tx_then m n = tx_bind m (\<lambda>_. n)"

definition tx_get :: "('s \<Rightarrow> 'a) \<Rightarrow> ('e, 's, 'a) tx" where
  "tx_get q s = Inr (q s, s)"

definition tx_modify :: "('s \<Rightarrow> 's) \<Rightarrow> ('e, 's, unit) tx" where
  "tx_modify f s = Inr ((), f s)"

definition tx_when :: "bool \<Rightarrow> ('e, 's, unit) tx \<Rightarrow> ('e, 's, unit) tx" where
  "tx_when b m = (if b then m else tx_return ())"

definition tx_lift :: "'e + 'a \<Rightarrow> ('e, 's, 'a) tx" where
  "tx_lift x s = (case x of Inl e \<Rightarrow> Inl e | Inr a \<Rightarrow> Inr (a, s))"

text \<open>\<open>rows.map(f)\<close> where \<open>f\<close> may throw: the first throw is the result.\<close>

fun traverse :: "('a \<Rightarrow> 'e + 'b) \<Rightarrow> 'a list \<Rightarrow> 'e + 'b list" where
  "traverse f [] = Inr []"
| "traverse f (x # xs) =
     (case f x of Inl e \<Rightarrow> Inl e
      | Inr y \<Rightarrow> (case traverse f xs of Inl e \<Rightarrow> Inl e | Inr ys \<Rightarrow> Inr (y # ys)))"

lemma traverse_map: "(\<And>x. x \<in> set xs \<Longrightarrow> f x = Inr (g x)) \<Longrightarrow> traverse f xs = Inr (map g xs)"
  by (induction xs) auto

lemma traverse_InrD:
  "traverse f xs = Inr ys \<Longrightarrow> y \<in> set ys \<Longrightarrow> \<exists>x\<in>set xs. f x = Inr y"
  by (induction xs arbitrary: ys) (auto split: sum.splits)

lemma traverse_covers:
  "traverse f xs = Inr ys \<Longrightarrow> x \<in> set xs \<Longrightarrow> \<exists>y\<in>set ys. f x = Inr y"
  by (induction xs arbitrary: ys) (auto split: sum.splits)

lemma tx_lift_Inr: "tx_lift x s = Inr (a, t) \<longleftrightarrow> x = Inr a \<and> t = s"
  by (auto simp: tx_lift_def split: sum.splits)

lemma tx_bind_Inr:
  "tx_bind m f s = Inr r \<longleftrightarrow> (\<exists>a t. m s = Inr (a, t) \<and> f a t = Inr r)"
  by (auto simp: tx_bind_def split: sum.splits)

lemma tx_then_Inr:
  "tx_then m n s = Inr r \<longleftrightarrow> (\<exists>a t. m s = Inr (a, t) \<and> n t = Inr r)"
  by (simp add: tx_then_def tx_bind_Inr)

lemma tx_then_run: "m s = Inr (a, t) \<Longrightarrow> tx_then m n s = n t"
  by (simp add: tx_then_def tx_bind_def)

lemma tx_bind_run: "m s = Inr (a, t) \<Longrightarrow> tx_bind m f s = f a t"
  by (simp add: tx_bind_def)

lemma tx_basic_Inr:
  "tx_return a s = Inr (b, t) \<longleftrightarrow> b = a \<and> t = s"
  "tx_throw e s \<noteq> Inr (b, t)"
  "tx_get q s = Inr (b, t) \<longleftrightarrow> b = q s \<and> t = s"
  by (auto simp: tx_return_def tx_throw_def tx_get_def)

lemma tx_modify_Inr: "tx_modify f s = Inr (u, t) \<longleftrightarrow> t = f s"
  by (auto simp: tx_modify_def)

lemma tx_when_Inr:
  "tx_when b m s = Inr (u, t) \<longleftrightarrow> (if b then m s = Inr (u, t) else t = s)"
  by (auto simp: tx_when_def tx_return_def)

lemmas tx_Inr = tx_bind_Inr tx_then_Inr tx_basic_Inr tx_modify_Inr tx_when_Inr
  tx_lift_Inr

lemmas tx_defs = tx_lift_def tx_bind_def tx_then_def tx_return_def tx_throw_def tx_get_def
  tx_modify_def tx_when_def

text \<open>
  A triple speaks of the runs that commit: whatever a transaction commits from a state
  with \<open>P\<close> satisfies \<open>Q\<close>. A throw leaves the state alone, so nothing has to be said of it.
\<close>

definition hoare :: "('s \<Rightarrow> bool) \<Rightarrow> ('e, 's, 'a) tx \<Rightarrow> ('a \<Rightarrow> 's \<Rightarrow> bool) \<Rightarrow> bool" where
  "hoare P m Q \<longleftrightarrow> (\<forall>s a t. P s \<longrightarrow> m s = Inr (a, t) \<longrightarrow> Q a t)"

lemma hoareI: "(\<And>s a t. P s \<Longrightarrow> m s = Inr (a, t) \<Longrightarrow> Q a t) \<Longrightarrow> hoare P m Q"
  by (simp add: hoare_def)

lemma hoareD: "hoare P m Q \<Longrightarrow> P s \<Longrightarrow> m s = Inr (a, t) \<Longrightarrow> Q a t"
  by (auto simp: hoare_def)

lemma hoare_bind:
  "hoare P m R \<Longrightarrow> (\<And>a. hoare (R a) (f a) Q) \<Longrightarrow> hoare P (tx_bind m f) Q"
  unfolding hoare_def tx_bind_Inr by blast

lemma hoare_then: "hoare P m (\<lambda>_. R) \<Longrightarrow> hoare R n Q \<Longrightarrow> hoare P (tx_then m n) Q"
  unfolding tx_then_def by (rule hoare_bind)

lemma hoare_return [hoare_intros]: "(\<And>s. P s \<Longrightarrow> Q a s) \<Longrightarrow> hoare P (tx_return a) Q"
  by (auto simp: hoare_def tx_return_def)

lemma hoare_throw [hoare_intros]: "hoare P (tx_throw e) Q"
  by (simp add: hoare_def tx_throw_def)

lemma hoare_get [hoare_intros]: "(\<And>s. P s \<Longrightarrow> Q (q s) s) \<Longrightarrow> hoare P (tx_get q) Q"
  by (auto simp: hoare_def tx_get_def)

lemma hoare_get_bind [hoare_intros]:
  "(\<And>a. hoare (\<lambda>s. P s \<and> a = q s) (f a) Q) \<Longrightarrow> hoare P (tx_bind (tx_get q) f) Q"
  by (auto simp: hoare_def tx_bind_Inr tx_get_def)

lemma hoare_if [hoare_intros]:
  "(b \<Longrightarrow> hoare P m Q) \<Longrightarrow> (\<not> b \<Longrightarrow> hoare P n Q) \<Longrightarrow> hoare P (if b then m else n) Q"
  by simp

lemma hoare_conseq:
  "hoare P m Q \<Longrightarrow> (\<And>s. P' s \<Longrightarrow> P s) \<Longrightarrow> (\<And>a s. Q a s \<Longrightarrow> Q' a s) \<Longrightarrow> hoare P' m Q'"
  unfolding hoare_def by blast

text \<open>
  What every committed run does to the state, as a preorder between the state before and the
  state after: it is enough to check the primitive calls.
\<close>

definition moves :: "('s \<Rightarrow> 's \<Rightarrow> bool) \<Rightarrow> ('e, 's, 'a) tx \<Rightarrow> bool" where
  "moves R m \<longleftrightarrow> (\<forall>s a t. m s = Inr (a, t) \<longrightarrow> R s t)"

lemma movesD: "moves R m \<Longrightarrow> m s = Inr (a, t) \<Longrightarrow> R s t"
  by (auto simp: moves_def)

locale state_preorder =
  fixes R :: "'s \<Rightarrow> 's \<Rightarrow> bool"
  assumes R_refl: "R s s" and R_trans: "R s t \<Longrightarrow> R t u \<Longrightarrow> R s u"
begin

lemma pure:
  "moves R (tx_return a)" "moves R (tx_throw e)" "moves R (tx_get q)" "moves R (tx_lift x)"
  by (auto simp: moves_def tx_Inr intro: R_refl)

lemma bind: "moves R m \<Longrightarrow> (\<And>a. moves R (f a)) \<Longrightarrow> moves R (tx_bind m f)"
  unfolding moves_def tx_Inr using R_trans by blast

lemma seq: "moves R m \<Longrightarrow> moves R n \<Longrightarrow> moves R (tx_then m n)"
  unfolding moves_def tx_Inr using R_trans by blast

lemma cond: "moves R m \<Longrightarrow> moves R n \<Longrightarrow> moves R (if b then m else n)"
  by simp

lemma choice: "moves R m \<Longrightarrow> (\<And>x. moves R (f x)) \<Longrightarrow> moves R (case v of None \<Rightarrow> m | Some x \<Rightarrow> f x)"
  by (cases v) simp_all

lemma pair: "(\<And>x y. moves R (f x y)) \<Longrightarrow> moves R (case p of (x, y) \<Rightarrow> f x y)"
  by (cases p) simp

lemmas structural = pure bind seq cond choice pair

end

section \<open>Rows with a key\<close>

definition find_row :: "('r \<Rightarrow> 'k) \<Rightarrow> 'k \<Rightarrow> 'r list \<Rightarrow> 'r option" where
  "find_row key k rows = find (\<lambda>r. key r = k) rows"

definition update_row :: "('r \<Rightarrow> 'k) \<Rightarrow> 'k \<Rightarrow> ('r \<Rightarrow> 'r) \<Rightarrow> 'r list \<Rightarrow> 'r list" where
  "update_row key k f rows = map (\<lambda>r. if key r = k then f r else r) rows"

definition sum_by :: "('r \<Rightarrow> int) \<Rightarrow> 'r list \<Rightarrow> int" where
  "sum_by g rows = sum_list (map g rows)"

lemma find_row_Nil [simp]: "find_row key k [] = None"
  by (simp add: find_row_def)

lemma find_row_Cons [simp]:
  "find_row key k (r # rs) = (if key r = k then Some r else find_row key k rs)"
  by (simp add: find_row_def)

lemma update_row_Nil [simp]: "update_row key k f [] = []"
  by (simp add: update_row_def)

lemma update_row_Cons [simp]:
  "update_row key k f (r # rs) = (if key r = k then f r else r) # update_row key k f rs"
  by (simp add: update_row_def)

lemma sum_by_Nil [simp]: "sum_by g [] = 0"
  by (simp add: sum_by_def)

lemma sum_by_Cons [simp]: "sum_by g (r # rs) = g r + sum_by g rs"
  by (simp add: sum_by_def)

lemma sum_by_append [simp]: "sum_by g (rs @ ss) = sum_by g rs + sum_by g ss"
  by (simp add: sum_by_def)

lemma find_row_SomeD: "find_row key k rs = Some r \<Longrightarrow> r \<in> set rs \<and> key r = k"
  by (induction rs) (auto split: if_splits)

lemma find_row_None_iff: "find_row key k rs = None \<longleftrightarrow> k \<notin> key ` set rs"
  by (induction rs) auto

lemma find_row_mem:
  "distinct (map key rs) \<Longrightarrow> r \<in> set rs \<Longrightarrow> find_row key (key r) rs = Some r"
  by (induction rs) (auto simp: rev_image_eqI)

lemma find_row_append:
  "find_row key k (rs @ ss) = (case find_row key k rs of Some r \<Rightarrow> Some r | None \<Rightarrow> find_row key k ss)"
  by (induction rs) auto

lemma find_row_iff:
  "distinct (map key rs) \<Longrightarrow> find_row key k rs = Some r \<longleftrightarrow> r \<in> set rs \<and> key r = k"
  using find_row_SomeD find_row_mem by metis

lemma set_update_row: "set (update_row key k f rs) = (\<lambda>r. if key r = k then f r else r) ` set rs"
  by (simp add: update_row_def)

lemma map_update_row [row_simps]:
  "(\<And>r. h (f r) = h r) \<Longrightarrow> map h (update_row key k f rs) = map h rs"
  by (simp add: update_row_def)

lemma keys_update_row [row_simps]:
  "(\<And>r. h (f r) = h r) \<Longrightarrow> h ` set (update_row key k f rs) = h ` set rs"
  by (metis list.set_map map_update_row)

lemma update_row_missing: "k \<notin> key ` set rs \<Longrightarrow> update_row key k f rs = rs"
  by (induction rs) auto

lemma mem_update_row_other: "x \<in> set rs \<Longrightarrow> key x \<noteq> k \<Longrightarrow> x \<in> set (update_row key k f rs)"
  by (auto simp: set_update_row)

lemma find_row_update [row_simps]:
  "(\<And>r. key (f r) = key r) \<Longrightarrow> find_row key j (update_row key k f rs) =
     (if j = k then map_option f (find_row key k rs) else find_row key j rs)"
  by (induction rs) auto

lemma sum_by_update:
  assumes "distinct (map key rs)" and "find_row key k rs = Some r"
  shows "sum_by g (update_row key k f rs) = sum_by g rs - g r + g (f r)"
  using assms
proof (induction rs)
  case Nil
  then show ?case by simp
next
  case (Cons x xs)
  then show ?case
    by (cases "key x = k") (auto simp: update_row_missing)
qed

lemma sum_by_update_same:
  assumes "\<And>x. key x = k \<Longrightarrow> g (f x) = g x"
  shows "sum_by g (update_row key k f rs) = sum_by g rs"
  using assms by (induction rs) auto

lemma sum_by_cong: "(\<And>x. x \<in> set rs \<Longrightarrow> g x = h x) \<Longrightarrow> sum_by g rs = sum_by h rs"
  unfolding sum_by_def by (intro arg_cong [where f = sum_list]) simp

lemma sum_by_zero: "(\<And>x. x \<in> set rs \<Longrightarrow> g x = 0) \<Longrightarrow> sum_by g rs = 0"
  by (induction rs) auto

lemma sum_by_add: "sum_by (\<lambda>x. g x + h x) rs = sum_by g rs + sum_by h rs"
  by (induction rs) auto

lemma sum_by_diff: "sum_by (\<lambda>x. g x - h x) rs = sum_by g rs - sum_by h rs"
  by (induction rs) auto

lemma sum_by_nonneg: "(\<And>x. x \<in> set rs \<Longrightarrow> 0 \<le> g x) \<Longrightarrow> 0 \<le> sum_by g rs"
  by (induction rs) auto

lemma sum_by_mem_le:
  "(\<And>x. x \<in> set rs \<Longrightarrow> 0 \<le> g x) \<Longrightarrow> r \<in> set rs \<Longrightarrow> g r \<le> sum_by g rs"
proof (induction rs)
  case (Cons x xs)
  have "0 \<le> sum_by g xs" using Cons.prems(1) by (intro sum_by_nonneg) simp
  with Cons show ?case by fastforce
qed simp

lemma sum_by_filter: "sum_by g (filter P rs) = sum_by (\<lambda>r. if P r then g r else 0) rs"
  by (induction rs) auto

lemma sum_by_map: "sum_by g (map h rs) = sum_by (\<lambda>r. g (h r)) rs"
  by (induction rs) auto

lemma sum_by_swap:
  "sum_by (\<lambda>x. sum_by (\<lambda>y. g x y) ys) xs = sum_by (\<lambda>y. sum_by (\<lambda>x. g x y) xs) ys"
  by (induction xs) (simp_all add: sum_by_zero sum_by_add)

lemma sum_by_key:
  "distinct (map key rs) \<Longrightarrow> find_row key k rs = Some r \<Longrightarrow>
   sum_by (\<lambda>x. if key x = k then g x else 0) rs = g r"
proof (induction rs)
  case (Cons x xs)
  show ?case
  proof (cases "key x = k")
    case True
    then have "key y \<noteq> k" if "y \<in> set xs" for y
      using Cons.prems(1) that by (metis distinct.simps(2) image_eqI list.set_map list.simps(9))
    then have "sum_by (\<lambda>x. if key x = k then g x else 0) xs = 0"
      by (intro sum_by_zero) simp
    with True Cons.prems(2) show ?thesis by simp
  qed (use Cons in simp)
qed simp

lemma sum_by_count: "sum_by (\<lambda>r. if P r then 1 else 0) rs = int (length (filter P rs))"
  by (induction rs) auto

lemma distinct_map_snoc:
  "distinct (map key (rs @ [r])) \<longleftrightarrow> distinct (map key rs) \<and> key r \<notin> key ` set rs"
  by auto

lemma filter_unique:
  "distinct xs \<Longrightarrow> x \<in> set xs \<Longrightarrow> P x \<Longrightarrow> (\<And>y. y \<in> set xs \<Longrightarrow> P y \<Longrightarrow> y = x) \<Longrightarrow> filter P xs = [x]"
proof (induction xs)
  case (Cons y ys)
  show ?case
  proof (cases "y = x")
    case True
    have "\<not> P z" if "z \<in> set ys" for z
      using that True Cons.prems(1) Cons.prems(4) [of z] by auto
    then have "filter P ys = []" by (simp add: filter_empty_conv)
    with True Cons.prems(3) show ?thesis by simp
  next
    case False
    then have "\<not> P y" using Cons.prems(4) [of y] by auto
    moreover have "filter P ys = [x]"
      by (rule Cons.IH) (use False Cons.prems in auto)
    ultimately show ?thesis by simp
  qed
qed simp

section \<open>Sorting by a comparator\<close>

text \<open>
  \<open>Array.prototype.sort(cmp)\<close> is stable and, for a consistent comparator, determined by
  it. Inserting from the right keeps equal elements in their order.
\<close>

fun insert_cmp :: "('a \<Rightarrow> 'a \<Rightarrow> int) \<Rightarrow> 'a \<Rightarrow> 'a list \<Rightarrow> 'a list" where
  "insert_cmp cmp x [] = [x]"
| "insert_cmp cmp x (y # ys) = (if cmp x y \<le> 0 then x # y # ys else y # insert_cmp cmp x ys)"

fun sort_cmp :: "('a \<Rightarrow> 'a \<Rightarrow> int) \<Rightarrow> 'a list \<Rightarrow> 'a list" where
  "sort_cmp cmp [] = []"
| "sort_cmp cmp (x # xs) = insert_cmp cmp x (sort_cmp cmp xs)"

definition first_element :: "'a list \<Rightarrow> 'a option" where
  "first_element xs = (case xs of [] \<Rightarrow> None | x # _ \<Rightarrow> Some x)"

lemma first_element_simps [simp]:
  "first_element [] = None" "first_element (x # xs) = Some x"
  by (simp_all add: first_element_def)

lemma mset_insert_cmp: "mset (insert_cmp cmp x xs) = add_mset x (mset xs)"
  by (induction xs) auto

lemma mset_sort_cmp [simp]: "mset (sort_cmp cmp xs) = mset xs"
  by (induction xs) (auto simp: mset_insert_cmp)

lemma set_sort_cmp [simp]: "set (sort_cmp cmp xs) = set xs"
  by (metis mset_sort_cmp set_mset_mset)

lemma sort_cmp_eq_Nil [simp]: "sort_cmp cmp xs = [] \<longleftrightarrow> xs = []"
  by (metis mset_sort_cmp mset_zero_iff)

locale comparator =
  fixes cmp :: "'a \<Rightarrow> 'a \<Rightarrow> int"
  assumes total: "cmp x y \<le> 0 \<or> cmp y x \<le> 0"
    and trans: "cmp x y \<le> 0 \<Longrightarrow> cmp y z \<le> 0 \<Longrightarrow> cmp x z \<le> 0"
begin

lemma sorted_insert:
  "sorted_wrt (\<lambda>x y. cmp x y \<le> 0) xs \<Longrightarrow> sorted_wrt (\<lambda>x y. cmp x y \<le> 0) (insert_cmp cmp x xs)"
proof (induction xs)
  case (Cons y ys)
  have set_ins: "set (insert_cmp cmp x ys) = insert x (set ys)"
    by (metis mset_insert_cmp set_mset_add_mset_insert set_mset_mset)
  show ?case
    using Cons total [of x y] trans [of x y] by (auto simp: set_ins)
qed simp

lemma sorted_sort: "sorted_wrt (\<lambda>x y. cmp x y \<le> 0) (sort_cmp cmp xs)"
  by (induction xs) (auto intro: sorted_insert)

lemma refl: "cmp x x \<le> 0"
  using total [of x x] by simp

lemma first_least:
  assumes "first_element (sort_cmp cmp xs) = Some x"
  shows "x \<in> set xs \<and> (\<forall>y\<in>set xs. cmp x y \<le> 0)"
proof (cases "sort_cmp cmp xs")
  case (Cons z zs)
  then have x: "x = z" using assms by simp
  have "set xs = insert z (set zs)"
    by (metis Cons list.simps(15) set_sort_cmp)
  moreover have "\<forall>y\<in>set zs. cmp z y \<le> 0"
    using sorted_sort [of xs] Cons by simp
  ultimately show ?thesis using x refl by auto
qed (use assms in simp)

lemma first_None: "first_element (sort_cmp cmp xs) = None \<longleftrightarrow> xs = []"
  by (metis first_element_simps list.exhaust option.distinct(1) sort_cmp_eq_Nil)

end

text \<open>
  A comparator that compares an ordered key. Where the key identifies the element, the
  first element does not depend on the order of the input.
\<close>

locale key_comparator =
  fixes cmp :: "'a \<Rightarrow> 'a \<Rightarrow> int" and key :: "'a \<Rightarrow> 'k::linorder"
  assumes cmp_key: "cmp x y \<le> 0 \<longleftrightarrow> key x \<le> key y"

sublocale key_comparator \<subseteq> comparator cmp
  by unfold_locales (auto simp: cmp_key)

context key_comparator
begin

lemma first_perm:
  assumes "mset xs = mset ys" and "inj_on key (set xs)"
  shows "first_element (sort_cmp cmp xs) = first_element (sort_cmp cmp ys)"
proof -
  have sets: "set xs = set ys" using assms(1) by (metis set_mset_mset)
  show ?thesis
  proof (cases "first_element (sort_cmp cmp xs)")
    case None
    then have "ys = []" using assms(1) by (simp add: first_None)
    with None show ?thesis using first_None by simp
  next
    case (Some x)
    then have "ys \<noteq> []" using assms(1) first_None by fastforce
    then obtain y where y: "first_element (sort_cmp cmp ys) = Some y"
      using first_None by fastforce
    have "key x \<le> key y" and "key y \<le> key x"
      using first_least [OF Some] first_least [OF y] sets cmp_key by auto
    then have "x = y"
      using assms(2) first_least [OF Some] first_least [OF y] sets by (auto dest: inj_onD)
    with Some y show ?thesis by simp
  qed
qed

end

end
