(* ===== verification/CreditLots.thy ===== *)
theory CreditLots
  imports Prelude "HOL-Library.Char_ord" "HOL-Library.List_Lexorder"
    "HOL-Library.Product_Lexorder"
begin

text \<open>
  The pure lot policy of \<open>packages/core/src/domain/credit-lots.ts\<close>: eligibility against
  the clock, the single consumption order, lot selection and wallet totals. Instants are
  milliseconds since the epoch, as \<open>Date.getTime\<close> gives them.
\<close>

datatype lot_kind = Free | Paid
datatype lot_status = Active | Exhausted | Expired | Frozen | Revoked

text \<open>The order of the kinds is the order they are spent in.\<close>

instantiation lot_kind :: linorder
begin

definition less_eq_lot_kind :: "lot_kind \<Rightarrow> lot_kind \<Rightarrow> bool" where
  "less_eq_lot_kind a b \<longleftrightarrow> a = Free \<or> b = Paid"

definition less_lot_kind :: "lot_kind \<Rightarrow> lot_kind \<Rightarrow> bool" where
  "less_lot_kind a b \<longleftrightarrow> a = Free \<and> b = Paid"

instance
proof
  fix a b c :: lot_kind
  show "a < b \<longleftrightarrow> a \<le> b \<and> \<not> b \<le> a" and "a \<le> a" and "a \<le> b \<or> b \<le> a"
    by (cases a; cases b; simp add: less_eq_lot_kind_def less_lot_kind_def)+
  show "a \<le> b \<Longrightarrow> b \<le> c \<Longrightarrow> a \<le> c" and "a \<le> b \<Longrightarrow> b \<le> a \<Longrightarrow> a = b"
    by (cases a; cases b; simp add: less_eq_lot_kind_def)+
qed

end

record CreditLotSnapshot =
  lot_id :: string
  lot_kind :: lot_kind
  lot_status :: lot_status
  creditsGranted :: int
  creditsConsumed :: int
  creditsReserved :: int
  grantedAt :: int
  expiresAt :: int

definition availableInLot :: "CreditLotSnapshot \<Rightarrow> int" where
  "availableInLot lot = creditsGranted lot - creditsConsumed lot - creditsReserved lot"

definition isLotEligible :: "CreditLotSnapshot \<Rightarrow> int \<Rightarrow> bool" where
  "isLotEligible lot now \<longleftrightarrow>
     lot_status lot = Active \<and> expiresAt lot > now \<and> availableInLot lot > 0"

definition isLotClockActive :: "CreditLotSnapshot \<Rightarrow> int \<Rightarrow> bool" where
  "isLotClockActive lot now \<longleftrightarrow> lot_status lot = Active \<and> expiresAt lot > now"

definition compareLotsForConsumption :: "CreditLotSnapshot \<Rightarrow> CreditLotSnapshot \<Rightarrow> int" where
  "compareLotsForConsumption a b =
     (if lot_kind a \<noteq> lot_kind b then (if lot_kind a = Free then -1 else 1)
      else if expiresAt a \<noteq> expiresAt b then expiresAt a - expiresAt b
      else if grantedAt a \<noteq> grantedAt b then grantedAt a - grantedAt b
      else if lot_id a < lot_id b then -1
      else if lot_id a > lot_id b then 1
      else 0)"

definition selectLotForReservation :: "CreditLotSnapshot list \<Rightarrow> int \<Rightarrow> CreditLotSnapshot option" where
  "selectLotForReservation lots now =
     (let eligible = filter (\<lambda>lot. isLotEligible lot now) lots
      in first_element (sort_cmp compareLotsForConsumption eligible))"

record wallet_totals =
  tot_available :: int
  tot_reserved :: int
  tot_freeAvailable :: int
  tot_paidAvailable :: int
  tot_nextExpiry :: "(int \<times> int) option"

definition compareByExpiry :: "CreditLotSnapshot \<Rightarrow> CreditLotSnapshot \<Rightarrow> int" where
  "compareByExpiry a b = expiresAt a - expiresAt b"

definition computeWalletTotals :: "CreditLotSnapshot list \<Rightarrow> int \<Rightarrow> wallet_totals" where
  "computeWalletTotals lots now =
     (let clockActive = filter (\<lambda>lot. isLotClockActive lot now) lots;
          available = sum_by availableInLot clockActive;
          reserved = sum_by creditsReserved lots;
          freeAvailable = sum_by availableInLot (filter (\<lambda>lot. lot_kind lot = Free) clockActive);
          eligible = filter (\<lambda>lot. isLotEligible lot now) lots;
          soonest = first_element (sort_cmp compareByExpiry eligible)
      in \<lparr>tot_available = available, tot_reserved = reserved,
          tot_freeAvailable = freeAvailable, tot_paidAvailable = available - freeAvailable,
          tot_nextExpiry = map_option (\<lambda>lot. (availableInLot lot, expiresAt lot)) soonest\<rparr>)"

section \<open>The consumption order\<close>

text \<open>
  The comparator compares one lexicographic key; both comparators of the file are
  instances of the comparator interface, from which the selection lemmas come.
\<close>

definition consumption_key :: "CreditLotSnapshot \<Rightarrow> lot_kind \<times> int \<times> int \<times> string" where
  "consumption_key lot = (lot_kind lot, expiresAt lot, grantedAt lot, lot_id lot)"

lemma kind_le_simps [simp]: "Free \<le> k" "Paid \<le> k \<longleftrightarrow> k = Paid" "Free < k \<longleftrightarrow> k = Paid" "\<not> Paid < k"
  by (auto simp: less_eq_lot_kind_def less_lot_kind_def)

lemma kind_neq: "k \<noteq> Free \<longleftrightarrow> k = Paid" "k \<noteq> Paid \<longleftrightarrow> k = Free"
  by (cases k; simp)+

lemma compare_key:
  "compareLotsForConsumption a b \<le> 0 \<longleftrightarrow> consumption_key a \<le> consumption_key b"
  by (cases "lot_kind a"; cases "lot_kind b")
     (auto simp: compareLotsForConsumption_def consumption_key_def)

interpretation consumption: key_comparator compareLotsForConsumption consumption_key
  by unfold_locales (rule compare_key)

interpretation by_expiry: key_comparator compareByExpiry expiresAt
  by unfold_locales (simp add: compareByExpiry_def)

text \<open>
  C35: lot selection is correct and complete: it returns an eligible lot of the input that no
  other eligible lot precedes in the order (free before paid, then soonest expiry, then
  oldest grant, then id), and it returns nothing exactly when no lot is eligible.
\<close>
theorem selectLotForReservation_correct:
  "(case selectLotForReservation lots now of
      Some lot \<Rightarrow> lot \<in> set lots \<and> isLotEligible lot now \<and>
        (\<forall>other\<in>{l \<in> set lots. isLotEligible l now}. consumption_key lot \<le> consumption_key other)
    | None \<Rightarrow> {l \<in> set lots. isLotEligible l now} = {})"
proof (cases "selectLotForReservation lots now")
  case None
  then show ?thesis
    by (simp add: selectLotForReservation_def consumption.first_None filter_empty_conv)
next
  case (Some lot)
  with consumption.first_least show ?thesis
    by (fastforce simp: selectLotForReservation_def compare_key)
qed

theorem selectLotForReservation_correct_witness:
  "let f = \<lparr>lot_id = ''f'', lot_kind = Free, lot_status = Active, creditsGranted = 5,
        creditsConsumed = 0, creditsReserved = 0, grantedAt = 0, expiresAt = 100\<rparr>;
       p = f\<lparr>lot_id := ''p'', lot_kind := Paid, expiresAt := 50\<rparr>
   in selectLotForReservation [p, f] 10 = Some f \<and> p \<in> set [p, f] \<and> isLotEligible p 10 \<and>
      consumption_key f \<le> consumption_key p"
  using selectLotForReservation_correct [of
     "[\<lparr>lot_id = ''p'', lot_kind = Paid, lot_status = Active, creditsGranted = 5,
        creditsConsumed = 0, creditsReserved = 0, grantedAt = 0, expiresAt = 50\<rparr>,
       \<lparr>lot_id = ''f'', lot_kind = Free, lot_status = Active, creditsGranted = 5,
        creditsConsumed = 0, creditsReserved = 0, grantedAt = 0, expiresAt = 100\<rparr>]" 10]
  by (simp add: selectLotForReservation_def isLotEligible_def availableInLot_def
      compareLotsForConsumption_def consumption_key_def Let_def)

lemma eligible_clock_active: "isLotEligible lot now \<Longrightarrow> isLotClockActive lot now"
  by (simp add: isLotEligible_def isLotClockActive_def)

lemma select_Some:
  "selectLotForReservation lots now = Some lot \<Longrightarrow> lot \<in> set lots \<and> isLotEligible lot now"
  using consumption.first_least by (fastforce simp: selectLotForReservation_def)

lemma select_None:
  "selectLotForReservation lots now = None \<longleftrightarrow> (\<forall>lot\<in>set lots. \<not> isLotEligible lot now)"
  by (simp add: selectLotForReservation_def consumption.first_None filter_empty_conv)

text \<open>
  the choice does not depend on the order in which the database returns the rows:
  for lots with distinct ids, any permutation of the input selects the same lot.
\<close>
theorem selectLotForReservation_order_independent:
  assumes "mset lots = mset lots'" and "distinct (map lot_id lots)"
  shows "selectLotForReservation lots now = selectLotForReservation lots' now"
proof -
  let ?e = "filter (\<lambda>lot. isLotEligible lot now)"
  have "inj_on lot_id (set (?e lots))"
    using assms(2) by (auto simp: distinct_map intro: inj_on_subset)
  then have "inj_on consumption_key (set (?e lots))"
    by (auto simp: inj_on_def consumption_key_def)
  moreover have "mset (?e lots) = mset (?e lots')"
    using assms(1) by simp
  ultimately show ?thesis
    unfolding selectLotForReservation_def Let_def by (intro consumption.first_perm)
qed

theorem selectLotForReservation_order_independent_witness:
  "let a = \<lparr>lot_id = ''a'', lot_kind = Paid, lot_status = Active, creditsGranted = 2,
        creditsConsumed = 0, creditsReserved = 0, grantedAt = 0, expiresAt = 100\<rparr>;
       b = a\<lparr>lot_id := ''b''\<rparr>
   in selectLotForReservation [a, b] 10 = selectLotForReservation [b, a] 10"
  unfolding Let_def
  by (rule selectLotForReservation_order_independent) simp_all

section \<open>Wallet totals\<close>

lemma available_split:
  "sum_by availableInLot (filter (\<lambda>l. lot_kind l = Free) ls) +
   sum_by availableInLot (filter (\<lambda>l. lot_kind l = Paid) ls) = sum_by availableInLot ls"
  by (induction ls) (auto simp: kind_neq)

lemma soonest_None:
  "first_element (sort_cmp compareByExpiry (filter (\<lambda>lot. isLotEligible lot now) lots)) = None
   \<longleftrightarrow> (\<forall>lot\<in>set lots. \<not> isLotEligible lot now)"
  by (simp add: by_expiry.first_None filter_empty_conv)

text \<open>
  the totals partition the spendable balance: free plus paid is the available total, each
  summed over the clock-active lots of its kind, the reserved total spans every lot, and
  the next expiry is that of an eligible lot which no other eligible lot precedes.
\<close>
theorem computeWalletTotals_correct:
  "let t = computeWalletTotals lots now; active = filter (\<lambda>l. isLotClockActive l now) lots in
   tot_available t = sum_by availableInLot active \<and>
   tot_freeAvailable t + tot_paidAvailable t = tot_available t \<and>
   tot_paidAvailable t = sum_by availableInLot (filter (\<lambda>l. lot_kind l = Paid) active) \<and>
   tot_reserved t = sum_by creditsReserved lots \<and>
   (tot_nextExpiry t = None \<longleftrightarrow> selectLotForReservation lots now = None) \<and>
   (case tot_nextExpiry t of
      None \<Rightarrow> True
    | Some (credits, due) \<Rightarrow> credits > 0 \<and> due > now \<and>
        (\<exists>l\<in>set lots. isLotEligible l now \<and> availableInLot l = credits \<and> expiresAt l = due) \<and>
        (\<forall>l\<in>{l \<in> set lots. isLotEligible l now}. due \<le> expiresAt l))"
proof -
  let ?e = "filter (\<lambda>lot. isLotEligible lot now) lots"
  note split = available_split [of "filter (\<lambda>l. isLotClockActive l now) lots"]
  show ?thesis
  proof (cases "first_element (sort_cmp compareByExpiry ?e)")
    case None
    then have "selectLotForReservation lots now = None"
      using soonest_None select_None by blast
    with None split show ?thesis by (simp add: computeWalletTotals_def Let_def)
  next
    case (Some l)
    have l: "l \<in> set lots" "isLotEligible l now" "\<forall>y\<in>set ?e. expiresAt l \<le> expiresAt y"
      using by_expiry.first_least [OF Some] by (auto simp: by_expiry.cmp_key)
    then have "selectLotForReservation lots now \<noteq> None"
      using select_None by blast
    with Some split l show ?thesis
      by (auto simp: computeWalletTotals_def Let_def isLotEligible_def)
  qed
qed

theorem computeWalletTotals_correct_witness:
  "let f = \<lparr>lot_id = ''f'', lot_kind = Free, lot_status = Active, creditsGranted = 5,
        creditsConsumed = 1, creditsReserved = 1, grantedAt = 0, expiresAt = 100\<rparr>;
       t = computeWalletTotals [f] 10
   in tot_available t = 3 \<and> tot_reserved t = 1 \<and> tot_nextExpiry t = Some (3, 100) \<and>
      (\<exists>l\<in>set [f]. isLotEligible l 10 \<and> availableInLot l = 3 \<and> expiresAt l = 100)"
  using computeWalletTotals_correct [of
      "[\<lparr>lot_id = ''f'', lot_kind = Free, lot_status = Active, creditsGranted = 5,
        creditsConsumed = 1, creditsReserved = 1, grantedAt = 0, expiresAt = 100\<rparr>]" 10]
  by (simp add: computeWalletTotals_def isLotEligible_def isLotClockActive_def
      availableInLot_def compareByExpiry_def Let_def)

text \<open>
  While no active lot has fallen due, the clock test is the status test, so the policy's
  available total is the sum over the active lots.
\<close>

lemma totals_available_status:
  assumes "\<And>l. l \<in> set lots \<Longrightarrow> lot_status l = Active \<Longrightarrow> expiresAt l > now \<or> availableInLot l = 0"
  shows "tot_available (computeWalletTotals lots now) =
         sum_by (\<lambda>l. if lot_status l = Active then availableInLot l else 0) lots"
  unfolding computeWalletTotals_def Let_def
  by (auto simp: sum_by_filter isLotClockActive_def dest: assms intro!: sum_by_cong)

lemma totals_reserved: "tot_reserved (computeWalletTotals lots now) = sum_by creditsReserved lots"
  by (simp add: computeWalletTotals_def Let_def)

end
