(* ===== verification/LedgerDb.thy ===== *)
theory LedgerDb
  imports CreditLots
begin

text \<open>
  The tables the credit ledger reads and writes (\<open>packages/db/prisma/schema.prisma\<close>) and
  the Prisma calls on them, each with the way it fails: \<open>create\<close> refuses a duplicate of a
  unique column (P2002), \<open>update\<close> refuses a missing row (P2025), \<open>findUniqueOrThrow\<close>
  likewise. A table is the list of its rows; \<open>findMany\<close> without an order answers the
  matching rows in list order. Identifiers that Prisma generates (\<open>cuid\<close>) come in as
  arguments, so a collision is a P2002 like any other; the ids of ledger entries and the
  row timestamps, which the module never reads, have no column here.
\<close>

text \<open>
  \<open>kind\<close> and \<open>status\<close> are plain string columns: a value of the domain, or some other text.
\<close>

datatype 'a column = Known 'a | Unknown string

datatype reservation_status = Held | Captured | Released

datatype entry_type =
    free_grant | pack_purchase | reserve | release | consume | expire
  | dispute_freeze | dispute_release | refund_reversal

datatype actor_kind = system | stripe_webhook

record CreditWallet =
  cw_id :: string
  cw_organizationId :: string
  cw_availableCredits :: int
  cw_reservedCredits :: int
  cw_stripeCustomerId :: "string option"
  cw_settlementCurrency :: "string option"

record LotRow =
  cl_id :: string
  cl_organizationId :: string
  cl_kind :: "lot_kind column"
  cl_source :: string
  cl_packId :: "string option"
  cl_creditsGranted :: int
  cl_creditsConsumed :: int
  cl_creditsReserved :: int
  cl_unitAmountCents :: "int option"
  cl_currency :: string
  cl_billingCountry :: "string option"
  cl_status :: "lot_status column"
  cl_grantedAt :: int
  cl_expiresAt :: int
  cl_frozenAt :: "int option"
  cl_stripePaymentIntentId :: "string option"
  cl_stripeCheckoutSessionId :: "string option"
  cl_stripeInvoiceId :: "string option"

record LedgerEntry =
  ce_organizationId :: string
  ce_lotId :: string
  ce_type :: entry_type
  ce_delta :: int
  ce_candidateSessionId :: "string option"
  ce_stripeEventId :: "string option"
  ce_actorKind :: actor_kind
  ce_reason :: "string option"

record ReservationRow =
  cr_id :: string
  cr_organizationId :: string
  cr_candidateSessionId :: string
  cr_lotId :: string
  cr_status :: "reservation_status column"
  cr_heldAt :: int
  cr_expiresAt :: int
  cr_resolvedAt :: "int option"

record credit_db =
  wallets :: "CreditWallet list"
  lots :: "LotRow list"
  entries :: "LedgerEntry list"
  reservations :: "ReservationRow list"

text \<open>The errors the module throws, and the Prisma error codes it distinguishes.\<close>

datatype ledger_error =
    MissingCreditWalletError string
  | UnknownCreditLotKindError string string
  | CreditReservationOrganizationMismatchError string string
  | InvalidCreditPurchaseAmountError string int int
  | UniqueViolation          \<comment> \<open>P2002\<close>
  | RecordNotFound           \<comment> \<open>P2025\<close>
  | TransactionExpired       \<comment> \<open>P2028\<close>
  | DatabaseError string     \<comment> \<open>any other\<close>

type_synonym 'a ledger_tx = "(ledger_error, credit_db, 'a) tx"

section \<open>Reads\<close>

definition findWallet :: "string \<Rightarrow> credit_db \<Rightarrow> CreditWallet option" where
  "findWallet organizationId db = find_row cw_organizationId organizationId (wallets db)"

definition findWalletById :: "string \<Rightarrow> credit_db \<Rightarrow> CreditWallet option" where
  "findWalletById walletId db = find_row cw_id walletId (wallets db)"

definition findLot :: "string \<Rightarrow> credit_db \<Rightarrow> LotRow option" where
  "findLot lotId db = find_row cl_id lotId (lots db)"

definition findLotByPayment :: "string \<Rightarrow> credit_db \<Rightarrow> LotRow option" where
  "findLotByPayment stripePaymentIntentId db =
     find_row cl_stripePaymentIntentId (Some stripePaymentIntentId) (lots db)"

definition findReservation :: "string \<Rightarrow> credit_db \<Rightarrow> ReservationRow option" where
  "findReservation candidateSessionId db =
     find_row cr_candidateSessionId candidateSessionId (reservations db)"

definition or_throw :: "(credit_db \<Rightarrow> 'r option) \<Rightarrow> 'r ledger_tx" where
  "or_throw q db = (case q db of None \<Rightarrow> Inl RecordNotFound | Some r \<Rightarrow> Inr (r, db))"

lemmas db_finds = findWallet_def findWalletById_def findLot_def findLotByPayment_def
  findReservation_def

section \<open>Writes\<close>

text \<open>A unique column that allows nulls: two rows clash when both carry the same value.\<close>

definition clashes :: "('r \<Rightarrow> 'v option) \<Rightarrow> 'r \<Rightarrow> 'r list \<Rightarrow> bool" where
  "clashes col r rows \<longleftrightarrow> col r \<noteq> None \<and> list_ex (\<lambda>s. col s = col r) rows"

definition createWallet :: "CreditWallet \<Rightarrow> CreditWallet ledger_tx" where
  "createWallet w db =
     (if list_ex (\<lambda>v. cw_id v = cw_id w \<or> cw_organizationId v = cw_organizationId w) (wallets db)
         \<or> clashes cw_stripeCustomerId w (wallets db)
      then Inl UniqueViolation
      else Inr (w, db\<lparr>wallets := wallets db @ [w]\<rparr>))"

definition createLot :: "LotRow \<Rightarrow> LotRow ledger_tx" where
  "createLot lot db =
     (if list_ex (\<lambda>l. cl_id l = cl_id lot) (lots db)
         \<or> clashes cl_stripePaymentIntentId lot (lots db)
         \<or> clashes cl_stripeCheckoutSessionId lot (lots db)
         \<or> clashes cl_stripeInvoiceId lot (lots db)
      then Inl UniqueViolation
      else Inr (lot, db\<lparr>lots := lots db @ [lot]\<rparr>))"

definition createReservation :: "ReservationRow \<Rightarrow> ReservationRow ledger_tx" where
  "createReservation r db =
     (if list_ex (\<lambda>s. cr_id s = cr_id r \<or> cr_candidateSessionId s = cr_candidateSessionId r)
           (reservations db)
      then Inl UniqueViolation
      else Inr (r, db\<lparr>reservations := reservations db @ [r]\<rparr>))"

definition createEntry :: "LedgerEntry \<Rightarrow> unit ledger_tx" where
  "createEntry e = tx_modify (\<lambda>db. db\<lparr>entries := entries db @ [e]\<rparr>)"

definition updateWallet ::
  "string \<Rightarrow> (CreditWallet \<Rightarrow> CreditWallet) \<Rightarrow> CreditWallet ledger_tx" where
  "updateWallet organizationId f db =
     (case findWallet organizationId db of
        None \<Rightarrow> Inl RecordNotFound
      | Some w \<Rightarrow> Inr (f w, db\<lparr>wallets := update_row cw_organizationId organizationId f (wallets db)\<rparr>))"

definition updateLot :: "string \<Rightarrow> (LotRow \<Rightarrow> LotRow) \<Rightarrow> LotRow ledger_tx" where
  "updateLot lotId f db =
     (case findLot lotId db of
        None \<Rightarrow> Inl RecordNotFound
      | Some l \<Rightarrow> Inr (f l, db\<lparr>lots := update_row cl_id lotId f (lots db)\<rparr>))"

definition updateReservation ::
  "string \<Rightarrow> (ReservationRow \<Rightarrow> ReservationRow) \<Rightarrow> ReservationRow ledger_tx" where
  "updateReservation reservationId f db =
     (case find_row cr_id reservationId (reservations db) of
        None \<Rightarrow> Inl RecordNotFound
      | Some r \<Rightarrow> Inr (f r, db\<lparr>reservations := update_row cr_id reservationId f (reservations db)\<rparr>))"

text \<open>
  The one write from outside the ledger module: \<open>stripe-purchase.ts\<close> files the Stripe customer
  on the wallet; the column is unique.
\<close>

definition setStripeCustomer :: "string \<Rightarrow> string \<Rightarrow> unit ledger_tx" where
  "setStripeCustomer walletId customerId db =
     (case findWalletById walletId db of
        None \<Rightarrow> Inl RecordNotFound
      | Some _ \<Rightarrow>
          if list_ex (\<lambda>w. cw_id w \<noteq> walletId \<and> cw_stripeCustomerId w = Some customerId) (wallets db)
          then Inl UniqueViolation
          else Inr ((), db\<lparr>wallets := update_row cw_id walletId
                 (\<lambda>w. w\<lparr>cw_stripeCustomerId := Some customerId\<rparr>) (wallets db)\<rparr>))"

text \<open>\<open>increment\<close> and \<open>decrement\<close> on the two wallet counters.\<close>

definition moveCredits :: "string \<Rightarrow> int \<Rightarrow> int \<Rightarrow> CreditWallet ledger_tx" where
  "moveCredits organizationId available reserved =
     updateWallet organizationId
       (\<lambda>w. w\<lparr>cw_availableCredits := cw_availableCredits w + available,
              cw_reservedCredits := cw_reservedCredits w + reserved\<rparr>)"

lemmas db_writes = createWallet_def createLot_def createReservation_def createEntry_def
  updateWallet_def updateLot_def updateReservation_def moveCredits_def or_throw_def

lemma updateLot_Inr:
  "updateLot lotId f db = Inr (r, db') \<longleftrightarrow>
     (\<exists>l. findLot lotId db = Some l \<and> r = f l \<and>
          db' = db\<lparr>lots := update_row cl_id lotId f (lots db)\<rparr>)"
  by (auto simp: updateLot_def split: option.splits)

lemma updateWallet_Inr:
  "updateWallet org f db = Inr (r, db') \<longleftrightarrow>
     (\<exists>w. findWallet org db = Some w \<and> r = f w \<and>
          db' = db\<lparr>wallets := update_row cw_organizationId org f (wallets db)\<rparr>)"
  by (auto simp: updateWallet_def split: option.splits)

lemma updateReservation_Inr:
  "updateReservation rid f db = Inr (r, db') \<longleftrightarrow>
     (\<exists>x. find_row cr_id rid (reservations db) = Some x \<and> r = f x \<and>
          db' = db\<lparr>reservations := update_row cr_id rid f (reservations db)\<rparr>)"
  by (auto simp: updateReservation_def split: option.splits)

lemma createEntry_Inr:
  "createEntry e db = Inr (u, db') \<longleftrightarrow> db' = db\<lparr>entries := entries db @ [e]\<rparr>"
  by (simp add: createEntry_def tx_modify_Inr)

lemma or_throw_Inr: "or_throw q db = Inr (r, db') \<longleftrightarrow> q db = Some r \<and> db' = db"
  by (auto simp: or_throw_def split: option.splits)

lemmas db_Inr = updateLot_Inr updateWallet_Inr updateReservation_Inr createEntry_Inr or_throw_Inr

text \<open>What a committed \<open>create\<close> proves of the table it went into.\<close>

lemma createWallet_Inr:
  "createWallet w db = Inr (r, db') \<Longrightarrow>
     r = w \<and> db' = db\<lparr>wallets := wallets db @ [w]\<rparr> \<and>
     cw_id w \<notin> cw_id ` set (wallets db) \<and> cw_organizationId w \<notin> cw_organizationId ` set (wallets db)"
  by (auto simp: createWallet_def list_ex_iff split: if_splits)

lemma createLot_Inr:
  "createLot l db = Inr (r, db') \<Longrightarrow>
     r = l \<and> db' = db\<lparr>lots := lots db @ [l]\<rparr> \<and> cl_id l \<notin> cl_id ` set (lots db) \<and>
     (\<forall>x\<in>set (lots db). cl_stripePaymentIntentId l \<noteq> None \<longrightarrow>
        cl_stripePaymentIntentId x \<noteq> cl_stripePaymentIntentId l)"
  by (auto simp: createLot_def clashes_def list_ex_iff split: if_splits)

lemma createReservation_Inr:
  "createReservation x db = Inr (r, db') \<Longrightarrow>
     r = x \<and> db' = db\<lparr>reservations := reservations db @ [x]\<rparr> \<and>
     cr_id x \<notin> cr_id ` set (reservations db) \<and>
     cr_candidateSessionId x \<notin> cr_candidateSessionId ` set (reservations db)"
  by (auto simp: createReservation_def list_ex_iff split: if_splits)

end
