(* ===== verification/JsText.thy ===== *)
theory JsText
  imports Prelude "HOL-Library.Sublist"
begin

text \<open>
  The string operations of JavaScript the program uses. A string is the list of its code
  units; the model's code units are those of Latin-1, and the case mappings act on the
  ASCII letters, which is all the codes, slugs and flags of the program contain.
\<close>

definition is_js_space :: "char \<Rightarrow> bool" where
  "is_js_space c \<longleftrightarrow> (let n = (of_char c :: nat) in (9 \<le> n \<and> n \<le> 13) \<or> n = 32 \<or> n = 160)"

definition js_trim :: "string \<Rightarrow> string" where
  "js_trim s = rev (dropWhile is_js_space (rev (dropWhile is_js_space s)))"

definition upper_char :: "char \<Rightarrow> char" where
  "upper_char c = (let n = (of_char c :: nat) in if 97 \<le> n \<and> n \<le> 122 then char_of (n - 32) else c)"

definition lower_char :: "char \<Rightarrow> char" where
  "lower_char c = (let n = (of_char c :: nat) in if 65 \<le> n \<and> n \<le> 90 then char_of (n + 32) else c)"

definition js_toUpperCase :: "string \<Rightarrow> string" where
  "js_toUpperCase s = map upper_char s"

definition js_toLowerCase :: "string \<Rightarrow> string" where
  "js_toLowerCase s = map lower_char s"

definition js_startsWith :: "string \<Rightarrow> string \<Rightarrow> bool" where
  "js_startsWith s p \<longleftrightarrow> prefix p s"

definition js_includes :: "string \<Rightarrow> string \<Rightarrow> bool" where
  "js_includes s p \<longleftrightarrow> sublist p s"

text \<open>A string is falsy when empty; an optional one also when absent.\<close>

definition truthy :: "string option \<Rightarrow> bool" where
  "truthy s \<longleftrightarrow> (case s of None \<Rightarrow> False | Some t \<Rightarrow> t \<noteq> [])"

lemma truthy_simps [simp]: "\<not> truthy None" "truthy (Some s) \<longleftrightarrow> s \<noteq> []"
  by (simp_all add: truthy_def)

lemma upper_char_idem: "upper_char (upper_char c) = upper_char c"
proof -
  obtain n :: nat where n: "of_char c = n" by blast
  have "97 \<le> n \<and> n \<le> 122 \<Longrightarrow> (n - 32) mod 256 = n - 32" by (rule mod_less) linarith
  with n show ?thesis by (auto simp: upper_char_def Let_def)
qed

lemma toUpperCase_idem: "js_toUpperCase (js_toUpperCase s) = js_toUpperCase s"
  by (simp add: js_toUpperCase_def upper_char_idem)

lemma dropWhile_idem: "dropWhile P (dropWhile P xs) = dropWhile P xs"
  by (induction xs) auto

lemma js_trim_eq_Nil: "js_trim s = [] \<longleftrightarrow> (\<forall>c\<in>set s. is_js_space c)"
proof -
  have "dropWhile is_js_space (rev (dropWhile is_js_space s)) = []
        \<longleftrightarrow> (\<forall>c\<in>set (dropWhile is_js_space s). is_js_space c)"
    by simp
  also have "\<dots> \<longleftrightarrow> (\<forall>c\<in>set s. is_js_space c)"
    by (metis dropWhile_eq_Nil_conv hd_dropWhile hd_in_set list.set_cases set_dropWhileD)
  finally show ?thesis by (simp add: js_trim_def)
qed

end
