(* ===== verification/Ledger.thy ===== *)
theory Ledger
  imports LedgerDb JsText
begin

text \<open>
  The transactional credit ledger of \<open>packages/billing/src/credit-ledger.ts\<close>, in the order
  of the file. A function whose name ends in \<open>Tx\<close> is the body of an interactive
  transaction; the exported functions wrap it in \<open>runInWalletTransaction\<close> and do their
  reads outside it, as the source does. \<open>faults\<close> says what the database connection does
  to the n-th attempt of a transaction (nothing, or an error that rolls it back), so that
  the retry loop and its rollback are part of the model. Logging is not modelled.
\<close>

section \<open>Constants and conversions\<close>

definition FIRST_FIVE_CREDITS :: int where "FIRST_FIVE_CREDITS = 5"
definition FIRST_FIVE_EXPIRY_DAYS :: int where "FIRST_FIVE_EXPIRY_DAYS = 30"
definition PAID_CREDIT_EXPIRY_DAYS :: int where "PAID_CREDIT_EXPIRY_DAYS = 365"
definition RESERVATION_TTL_HOURS :: int where "RESERVATION_TTL_HOURS = 1"
definition DAY_MS :: int where "DAY_MS = 24 * 60 * 60 * 1000"
definition HOUR_MS :: int where "HOUR_MS = 60 * 60 * 1000"
definition TRANSACTION_RETRY_ATTEMPTS :: nat where "TRANSACTION_RETRY_ATTEMPTS = 3"

lemmas ledger_constants = FIRST_FIVE_CREDITS_def FIRST_FIVE_EXPIRY_DAYS_def
  PAID_CREDIT_EXPIRY_DAYS_def RESERVATION_TTL_HOURS_def DAY_MS_def HOUR_MS_def

datatype GrantPurchasedCreditLotResult =
    Granted string
  | AlreadyGranted
  | CurrencyMismatch string string   \<comment> \<open>wallet currency, session currency\<close>

datatype ReserveCreditResult = ReserveOk string | NoCreditsAvailable

datatype CaptureReservationResult = CaptureDone | AlreadyCaptured | CaptureNoReservation

datatype ReleaseReservationResult = ReleaseDone | AlreadyResolved | ReleaseNoReservation

datatype CreditLotAdjustmentResult =
    Applied string string int                      \<comment> \<open>organization, lot, credits\<close>
  | AlreadyApplied string string "lot_status column"
  | NoLot
  | NeedsAdmin string string string                \<comment> \<open>organization, lot, reason\<close>

definition toLotKind :: "string \<Rightarrow> lot_kind column \<Rightarrow> ledger_error + lot_kind" where
  "toLotKind lotId v =
     (case v of Known k \<Rightarrow> Inr k | Unknown t \<Rightarrow> Inl (UnknownCreditLotKindError lotId t))"

definition toLotStatus :: "lot_status column \<Rightarrow> lot_status" where
  "toLotStatus v = (case v of Known s \<Rightarrow> s | Unknown _ \<Rightarrow> Revoked)"

definition toLotSnapshot :: "LotRow \<Rightarrow> ledger_error + CreditLotSnapshot" where
  "toLotSnapshot row =
     (case toLotKind (cl_id row) (cl_kind row) of
        Inl e \<Rightarrow> Inl e
      | Inr k \<Rightarrow> Inr \<lparr>lot_id = cl_id row, lot_kind = k, lot_status = toLotStatus (cl_status row),
          creditsGranted = cl_creditsGranted row, creditsConsumed = cl_creditsConsumed row,
          creditsReserved = cl_creditsReserved row, grantedAt = cl_grantedAt row,
          expiresAt = cl_expiresAt row\<rparr>)"

section \<open>Transactions and the wallet lock\<close>

type_synonym faults = "nat \<Rightarrow> ledger_error option"

definition no_faults :: faults where "no_faults _ = None"

definition isUniqueViolation :: "ledger_error \<Rightarrow> bool" where
  "isUniqueViolation e \<longleftrightarrow> e = UniqueViolation"

definition isTransactionExpired :: "ledger_error \<Rightarrow> bool" where
  "isTransactionExpired e \<longleftrightarrow> e = TransactionExpired"

text \<open>
  One attempt commits the body or rolls back. The loop retries P2028 only, at most three
  attempts, and then throws the last error, which is a P2028.
\<close>

definition attemptTransaction ::
  "faults \<Rightarrow> nat \<Rightarrow> 'a ledger_tx \<Rightarrow> credit_db \<Rightarrow> ledger_error + ('a \<times> credit_db)" where
  "attemptTransaction flt attempt work db =
     (case flt attempt of Some e \<Rightarrow> Inl e | None \<Rightarrow> work db)"

fun runAttempts ::
  "nat \<Rightarrow> nat \<Rightarrow> faults \<Rightarrow> 'a ledger_tx \<Rightarrow> credit_db \<Rightarrow> (ledger_error + 'a) \<times> credit_db" where
  "runAttempts 0 attempt flt work db = (Inl TransactionExpired, db)"
| "runAttempts (Suc left) attempt flt work db =
     (case attemptTransaction flt attempt work db of
        Inr (a, db') \<Rightarrow> (Inr a, db')
      | Inl e \<Rightarrow> if \<not> isTransactionExpired e then (Inl e, db)
                 else runAttempts left (Suc attempt) flt work db)"

definition runTransaction ::
  "faults \<Rightarrow> 'a ledger_tx \<Rightarrow> credit_db \<Rightarrow> (ledger_error + 'a) \<times> credit_db" where
  "runTransaction flt work db = runAttempts TRANSACTION_RETRY_ATTEMPTS 1 flt work db"

definition tryLockWallet :: "string \<Rightarrow> string option ledger_tx" where
  "tryLockWallet organizationId = tx_get (\<lambda>db. map_option cw_id (findWallet organizationId db))"

definition lockWallet :: "string \<Rightarrow> string ledger_tx" where
  "lockWallet organizationId = tx_bind (tryLockWallet organizationId) (\<lambda>walletId.
     case walletId of None \<Rightarrow> tx_throw (MissingCreditWalletError organizationId)
     | Some w \<Rightarrow> tx_return w)"

definition runInWalletTransaction ::
  "faults \<Rightarrow> string \<Rightarrow> 'a ledger_tx \<Rightarrow> credit_db \<Rightarrow> (ledger_error + 'a) \<times> credit_db" where
  "runInWalletTransaction flt organizationId work =
     runTransaction flt (tx_then (lockWallet organizationId) work)"

definition loadLots :: "string \<Rightarrow> CreditLotSnapshot list ledger_tx" where
  "loadLots organizationId = tx_bind
     (tx_get (\<lambda>db. filter (\<lambda>l. cl_organizationId l = organizationId \<and> cl_status l = Known Active)
        (lots db)))
     (\<lambda>rows. tx_lift (traverse toLotSnapshot rows))"

section \<open>The wallet and its free grant\<close>

definition firstFiveLot :: "string \<Rightarrow> string \<Rightarrow> int \<Rightarrow> int \<Rightarrow> LotRow" where
  "firstFiveLot lotId organizationId now expiryDays =
     \<lparr>cl_id = lotId, cl_organizationId = organizationId, cl_kind = Known Free,
      cl_source = ''first_five'', cl_packId = None, cl_creditsGranted = FIRST_FIVE_CREDITS,
      cl_creditsConsumed = 0, cl_creditsReserved = 0, cl_unitAmountCents = None,
      cl_currency = ''EUR'', cl_billingCountry = None, cl_status = Known Active,
      cl_grantedAt = now, cl_expiresAt = now + expiryDays * DAY_MS, cl_frozenAt = None,
      cl_stripePaymentIntentId = None, cl_stripeCheckoutSessionId = None,
      cl_stripeInvoiceId = None\<rparr>"

definition ensureWalletTx ::
  "string \<Rightarrow> string \<Rightarrow> string \<Rightarrow> int \<Rightarrow> int \<Rightarrow> string ledger_tx" where
  "ensureWalletTx walletId lotId organizationId now firstFiveExpiryDays =
     tx_bind (tryLockWallet organizationId) (\<lambda>lockedWalletId.
       case lockedWalletId of
         Some w \<Rightarrow> tx_return w
       | None \<Rightarrow>
           tx_bind (createWallet \<lparr>cw_id = walletId, cw_organizationId = organizationId,
                cw_availableCredits = FIRST_FIVE_CREDITS, cw_reservedCredits = 0,
                cw_stripeCustomerId = None, cw_settlementCurrency = None\<rparr>) (\<lambda>wallet.
           tx_bind (createLot (firstFiveLot lotId organizationId now firstFiveExpiryDays)) (\<lambda>lot.
           tx_then (createEntry \<lparr>ce_organizationId = organizationId, ce_lotId = cl_id lot,
                ce_type = free_grant, ce_delta = FIRST_FIVE_CREDITS, ce_candidateSessionId = None,
                ce_stripeEventId = None, ce_actorKind = system, ce_reason = Some ''first_five''\<rparr>)
           (tx_return (cw_id wallet)))))"

record fresh_ids =
  fresh_walletId :: string
  fresh_freeLotId :: string
  fresh_lotId :: string
  fresh_reservationId :: string

definition ensureWallet ::
  "faults \<Rightarrow> fresh_ids \<Rightarrow> string \<Rightarrow> int \<Rightarrow> int option \<Rightarrow> credit_db \<Rightarrow> (ledger_error + string) \<times> credit_db" where
  "ensureWallet flt ids organizationId now firstFiveExpiryDays db =
     (case findWallet organizationId db of
        Some existing \<Rightarrow> (Inr (cw_id existing), db)
      | None \<Rightarrow>
          let days = (case firstFiveExpiryDays of None \<Rightarrow> FIRST_FIVE_EXPIRY_DAYS | Some d \<Rightarrow> d)
          in case runTransaction flt (ensureWalletTx (fresh_walletId ids) (fresh_freeLotId ids)
                    organizationId now days) db of
               (Inr walletId, db') \<Rightarrow> (Inr walletId, db')
             | (Inl e, db') \<Rightarrow>
                 if isUniqueViolation e
                 then (case findWallet organizationId db' of
                         Some wallet \<Rightarrow> (Inr (cw_id wallet), db')
                       | None \<Rightarrow> (Inl RecordNotFound, db'))
                 else (Inl e, db'))"

section \<open>Purchases\<close>

record GrantPurchasedCreditLotInput =
  gi_organizationId :: string
  gi_packId :: string
  gi_creditsGranted :: int
  gi_unitAmountCents :: int
  gi_currency :: string
  gi_billingCountry :: "string option"
  gi_stripePaymentIntentId :: string
  gi_stripeCheckoutSessionId :: "string option"
  gi_stripeInvoiceId :: "string option"
  gi_stripeEventId :: "string option"
  gi_now :: int

definition purchasedLot :: "string \<Rightarrow> GrantPurchasedCreditLotInput \<Rightarrow> LotRow" where
  "purchasedLot lotId i =
     \<lparr>cl_id = lotId, cl_organizationId = gi_organizationId i, cl_kind = Known Paid,
      cl_source = ''pack_purchase'', cl_packId = Some (gi_packId i),
      cl_creditsGranted = gi_creditsGranted i, cl_creditsConsumed = 0, cl_creditsReserved = 0,
      cl_unitAmountCents = Some (gi_unitAmountCents i),
      cl_currency = js_toUpperCase (gi_currency i), cl_billingCountry = gi_billingCountry i,
      cl_status = Known Active, cl_grantedAt = gi_now i,
      cl_expiresAt = gi_now i + PAID_CREDIT_EXPIRY_DAYS * DAY_MS, cl_frozenAt = None,
      cl_stripePaymentIntentId = Some (gi_stripePaymentIntentId i),
      cl_stripeCheckoutSessionId = gi_stripeCheckoutSessionId i,
      cl_stripeInvoiceId = gi_stripeInvoiceId i\<rparr>"

text \<open>The writes of a grant: the lot, the entry that explains it, the wallet counter.\<close>

definition grantWritesTx ::
  "string \<Rightarrow> GrantPurchasedCreditLotInput \<Rightarrow> GrantPurchasedCreditLotResult ledger_tx" where
  "grantWritesTx lotId i =
     tx_bind (createLot (purchasedLot lotId i)) (\<lambda>lot.
     tx_then (createEntry \<lparr>ce_organizationId = gi_organizationId i, ce_lotId = cl_id lot,
         ce_type = pack_purchase, ce_delta = gi_creditsGranted i, ce_candidateSessionId = None,
         ce_stripeEventId = gi_stripeEventId i, ce_actorKind = stripe_webhook,
         ce_reason = Some (gi_packId i)\<rparr>)
     (tx_then (moveCredits (gi_organizationId i) (gi_creditsGranted i) 0)
     (tx_return (Granted (cl_id lot)))))"

text \<open>
  The settlement-currency gate. \<open>Some\<close> is the mismatch it answers; \<open>None\<close> lets the grant
  go on, after locking the wallet to the incoming currency where nothing locked it yet.
\<close>

definition currencyGateTx ::
  "string \<Rightarrow> string \<Rightarrow> GrantPurchasedCreditLotResult option ledger_tx" where
  "currencyGateTx organizationId incomingCurrency =
     tx_bind (or_throw (findWallet organizationId)) (\<lambda>wallet.
       case cw_settlementCurrency wallet of
         None \<Rightarrow>
           tx_bind (tx_get (\<lambda>db. filter (\<lambda>l. cl_organizationId l = organizationId \<and>
              cl_kind l = Known Paid) (lots db))) (\<lambda>existingPaidLots.
           case find (\<lambda>l. cl_currency l \<noteq> incomingCurrency) existingPaidLots of
             Some conflicting \<Rightarrow>
               tx_return (Some (CurrencyMismatch (cl_currency conflicting) incomingCurrency))
           | None \<Rightarrow>
               tx_then (updateWallet organizationId
                   (\<lambda>w. w\<lparr>cw_settlementCurrency := Some incomingCurrency\<rparr>))
                 (tx_return None))
       | Some locked \<Rightarrow>
           if locked \<noteq> incomingCurrency
           then tx_return (Some (CurrencyMismatch locked incomingCurrency))
           else tx_return None)"

definition grantTx ::
  "string \<Rightarrow> GrantPurchasedCreditLotInput \<Rightarrow> GrantPurchasedCreditLotResult ledger_tx" where
  "grantTx lotId i =
     tx_bind (tx_get (findLotByPayment (gi_stripePaymentIntentId i))) (\<lambda>existingForPayment.
       if map_option cl_organizationId existingForPayment = Some (gi_organizationId i)
       then tx_return AlreadyGranted
       else if existingForPayment = None
       then tx_bind (currencyGateTx (gi_organizationId i) (js_toUpperCase (gi_currency i))) (\<lambda>gate.
              case gate of Some mismatch \<Rightarrow> tx_return mismatch
              | None \<Rightarrow> grantWritesTx lotId i)
       else grantWritesTx lotId i)"

text \<open>
  The catch around the transaction: a unique violation is a replay only when the payment is
  now on a lot of this organization; everything else is rethrown.
\<close>

definition grantPurchasedCreditLot ::
  "faults \<times> faults \<Rightarrow> fresh_ids \<Rightarrow> GrantPurchasedCreditLotInput \<Rightarrow> credit_db \<Rightarrow>
   (ledger_error + GrantPurchasedCreditLotResult) \<times> credit_db" where
  "grantPurchasedCreditLot flt ids i db =
     (if gi_creditsGranted i \<le> 0 \<or> gi_unitAmountCents i < 0
      then (Inl (InvalidCreditPurchaseAmountError (gi_organizationId i) (gi_creditsGranted i)
              (gi_unitAmountCents i)), db)
      else
        case ensureWallet (fst flt) ids (gi_organizationId i) (gi_now i)
               (Some PAID_CREDIT_EXPIRY_DAYS) db of
          (Inl e, db1) \<Rightarrow> (Inl e, db1)
        | (Inr _, db1) \<Rightarrow>
            (case runInWalletTransaction (snd flt) (gi_organizationId i)
                    (grantTx (fresh_lotId ids) i) db1 of
               (Inr r, db2) \<Rightarrow> (Inr r, db2)
             | (Inl e, db2) \<Rightarrow>
                 if \<not> isUniqueViolation e then (Inl e, db2)
                 else (case findLotByPayment (gi_stripePaymentIntentId i) db2 of
                         None \<Rightarrow> (Inl e, db2)
                       | Some granted \<Rightarrow>
                           if cl_organizationId granted \<noteq> gi_organizationId i then (Inl e, db2)
                           else (Inr AlreadyGranted, db2))))"

section \<open>Sweeps and releases inside a transaction\<close>

fun expireRows ::
  "string \<Rightarrow> LotRow list \<Rightarrow> string list \<Rightarrow> int \<Rightarrow> (string list \<times> int) ledger_tx" where
  "expireRows organizationId [] expiredLotIds writtenOff = tx_return (expiredLotIds, writtenOff)"
| "expireRows organizationId (row # rows) expiredLotIds writtenOff =
     tx_bind (tx_lift (toLotSnapshot row)) (\<lambda>snapshot.
       let remaining = availableInLot snapshot in
       tx_then (updateLot (cl_id row) (\<lambda>l. l\<lparr>cl_status := Known Expired\<rparr>))
       (tx_then (createEntry \<lparr>ce_organizationId = organizationId, ce_lotId = cl_id row,
           ce_type = expire, ce_delta = - remaining, ce_candidateSessionId = None,
           ce_stripeEventId = None, ce_actorKind = system, ce_reason = Some ''lot_expired''\<rparr>)
       (expireRows organizationId rows (expiredLotIds @ [cl_id row]) (writtenOff + remaining))))"

definition expireDueLotsInTx :: "string \<Rightarrow> int \<Rightarrow> string list ledger_tx" where
  "expireDueLotsInTx organizationId now =
     tx_bind (tx_get (\<lambda>db. filter (\<lambda>l. cl_organizationId l = organizationId \<and>
        cl_status l = Known Active \<and> cl_expiresAt l \<le> now) (lots db))) (\<lambda>rows.
       if rows = [] then tx_return []
       else tx_bind (expireRows organizationId rows [] 0) (\<lambda>(expiredLotIds, writtenOff).
              if writtenOff > 0
              then tx_then (moveCredits organizationId (- writtenOff) 0) (tx_return expiredLotIds)
              else tx_return expiredLotIds))"

text \<open>
  One release. It answers the change to the available credits: \<open>1\<close> when the lot is still
  active, \<open>0\<close> when it is closed, where a compensating \<open>expire\<close> entry balances the release.
\<close>

definition releaseReservationRow :: "ReservationRow \<Rightarrow> int \<Rightarrow> string \<Rightarrow> int ledger_tx" where
  "releaseReservationRow reservation now reason =
     tx_bind (updateLot (cr_lotId reservation)
         (\<lambda>l. l\<lparr>cl_creditsReserved := cl_creditsReserved l - 1\<rparr>)) (\<lambda>lot.
     tx_then (updateReservation (cr_id reservation)
         (\<lambda>r. r\<lparr>cr_status := Known Released, cr_resolvedAt := Some now\<rparr>))
     (tx_then (createEntry \<lparr>ce_organizationId = cr_organizationId reservation,
         ce_lotId = cr_lotId reservation, ce_type = release, ce_delta = 1,
         ce_candidateSessionId = Some (cr_candidateSessionId reservation),
         ce_stripeEventId = None, ce_actorKind = system, ce_reason = Some reason\<rparr>)
     (if cl_status lot = Known Active then tx_return 1
      else tx_then (createEntry \<lparr>ce_organizationId = cr_organizationId reservation,
             ce_lotId = cr_lotId reservation, ce_type = expire, ce_delta = -1,
             ce_candidateSessionId = Some (cr_candidateSessionId reservation),
             ce_stripeEventId = None, ce_actorKind = system,
             ce_reason = Some ''released_into_closed_lot''\<rparr>)
           (tx_return 0))))"

fun releaseRows :: "ReservationRow list \<Rightarrow> int \<Rightarrow> int \<Rightarrow> int ledger_tx" where
  "releaseRows [] now availableDelta = tx_return availableDelta"
| "releaseRows (reservation # due) now availableDelta =
     tx_bind (releaseReservationRow reservation now ''reservation_ttl_expired'') (\<lambda>d.
       releaseRows due now (availableDelta + d))"

definition releaseExpiredReservationsInTx :: "string \<Rightarrow> int \<Rightarrow> int ledger_tx" where
  "releaseExpiredReservationsInTx organizationId now =
     tx_bind (tx_get (\<lambda>db. filter (\<lambda>r. cr_organizationId r = organizationId \<and>
        cr_status r = Known Held \<and> cr_expiresAt r \<le> now) (reservations db))) (\<lambda>due.
       if due = [] then tx_return 0
       else tx_bind (releaseRows due now 0) (\<lambda>availableDelta.
              tx_then (moveCredits organizationId availableDelta (- int (length due)))
              (tx_return (int (length due)))))"

section \<open>Disputes and refunds\<close>

definition adjustmentEntry ::
  "LotRow \<Rightarrow> entry_type \<Rightarrow> int \<Rightarrow> string option \<Rightarrow> string \<Rightarrow> LedgerEntry" where
  "adjustmentEntry lot ty delta stripeEventId reason =
     \<lparr>ce_organizationId = cl_organizationId lot, ce_lotId = cl_id lot, ce_type = ty,
      ce_delta = delta, ce_candidateSessionId = None, ce_stripeEventId = stripeEventId,
      ce_actorKind = stripe_webhook, ce_reason = Some reason\<rparr>"

text \<open>The lot is found by its payment outside the lock and re-read by id under it.\<close>

definition lockedLotTx :: "string \<Rightarrow> (LotRow \<Rightarrow> 'a ledger_tx) \<Rightarrow> 'a ledger_tx" where
  "lockedLotTx lotId work = tx_bind (or_throw (findLot lotId)) work"

definition withLockedLotForPayment ::
  "faults \<Rightarrow> string \<Rightarrow> (LotRow \<Rightarrow> CreditLotAdjustmentResult ledger_tx) \<Rightarrow> credit_db \<Rightarrow>
   (ledger_error + CreditLotAdjustmentResult) \<times> credit_db" where
  "withLockedLotForPayment flt stripePaymentIntentId work db =
     (case findLotByPayment stripePaymentIntentId db of
        None \<Rightarrow> (Inr NoLot, db)
      | Some located \<Rightarrow>
          runInWalletTransaction flt (cl_organizationId located)
            (lockedLotTx (cl_id located) work) db)"

definition freezeLotTx :: "string option \<Rightarrow> int \<Rightarrow> LotRow \<Rightarrow> CreditLotAdjustmentResult ledger_tx" where
  "freezeLotTx stripeEventId now lot =
     (if cl_status lot = Known Exhausted
      then tx_return (NeedsAdmin (cl_organizationId lot) (cl_id lot) ''dispute_after_consumption'')
      else if cl_status lot \<noteq> Known Active
      then tx_return (AlreadyApplied (cl_organizationId lot) (cl_id lot) (cl_status lot))
      else tx_bind (tx_lift (toLotSnapshot lot)) (\<lambda>snapshot.
        let frozenCredits = availableInLot snapshot in
        tx_then (updateLot (cl_id lot)
            (\<lambda>l. l\<lparr>cl_status := Known Frozen, cl_frozenAt := Some now\<rparr>))
        (tx_then (createEntry (adjustmentEntry lot dispute_freeze (- frozenCredits) stripeEventId
            ''dispute_created''))
        (tx_then (moveCredits (cl_organizationId lot) (- frozenCredits) 0)
        (tx_return (Applied (cl_organizationId lot) (cl_id lot) frozenCredits))))))"

definition freezeLotForDispute ::
  "faults \<Rightarrow> string \<Rightarrow> string option \<Rightarrow> int \<Rightarrow> credit_db \<Rightarrow>
   (ledger_error + CreditLotAdjustmentResult) \<times> credit_db" where
  "freezeLotForDispute flt stripePaymentIntentId stripeEventId now =
     withLockedLotForPayment flt stripePaymentIntentId (freezeLotTx stripeEventId now)"

datatype disposition = Won | Lost

definition resolveDisputeTx ::
  "disposition \<Rightarrow> string option \<Rightarrow> int \<Rightarrow> LotRow \<Rightarrow> CreditLotAdjustmentResult ledger_tx" where
  "resolveDisputeTx disposition stripeEventId now lot =
     (if cl_status lot \<noteq> Known Frozen
      then tx_return (AlreadyApplied (cl_organizationId lot) (cl_id lot) (cl_status lot))
      else if disposition = Lost
      then tx_then (updateLot (cl_id lot) (\<lambda>l. l\<lparr>cl_status := Known Revoked\<rparr>))
             (tx_return (Applied (cl_organizationId lot) (cl_id lot) 0))
      else tx_bind (tx_lift (toLotSnapshot lot)) (\<lambda>snapshot.
        let restoredCredits = availableInLot snapshot in
        tx_then (updateLot (cl_id lot) (\<lambda>l. l\<lparr>cl_status := Known Active\<rparr>))
        (tx_then (createEntry (adjustmentEntry lot dispute_release restoredCredits stripeEventId
            ''dispute_won''))
        (tx_then (moveCredits (cl_organizationId lot) restoredCredits 0)
        (tx_then (expireDueLotsInTx (cl_organizationId lot) now)
        (tx_return (Applied (cl_organizationId lot) (cl_id lot) restoredCredits)))))))"

definition resolveDisputeOnLot ::
  "faults \<Rightarrow> string \<Rightarrow> disposition \<Rightarrow> string option \<Rightarrow> int \<Rightarrow> credit_db \<Rightarrow>
   (ledger_error + CreditLotAdjustmentResult) \<times> credit_db" where
  "resolveDisputeOnLot flt stripePaymentIntentId disposition stripeEventId now =
     withLockedLotForPayment flt stripePaymentIntentId
       (resolveDisputeTx disposition stripeEventId now)"

text \<open>
  The prorata gate. Prices are exact rationals; the source divides in binary floating
  point. \<open>Math.round\<close> rounds halves up.
\<close>

definition js_round :: "rat \<Rightarrow> int" where
  "js_round x = \<lfloor>x + 1 / 2\<rfloor>"

definition matchesUnconsumedProrata :: "int option \<Rightarrow> int \<Rightarrow> int \<Rightarrow> int \<Rightarrow> bool" where
  "matchesUnconsumedProrata unitAmountCents granted revocable refundedAmountCents =
     (case unitAmountCents of
        None \<Rightarrow> False
      | Some unitAmount \<Rightarrow>
          if unitAmount \<le> 0 \<or> granted \<le> 0 then False
          else if revocable \<le> 0 then False
          else
            let unitPriceCents = (of_int unitAmount :: rat) / of_int granted in
            if \<bar>of_int refundedAmountCents - of_int revocable * unitPriceCents\<bar> > 1 then False
            else js_round (of_int refundedAmountCents / unitPriceCents) = revocable)"

definition revokeLotTx ::
  "int \<Rightarrow> int \<Rightarrow> string option \<Rightarrow> LotRow \<Rightarrow> CreditLotAdjustmentResult ledger_tx" where
  "revokeLotTx refundedAmountCents chargeAmountCents stripeEventId lot =
     (let parked = (\<lambda>reason. tx_return (NeedsAdmin (cl_organizationId lot) (cl_id lot) reason));
          full = (refundedAmountCents \<ge> chargeAmountCents) in
      if cl_status lot = Known Exhausted then parked ''full_refund_after_consumption''
      else if cl_status lot \<noteq> Known Active
      then tx_return (AlreadyApplied (cl_organizationId lot) (cl_id lot) (cl_status lot))
      else tx_bind (tx_lift (toLotSnapshot lot)) (\<lambda>snapshot.
        let revocable = availableInLot snapshot in
        if full \<and> cl_creditsConsumed lot > 0 then parked ''full_refund_after_consumption''
        else if \<not> full \<and> \<not> matchesUnconsumedProrata (cl_unitAmountCents lot)
                  (cl_creditsGranted lot) revocable refundedAmountCents
        then parked ''partial_refund_not_prorata''
        else
          tx_then (updateLot (cl_id lot) (\<lambda>l. l\<lparr>cl_status := Known Revoked\<rparr>))
          (tx_then (createEntry (adjustmentEntry lot refund_reversal (- revocable) stripeEventId
              (if full then ''refund_full'' else ''refund_prorata'')))
          (tx_then (moveCredits (cl_organizationId lot) (- revocable) 0)
          (tx_return (Applied (cl_organizationId lot) (cl_id lot) revocable))))))"

definition revokeUnconsumedLot ::
  "faults \<Rightarrow> string \<Rightarrow> int \<Rightarrow> int \<Rightarrow> string option \<Rightarrow> credit_db \<Rightarrow>
   (ledger_error + CreditLotAdjustmentResult) \<times> credit_db" where
  "revokeUnconsumedLot flt stripePaymentIntentId refundedAmountCents chargeAmountCents
       stripeEventId =
     withLockedLotForPayment flt stripePaymentIntentId
       (revokeLotTx refundedAmountCents chargeAmountCents stripeEventId)"

section \<open>Reservations\<close>

definition holdCreditTx ::
  "string \<Rightarrow> string \<Rightarrow> string \<Rightarrow> int \<Rightarrow> ReservationRow option \<Rightarrow> string \<Rightarrow> ReserveCreditResult ledger_tx" where
  "holdCreditTx reservationId organizationId candidateSessionId now existing lotId =
     tx_then (updateLot lotId (\<lambda>l. l\<lparr>cl_creditsReserved := cl_creditsReserved l + 1\<rparr>))
     (let heldUntil = now + RESERVATION_TTL_HOURS * HOUR_MS in
      tx_bind
        (case existing of
           Some e \<Rightarrow> updateReservation (cr_id e) (\<lambda>r. r\<lparr>cr_lotId := lotId,
               cr_status := Known Held, cr_heldAt := now, cr_expiresAt := heldUntil,
               cr_resolvedAt := None\<rparr>)
         | None \<Rightarrow> createReservation \<lparr>cr_id = reservationId, cr_organizationId = organizationId,
               cr_candidateSessionId = candidateSessionId, cr_lotId = lotId,
               cr_status = Known Held, cr_heldAt = now, cr_expiresAt = heldUntil,
               cr_resolvedAt = None\<rparr>) (\<lambda>reservation.
      tx_then (createEntry \<lparr>ce_organizationId = organizationId, ce_lotId = lotId,
          ce_type = reserve, ce_delta = -1, ce_candidateSessionId = Some candidateSessionId,
          ce_stripeEventId = None, ce_actorKind = system, ce_reason = None\<rparr>)
      (tx_then (moveCredits organizationId (-1) 1)
      (tx_return (ReserveOk (cr_id reservation))))))"

definition reserveTx ::
  "string \<Rightarrow> string \<Rightarrow> string \<Rightarrow> int \<Rightarrow> ReserveCreditResult ledger_tx" where
  "reserveTx reservationId organizationId candidateSessionId now =
     tx_bind (tx_get (findReservation candidateSessionId)) (\<lambda>existing.
       let acquire =
         tx_then (releaseExpiredReservationsInTx organizationId now)
         (tx_then (expireDueLotsInTx organizationId now)
         (tx_bind (loadLots organizationId) (\<lambda>snapshots.
            case selectLotForReservation snapshots now of
              None \<Rightarrow> tx_return NoCreditsAvailable
            | Some lot \<Rightarrow> holdCreditTx reservationId organizationId candidateSessionId now
                existing (lot_id lot))))
       in case existing of
         None \<Rightarrow> acquire
       | Some e \<Rightarrow>
           if cr_organizationId e \<noteq> organizationId
           then tx_throw (CreditReservationOrganizationMismatchError (cr_id e) candidateSessionId)
           else if cr_status e = Known Captured then tx_return (ReserveOk (cr_id e))
           else if cr_status e = Known Held
           then tx_then (updateReservation (cr_id e)
                  (\<lambda>r. r\<lparr>cr_expiresAt := now + RESERVATION_TTL_HOURS * HOUR_MS\<rparr>))
                (tx_return (ReserveOk (cr_id e)))
           else acquire)"

definition reserveCreditForSession ::
  "faults \<times> faults \<Rightarrow> fresh_ids \<Rightarrow> string \<Rightarrow> string \<Rightarrow> int \<Rightarrow> credit_db \<Rightarrow>
   (ledger_error + ReserveCreditResult) \<times> credit_db" where
  "reserveCreditForSession flt ids organizationId candidateSessionId now db =
     (case ensureWallet (fst flt) ids organizationId now None db of
        (Inl e, db1) \<Rightarrow> (Inl e, db1)
      | (Inr _, db1) \<Rightarrow>
          runInWalletTransaction (snd flt) organizationId
            (reserveTx (fresh_reservationId ids) organizationId candidateSessionId now) db1)"

definition captureTx :: "string \<Rightarrow> string \<Rightarrow> int \<Rightarrow> CaptureReservationResult ledger_tx" where
  "captureTx organizationId candidateSessionId now =
     tx_bind (tx_get (findReservation candidateSessionId)) (\<lambda>reservation.
       case reservation of
         None \<Rightarrow> tx_return CaptureNoReservation
       | Some r \<Rightarrow>
           if cr_organizationId r \<noteq> organizationId then tx_return CaptureNoReservation
           else if cr_status r = Known Captured then tx_return AlreadyCaptured
           else if cr_status r \<noteq> Known Held then tx_return CaptureNoReservation
           else
             tx_bind (updateLot (cr_lotId r) (\<lambda>l. l\<lparr>cl_creditsReserved := cl_creditsReserved l - 1,
                 cl_creditsConsumed := cl_creditsConsumed l + 1\<rparr>)) (\<lambda>updatedLot.
             tx_then (if cl_status updatedLot = Known Active \<and>
                         cl_creditsConsumed updatedLot \<ge> cl_creditsGranted updatedLot
                      then tx_then (updateLot (cl_id updatedLot)
                             (\<lambda>l. l\<lparr>cl_status := Known Exhausted\<rparr>)) (tx_return ())
                      else tx_return ())
             (tx_then (updateReservation (cr_id r)
                 (\<lambda>x. x\<lparr>cr_status := Known Captured, cr_resolvedAt := Some now\<rparr>))
             (tx_then (createEntry \<lparr>ce_organizationId = organizationId, ce_lotId = cr_lotId r,
                 ce_type = consume, ce_delta = 0, ce_candidateSessionId = Some candidateSessionId,
                 ce_stripeEventId = None, ce_actorKind = system, ce_reason = None\<rparr>)
             (tx_then (moveCredits organizationId 0 (-1))
             (tx_return CaptureDone))))))"

definition captureReservationForSession ::
  "faults \<Rightarrow> string \<Rightarrow> string \<Rightarrow> int \<Rightarrow> credit_db \<Rightarrow>
   (ledger_error + CaptureReservationResult) \<times> credit_db" where
  "captureReservationForSession flt organizationId candidateSessionId now =
     runInWalletTransaction flt organizationId (captureTx organizationId candidateSessionId now)"

definition releaseTx ::
  "string \<Rightarrow> string \<Rightarrow> int \<Rightarrow> string \<Rightarrow> ReleaseReservationResult ledger_tx" where
  "releaseTx organizationId candidateSessionId now reason =
     tx_bind (tx_get (findReservation candidateSessionId)) (\<lambda>reservation.
       case reservation of
         None \<Rightarrow> tx_return ReleaseNoReservation
       | Some r \<Rightarrow>
           if cr_organizationId r \<noteq> organizationId then tx_return ReleaseNoReservation
           else if cr_status r \<noteq> Known Held then tx_return AlreadyResolved
           else
             tx_bind (releaseReservationRow r now reason) (\<lambda>availableDelta.
             tx_then (moveCredits organizationId availableDelta (-1))
             (tx_then (expireDueLotsInTx organizationId now)
             (tx_return ReleaseDone))))"

definition releaseReservationForSession ::
  "faults \<Rightarrow> string \<Rightarrow> string \<Rightarrow> int \<Rightarrow> string \<Rightarrow> credit_db \<Rightarrow>
   (ledger_error + ReleaseReservationResult) \<times> credit_db" where
  "releaseReservationForSession flt organizationId candidateSessionId now reason =
     runInWalletTransaction flt organizationId
       (releaseTx organizationId candidateSessionId now reason)"

definition releaseExpiredTx :: "string \<Rightarrow> int \<Rightarrow> int ledger_tx" where
  "releaseExpiredTx organizationId now =
     tx_bind (releaseExpiredReservationsInTx organizationId now) (\<lambda>result.
     tx_then (expireDueLotsInTx organizationId now) (tx_return result))"

definition releaseExpiredReservations ::
  "faults \<Rightarrow> string \<Rightarrow> int \<Rightarrow> credit_db \<Rightarrow> (ledger_error + int) \<times> credit_db" where
  "releaseExpiredReservations flt organizationId now =
     runInWalletTransaction flt organizationId (releaseExpiredTx organizationId now)"

definition expireDueLots ::
  "faults \<Rightarrow> string \<Rightarrow> int \<Rightarrow> credit_db \<Rightarrow> (ledger_error + string list) \<times> credit_db" where
  "expireDueLots flt organizationId now =
     runInWalletTransaction flt organizationId (expireDueLotsInTx organizationId now)"

section \<open>The audit\<close>

record WalletReconciliation =
  rec_consistent :: bool
  rec_expected :: "int \<times> int"   \<comment> \<open>available, reserved\<close>
  rec_actual :: "int \<times> int"

definition ledgerSum :: "string \<Rightarrow> credit_db \<Rightarrow> int" where
  "ledgerSum organizationId db =
     sum_by ce_delta (filter (\<lambda>e. ce_organizationId e = organizationId) (entries db))"

definition reconcileTx :: "string \<Rightarrow> int \<Rightarrow> WalletReconciliation ledger_tx" where
  "reconcileTx organizationId now =
     tx_bind (or_throw (findWallet organizationId)) (\<lambda>wallet.
     tx_bind (tx_get (\<lambda>db. filter (\<lambda>l. cl_organizationId l = organizationId) (lots db))) (\<lambda>lotRows.
     tx_bind (tx_get (ledgerSum organizationId)) (\<lambda>ledgerDelta.
     tx_bind (tx_lift (traverse toLotSnapshot lotRows)) (\<lambda>snapshots.
       let totals = computeWalletTotals snapshots now;
           expected = (tot_available totals, tot_reserved totals);
           actual = (cw_availableCredits wallet, cw_reservedCredits wallet)
       in tx_return \<lparr>rec_consistent = (fst expected = fst actual \<and> snd expected = snd actual \<and>
                        ledgerDelta = fst actual),
                     rec_expected = expected, rec_actual = actual\<rparr>))))"

definition reconcileWallet ::
  "faults \<Rightarrow> string \<Rightarrow> int \<Rightarrow> credit_db \<Rightarrow> (ledger_error + WalletReconciliation) \<times> credit_db" where
  "reconcileWallet flt organizationId now =
     runInWalletTransaction flt organizationId (reconcileTx organizationId now)"

end
