(* ===== verification/LedgerInv.thy ===== *)
theory LedgerInv
  imports Ledger
begin

text \<open>
  The ledger invariant and the two lemmas every operation is proved with: one for "a lot
  changes, with the entry that explains it", one for the wallet counters that follow. In
  between, a wallet is off by a known amount, which \<open>inv_off\<close> records.
\<close>

section \<open>The invariant\<close>

definition is_held :: "ReservationRow \<Rightarrow> bool" where
  "is_held r \<longleftrightarrow> cr_status r = Known Held"

definition holds :: "string \<Rightarrow> ReservationRow list \<Rightarrow> int" where
  "holds lotId rs = sum_by (\<lambda>r. if cr_lotId r = lotId \<and> is_held r then 1 else 0) rs"

definition captures :: "string \<Rightarrow> ReservationRow list \<Rightarrow> int" where
  "captures lotId rs =
     sum_by (\<lambda>r. if cr_lotId r = lotId \<and> cr_status r = Known Captured then 1 else 0) rs"

definition lotAvailable :: "LotRow \<Rightarrow> int" where
  "lotAvailable l = cl_creditsGranted l - cl_creditsConsumed l - cl_creditsReserved l"

definition activeAvailable :: "string \<Rightarrow> LotRow \<Rightarrow> int" where
  "activeAvailable org l =
     (if cl_organizationId l = org \<and> cl_status l = Known Active then lotAvailable l else 0)"

definition reservedOf :: "string \<Rightarrow> LotRow \<Rightarrow> int" where
  "reservedOf org l = (if cl_organizationId l = org then cl_creditsReserved l else 0)"

definition deltaOf :: "string \<Rightarrow> LedgerEntry \<Rightarrow> int" where
  "deltaOf org e = (if ce_organizationId e = org then ce_delta e else 0)"

text \<open>The counters of a lot are non-negative, never exceed the grant, and an exhausted lot
  was consumed to the last credit. In \<open>lots_ok\<close>, every reserved credit is a live hold and every
  consumed credit a captured one.\<close>

definition lot_ok :: "LotRow \<Rightarrow> bool" where
  "lot_ok l \<longleftrightarrow> 0 \<le> cl_creditsConsumed l \<and> 0 \<le> cl_creditsReserved l \<and>
     cl_creditsConsumed l + cl_creditsReserved l \<le> cl_creditsGranted l \<and>
     (cl_kind l = Known Free \<or> cl_kind l = Known Paid) \<and>
     (cl_status l = Known Exhausted \<longrightarrow> cl_creditsConsumed l = cl_creditsGranted l)"

definition payments_unique :: "LotRow list \<Rightarrow> bool" where
  "payments_unique ls \<longleftrightarrow> (\<forall>l\<in>set ls. \<forall>m\<in>set ls. cl_stripePaymentIntentId l \<noteq> None \<longrightarrow>
     cl_stripePaymentIntentId l = cl_stripePaymentIntentId m \<longrightarrow> cl_id l = cl_id m)"

definition keys_ok :: "credit_db \<Rightarrow> bool" where
  "keys_ok db \<longleftrightarrow> distinct (map cw_organizationId (wallets db)) \<and>
     distinct (map cl_id (lots db)) \<and> distinct (map cr_id (reservations db)) \<and>
     distinct (map cr_candidateSessionId (reservations db)) \<and>
     payments_unique (lots db)"

definition refs_ok :: "credit_db \<Rightarrow> bool" where
  "refs_ok db \<longleftrightarrow>
     (\<forall>l\<in>set (lots db). cl_organizationId l \<in> cw_organizationId ` set (wallets db)) \<and>
     (\<forall>e\<in>set (entries db). ce_organizationId e \<in> cw_organizationId ` set (wallets db)) \<and>
     (\<forall>r\<in>set (reservations db). \<exists>l\<in>set (lots db).
        cl_id l = cr_lotId r \<and> cl_organizationId l = cr_organizationId r)"

definition lots_ok :: "credit_db \<Rightarrow> bool" where
  "lots_ok db \<longleftrightarrow> (\<forall>l\<in>set (lots db). lot_ok l \<and>
     cl_creditsReserved l = holds (cl_id l) (reservations db) \<and>
     cl_creditsConsumed l = captures (cl_id l) (reservations db))"

text \<open>Once a wallet is locked to a currency, every paid lot of its organization is in it.\<close>

definition currency_ok :: "credit_db \<Rightarrow> bool" where
  "currency_ok db \<longleftrightarrow> (\<forall>w\<in>set (wallets db). \<forall>l\<in>set (lots db).
     cw_settlementCurrency w \<noteq> None \<longrightarrow> cl_organizationId l = cw_organizationId w \<longrightarrow>
     cl_kind l = Known Paid \<longrightarrow> cw_settlementCurrency w = Some (cl_currency l))"

definition wf :: "credit_db \<Rightarrow> bool" where
  "wf db \<longleftrightarrow> keys_ok db \<and> refs_ok db \<and> lots_ok db \<and> currency_ok db"

text \<open>
  The money equations of one wallet, with a pending change \<open>a\<close> of its available and \<open>r\<close>
  of its reserved counter.
\<close>

definition wallet_balanced :: "credit_db \<Rightarrow> CreditWallet \<Rightarrow> int \<Rightarrow> int \<Rightarrow> bool" where
  "wallet_balanced db w a r \<longleftrightarrow>
     cw_availableCredits w + a = sum_by (activeAvailable (cw_organizationId w)) (lots db) \<and>
     cw_availableCredits w + a = sum_by (deltaOf (cw_organizationId w)) (entries db) \<and>
     cw_reservedCredits w + r = sum_by (reservedOf (cw_organizationId w)) (lots db)"

definition inv_off :: "string \<Rightarrow> int \<Rightarrow> int \<Rightarrow> credit_db \<Rightarrow> bool" where
  "inv_off org a r db \<longleftrightarrow> wf db \<and> (\<forall>w\<in>set (wallets db).
     wallet_balanced db w (if cw_organizationId w = org then a else 0)
                          (if cw_organizationId w = org then r else 0))"

definition ledger_inv :: "credit_db \<Rightarrow> bool" where
  "ledger_inv db \<longleftrightarrow> wf db \<and> (\<forall>w\<in>set (wallets db). wallet_balanced db w 0 0)"

lemma inv_off_0: "inv_off org 0 0 db = ledger_inv db"
  by (simp add: inv_off_def ledger_inv_def)

lemma inv_off_wf: "inv_off org a r db \<Longrightarrow> wf db"
  by (simp add: inv_off_def)

lemma ledgerSum_deltaOf: "ledgerSum org db = sum_by (deltaOf org) (entries db)"
  unfolding ledgerSum_def sum_by_filter by (rule sum_by_cong) (simp add: deltaOf_def)

section \<open>Consequences for single rows\<close>

lemma wf_find_lot:
  assumes "wf db"
  shows "findLot k db = Some l \<longleftrightarrow> l \<in> set (lots db) \<and> cl_id l = k"
  using assms by (simp add: wf_def keys_ok_def findLot_def find_row_iff)

lemma wf_find_wallet:
  assumes "wf db"
  shows "findWallet org db = Some w \<longleftrightarrow> w \<in> set (wallets db) \<and> cw_organizationId w = org"
  using assms by (simp add: wf_def keys_ok_def findWallet_def find_row_iff)

lemma wf_find_reservation:
  assumes "wf db"
  shows "findReservation s db = Some r \<longleftrightarrow> r \<in> set (reservations db) \<and> cr_candidateSessionId r = s"
  using assms by (simp add: wf_def keys_ok_def findReservation_def find_row_iff)

lemma wf_reservation_by_id:
  "wf db \<Longrightarrow> r \<in> set (reservations db) \<Longrightarrow> find_row cr_id (cr_id r) (reservations db) = Some r"
  by (simp add: wf_def keys_ok_def find_row_mem)

lemma wf_lot_ok: "wf db \<Longrightarrow> l \<in> set (lots db) \<Longrightarrow> lot_ok l"
  by (simp add: wf_def lots_ok_def)

lemma wf_reservation_lot:
  assumes "wf db" and "r \<in> set (reservations db)"
  obtains l where "findLot (cr_lotId r) db = Some l" "cl_organizationId l = cr_organizationId r"
  using assms wf_find_lot [OF assms(1)] by (fastforce simp: wf_def refs_ok_def)

lemma wf_lot_wallet:
  assumes "wf db" and "l \<in> set (lots db)"
  obtains w where "findWallet (cl_organizationId l) db = Some w"
  using assms wf_find_wallet [OF assms(1)] by (fastforce simp: wf_def refs_ok_def)

lemma holds_nonneg: "0 \<le> holds k rs"
  unfolding holds_def by (rule sum_by_nonneg) simp

lemma holds_pos: "r \<in> set rs \<Longrightarrow> is_held r \<Longrightarrow> 1 \<le> holds (cr_lotId r) rs"
  unfolding holds_def
  using sum_by_mem_le [of rs "\<lambda>x. if cr_lotId x = cr_lotId r \<and> is_held x then 1 else 0" r] by simp

lemma held_reserved:
  assumes "wf db" and "r \<in> set (reservations db)" and "is_held r"
    and "findLot (cr_lotId r) db = Some l"
  shows "1 \<le> cl_creditsReserved l"
  using assms holds_pos [OF assms(2,3)] wf_find_lot [OF assms(1)]
  by (auto simp: wf_def lots_ok_def)

section \<open>A lot changes, with the entries that explain it\<close>

text \<open>The columns no operation on an existing lot touches.\<close>

definition keeps_identity :: "(LotRow \<Rightarrow> LotRow) \<Rightarrow> bool" where
  "keeps_identity f \<longleftrightarrow> (\<forall>l. cl_id (f l) = cl_id l \<and> cl_organizationId (f l) = cl_organizationId l \<and>
     cl_stripePaymentIntentId (f l) = cl_stripePaymentIntentId l \<and> cl_kind (f l) = cl_kind l \<and>
     cl_currency (f l) = cl_currency l)"

lemma update_row_orig:
  "keeps_identity f \<Longrightarrow> x \<in> set (update_row cl_id k f ls) \<Longrightarrow>
   \<exists>y\<in>set ls. cl_id y = cl_id x \<and> cl_organizationId y = cl_organizationId x \<and>
     cl_stripePaymentIntentId y = cl_stripePaymentIntentId x \<and> cl_kind y = cl_kind x \<and>
     cl_currency y = cl_currency x"
  by (auto simp: set_update_row keeps_identity_def)

lemma update_row_image:
  "keeps_identity f \<Longrightarrow> y \<in> set ls \<Longrightarrow>
   \<exists>x\<in>set (update_row cl_id k f ls). cl_id x = cl_id y \<and> cl_organizationId x = cl_organizationId y"
  by (auto simp: set_update_row keeps_identity_def)

lemma payments_update:
  assumes "keeps_identity f" and "payments_unique ls"
  shows "payments_unique (update_row cl_id k f ls)"
  unfolding payments_unique_def
proof (intro ballI impI)
  fix x y
  assume a: "x \<in> set (update_row cl_id k f ls)" "y \<in> set (update_row cl_id k f ls)"
    "cl_stripePaymentIntentId x \<noteq> None" "cl_stripePaymentIntentId x = cl_stripePaymentIntentId y"
  obtain x' y' where "x' \<in> set ls" "cl_id x' = cl_id x" "y' \<in> set ls" "cl_id y' = cl_id y"
    "cl_stripePaymentIntentId x' = cl_stripePaymentIntentId x"
    "cl_stripePaymentIntentId y' = cl_stripePaymentIntentId y"
    using update_row_orig [OF assms(1) a(1)] update_row_orig [OF assms(1) a(2)] by metis
  with a(3,4) assms(2) show "cl_id x = cl_id y"
    unfolding payments_unique_def by metis
qed

definition reservations_ok :: "credit_db \<Rightarrow> ReservationRow list \<Rightarrow> bool" where
  "reservations_ok db rs \<longleftrightarrow> distinct (map cr_id rs) \<and> distinct (map cr_candidateSessionId rs) \<and>
     (\<forall>r\<in>set rs. \<exists>l\<in>set (lots db). cl_id l = cr_lotId r \<and> cl_organizationId l = cr_organizationId r)"

lemma wf_reservations_ok: "wf db \<Longrightarrow> reservations_ok db (reservations db)"
  by (simp add: wf_def keys_ok_def refs_ok_def reservations_ok_def)

lemma wf_change:
  assumes wf: "wf db" and l: "findLot k db = Some l" and f: "keeps_identity f" "lot_ok (f l)"
    and rs: "reservations_ok db rs"
    and h: "\<And>j. holds j rs = holds j (reservations db) +
              (if j = k then cl_creditsReserved (f l) - cl_creditsReserved l else 0)"
    and c: "\<And>j. captures j rs = captures j (reservations db) +
              (if j = k then cl_creditsConsumed (f l) - cl_creditsConsumed l else 0)"
    and es: "\<forall>e\<in>set es. ce_organizationId e = cl_organizationId l"
  shows "wf (db\<lparr>lots := update_row cl_id k f (lots db), reservations := rs,
                entries := entries db @ es\<rparr>)"
proof -
  have lm: "l \<in> set (lots db)" "cl_id l = k"
    using l wf_find_lot [OF wf] by auto
  have only: "x = l" if "x \<in> set (lots db)" "cl_id x = k" for x
    using that l wf_find_lot [OF wf] by (metis option.inject)
  note keep = f(1) [unfolded keeps_identity_def, rule_format]
  let ?ls = "update_row cl_id k f (lots db)"
  let ?db = "db\<lparr>lots := ?ls, reservations := rs, entries := entries db @ es\<rparr>"
  have "keys_ok ?db"
    using wf rs payments_update [OF f(1)]
    by (simp add: wf_def keys_ok_def reservations_ok_def row_simps keep)
  moreover have "refs_ok ?db"
  proof -
    have "\<forall>r\<in>set rs. \<exists>x\<in>set ?ls. cl_id x = cr_lotId r \<and> cl_organizationId x = cr_organizationId r"
      using rs update_row_image [OF f(1)] unfolding reservations_ok_def by metis
    moreover have "\<forall>x\<in>set ?ls. cl_organizationId x \<in> cw_organizationId ` set (wallets db)"
      using wf update_row_orig [OF f(1)] unfolding wf_def refs_ok_def by metis
    moreover have "cl_organizationId l \<in> cw_organizationId ` set (wallets db)"
      using wf lm(1) unfolding wf_def refs_ok_def by blast
    ultimately show ?thesis using wf es by (auto simp: wf_def refs_ok_def)
  qed
  moreover have "lots_ok ?db"
    using wf f(2) h c only by (auto simp: wf_def lots_ok_def set_update_row keep dest: only)
  moreover have "currency_ok ?db"
    unfolding currency_ok_def
  proof (intro ballI impI)
    fix w x
    assume a: "w \<in> set (wallets ?db)" "x \<in> set (lots ?db)" "cw_settlementCurrency w \<noteq> None"
      "cl_organizationId x = cw_organizationId w" "cl_kind x = Known Paid"
    then obtain y where "y \<in> set (lots db)" "cl_organizationId y = cl_organizationId x"
      "cl_kind y = cl_kind x" "cl_currency y = cl_currency x"
      using update_row_orig [OF f(1)] by simp metis
    with a wf show "cw_settlementCurrency w = Some (cl_currency x)"
      by (simp add: wf_def currency_ok_def) metis
  qed
  ultimately show ?thesis by (simp add: wf_def)
qed

lemma inv_change:
  assumes inv: "inv_off org a r db" and l: "findLot k db = Some l" "cl_organizationId l = org"
    and f: "keeps_identity f" "lot_ok (f l)"
    and rs: "reservations_ok db rs"
    and h: "\<And>j. holds j rs = holds j (reservations db) +
              (if j = k then cl_creditsReserved (f l) - cl_creditsReserved l else 0)"
    and c: "\<And>j. captures j rs = captures j (reservations db) +
              (if j = k then cl_creditsConsumed (f l) - cl_creditsConsumed l else 0)"
    and es: "\<forall>e\<in>set es. ce_organizationId e = org"
    and d: "activeAvailable org (f l) - activeAvailable org l = sum_by ce_delta es"
  shows "inv_off org (a + sum_by ce_delta es) (r + cl_creditsReserved (f l) - cl_creditsReserved l)
     (db\<lparr>lots := update_row cl_id k f (lots db), reservations := rs, entries := entries db @ es\<rparr>)"
proof -
  have wf: "wf db" using inv by (rule inv_off_wf)
  have row: "find_row cl_id k (lots db) = Some l" "distinct (map cl_id (lots db))"
    using l(1) wf by (simp_all add: findLot_def wf_def keys_ok_def)
  note keep = f(1) [unfolded keeps_identity_def, rule_format]
  have org': "cl_organizationId (f l) = org" using keep l(2) by simp
  have mine: "sum_by (deltaOf org) es = sum_by ce_delta es"
    using es by (intro sum_by_cong) (simp add: deltaOf_def)
  have other: "o' \<noteq> org \<Longrightarrow> sum_by (deltaOf o') es = 0" for o'
    using es by (intro sum_by_zero) (simp add: deltaOf_def)
  have sums: "sum_by g (update_row cl_id k f (lots db)) = sum_by g (lots db) - g l + g (f l)" for g
    using row by (intro sum_by_update)
  have "wf (db\<lparr>lots := update_row cl_id k f (lots db), reservations := rs, entries := entries db @ es\<rparr>)"
    using wf l(1) f rs h c es l(2) by (intro wf_change) auto
  then show ?thesis
    using inv d mine other l(2) org'
    by (auto simp: inv_off_def wallet_balanced_def sums activeAvailable_def reservedOf_def)
qed

section \<open>The wallet counters follow\<close>

lemma wf_wallets:
  assumes "wf db" and "\<And>w. cw_organizationId (f w) = cw_organizationId w"
    and "\<And>w. cw_settlementCurrency (f w) = cw_settlementCurrency w"
  shows "wf (db\<lparr>wallets := update_row cw_organizationId org f (wallets db)\<rparr>)"
proof -
  have orgs: "map cw_organizationId (update_row cw_organizationId org f (wallets db))
      = map cw_organizationId (wallets db)"
    using assms(2) by (intro map_update_row)
  then have "cw_organizationId ` set (update_row cw_organizationId org f (wallets db))
      = cw_organizationId ` set (wallets db)"
    by (metis list.set_map)
  moreover have "currency_ok (db\<lparr>wallets := update_row cw_organizationId org f (wallets db)\<rparr>)"
    using assms by (auto simp: wf_def currency_ok_def set_update_row)
  ultimately show ?thesis
    using assms(1) orgs by (simp add: wf_def keys_ok_def refs_ok_def lots_ok_def)
qed

lemma inv_move:
  assumes "inv_off org a r db"
  shows "ledger_inv (db\<lparr>wallets := update_row cw_organizationId org
     (\<lambda>w. w\<lparr>cw_availableCredits := cw_availableCredits w + a,
             cw_reservedCredits := cw_reservedCredits w + r\<rparr>) (wallets db)\<rparr>)"
proof -
  have "wf (db\<lparr>wallets := update_row cw_organizationId org
     (\<lambda>w. w\<lparr>cw_availableCredits := cw_availableCredits w + a,
             cw_reservedCredits := cw_reservedCredits w + r\<rparr>) (wallets db)\<rparr>)"
    using assms by (intro wf_wallets) (simp_all add: inv_off_def)
  then show ?thesis
    using assms by (auto simp: ledger_inv_def inv_off_def wallet_balanced_def set_update_row)
qed

lemma moveCredits_inv: "hoare (inv_off org a r) (moveCredits org a r) (\<lambda>_. ledger_inv)"
  by (auto simp: hoare_def moveCredits_def updateWallet_Inr intro: inv_move)

section \<open>Holds under reservation updates\<close>

lemma holds_append: "holds j (rs @ [r]) = holds j rs + (if cr_lotId r = j \<and> is_held r then 1 else 0)"
  by (simp add: holds_def)

lemma holds_update:
  assumes "distinct (map cr_id rs)" and "find_row cr_id rid rs = Some x"
  shows "holds j (update_row cr_id rid f rs) = holds j rs
     - (if cr_lotId x = j \<and> is_held x then 1 else 0)
     + (if cr_lotId (f x) = j \<and> is_held (f x) then 1 else 0)"
  unfolding holds_def by (rule sum_by_update [OF assms])

lemma captures_append:
  "captures j (rs @ [r]) = captures j rs + (if cr_lotId r = j \<and> cr_status r = Known Captured then 1 else 0)"
  by (simp add: captures_def)

lemma captures_update:
  assumes "distinct (map cr_id rs)" and "find_row cr_id rid rs = Some x"
  shows "captures j (update_row cr_id rid f rs) = captures j rs
     - (if cr_lotId x = j \<and> cr_status x = Known Captured then 1 else 0)
     + (if cr_lotId (f x) = j \<and> cr_status (f x) = Known Captured then 1 else 0)"
  unfolding captures_def by (rule sum_by_update [OF assms])

lemma reservations_ok_update:
  assumes ok: "reservations_ok db rs" and x: "find_row cr_id rid rs = Some x"
    and f: "\<And>r. cr_id (f r) = cr_id r \<and> cr_candidateSessionId (f r) = cr_candidateSessionId r \<and>
          cr_organizationId (f r) = cr_organizationId r"
    and l: "l \<in> set (lots db)" "cl_id l = cr_lotId (f x)" "cl_organizationId l = cr_organizationId x"
  shows "reservations_ok db (update_row cr_id rid f rs)"
proof -
  have "\<forall>r\<in>set (update_row cr_id rid f rs). \<exists>l\<in>set (lots db).
      cl_id l = cr_lotId r \<and> cl_organizationId l = cr_organizationId r"
  proof
    fix r
    assume "r \<in> set (update_row cr_id rid f rs)"
    then obtain y where y: "y \<in> set rs" "r = (if cr_id y = rid then f y else y)"
      by (auto simp: set_update_row)
    show "\<exists>l\<in>set (lots db). cl_id l = cr_lotId r \<and> cl_organizationId l = cr_organizationId r"
    proof (cases "cr_id y = rid")
      case True
      have "distinct (map cr_id rs)" using ok by (simp add: reservations_ok_def)
      then have "y = x" using y(1) True x by (metis find_row_mem option.inject)
      with y True l f show ?thesis by auto
    next
      case False
      with y ok show ?thesis by (auto simp: reservations_ok_def)
    qed
  qed
  with ok f show ?thesis by (simp add: reservations_ok_def row_simps)
qed

lemma update_row_twice:
  "(\<And>x. key (f x) = key x) \<Longrightarrow>
   update_row key k g (update_row key k f rs) = update_row key k (\<lambda>x. g (f x)) rs"
  by (simp add: update_row_def)

section \<open>Snapshots of rows\<close>

lemma snapshot_Inr:
  "toLotSnapshot row = Inr snapshot \<Longrightarrow> availableInLot snapshot = lotAvailable row \<and>
     lot_id snapshot = cl_id row \<and> lot_status snapshot = toLotStatus (cl_status row) \<and>
     creditsReserved snapshot = cl_creditsReserved row \<and> expiresAt snapshot = cl_expiresAt row \<and>
     creditsConsumed snapshot = cl_creditsConsumed row"
  by (auto simp: toLotSnapshot_def availableInLot_def lotAvailable_def split: sum.splits)

text \<open>A lot with a known kind has a snapshot: the conversion of a sound table never throws.\<close>

definition snapshot_of :: "LotRow \<Rightarrow> CreditLotSnapshot" where
  "snapshot_of row = (case toLotSnapshot row of Inr s \<Rightarrow> s)"

lemma snapshot_total: "lot_ok row \<Longrightarrow> toLotSnapshot row = Inr (snapshot_of row)"
  by (auto simp: lot_ok_def toLotSnapshot_def toLotKind_def snapshot_of_def split: column.splits)

lemma toLotStatus_Active: "toLotStatus v = Active \<longleftrightarrow> v = Known Active"
  by (auto simp: toLotStatus_def split: column.splits)

section \<open>Writing off due lots\<close>

abbreviation due_row :: "string \<Rightarrow> credit_db \<Rightarrow> LotRow \<Rightarrow> bool" where
  "due_row org db row \<equiv> row \<in> set (lots db) \<and> cl_organizationId row = org \<and>
     cl_status row = Known Active"

lemma expire_row_inv:
  assumes "inv_off org a r db" and "due_row org db row"
    and e: "ce_organizationId e = org" "ce_delta e = - lotAvailable row"
  shows "inv_off org (a - lotAvailable row) r
    (db\<lparr>lots := update_row cl_id (cl_id row) (\<lambda>l. l\<lparr>cl_status := Known Expired\<rparr>) (lots db),
        entries := entries db @ [e]\<rparr>)"
proof -
  have wf: "wf db" using assms(1) by (rule inv_off_wf)
  have "findLot (cl_id row) db = Some row" "lot_ok row"
    using assms(2) wf_find_lot [OF wf] wf_lot_ok [OF wf] by auto
  then have "inv_off org (a + sum_by ce_delta [e]) (r + cl_creditsReserved row - cl_creditsReserved row)
     (db\<lparr>lots := update_row cl_id (cl_id row) (\<lambda>l. l\<lparr>cl_status := Known Expired\<rparr>) (lots db),
         reservations := reservations db, entries := entries db @ [e]\<rparr>)"
    using assms wf_reservations_ok [OF wf]
    by (intro inv_change [where f = "\<lambda>l. l\<lparr>cl_status := Known Expired\<rparr>", simplified])
       (auto simp: keeps_identity_def lot_ok_def activeAvailable_def lotAvailable_def)
  then show ?thesis using e by simp
qed

end
