(* ===== verification/LedgerPreserve.thy ===== *)
theory LedgerPreserve
  imports LedgerInv
begin

text \<open>
  Every transaction of the ledger preserves the invariant. The loops carry the pending
  wallet change in \<open>inv_off\<close>; everything else is an instance of \<open>inv_change\<close> followed by
  \<open>inv_move\<close>.
\<close>

section \<open>Expiry\<close>

lemma expireRows_inv:
  "hoare (\<lambda>db. inv_off org a r db \<and> distinct (map cl_id rows) \<and> (\<forall>row\<in>set rows. due_row org db row) \<and>
            reservations db = rs)
     (expireRows org rows ids w)
     (\<lambda>(ids', w') db. inv_off org (a - (w' - w)) r db \<and> w \<le> w' \<and>
            w' = w + sum_by lotAvailable rows \<and> ids' = ids @ map cl_id rows \<and> reservations db = rs)"
proof (induction rows arbitrary: a ids w)
  case Nil
  then show ?case by (auto simp: hoare_def tx_Inr)
next
  case (Cons row rows)
  show ?case
  proof (rule hoareI, clarify)
    fix db ids' w' db'
    assume inv: "inv_off org a r db" and dist: "distinct (map cl_id (row # rows))"
      and due: "\<forall>x\<in>set (row # rows). due_row org db x" and rs: "rs = reservations db"
      and run: "expireRows org (row # rows) ids w db = Inr ((ids', w'), db')"
    define f :: "LotRow \<Rightarrow> LotRow" where "f = (\<lambda>l. l\<lparr>cl_status := Known Expired\<rparr>)"
    define e where "e = \<lparr>ce_organizationId = org, ce_lotId = cl_id row, ce_type = expire,
        ce_delta = - lotAvailable row, ce_candidateSessionId = None, ce_stripeEventId = None,
        ce_actorKind = system, ce_reason = Some ''lot_expired''\<rparr>"
    have rest: "expireRows org rows (ids @ [cl_id row]) (w + lotAvailable row)
        (db\<lparr>lots := update_row cl_id (cl_id row) f (lots db), entries := entries db @ [e]\<rparr>)
        = Inr ((ids', w'), db')"
      using run by (auto simp: tx_Inr db_Inr Let_def f_def e_def dest!: snapshot_Inr)
    have ok: "lot_ok row"
      using inv due by (auto intro: wf_lot_ok dest: inv_off_wf)
    have "inv_off org (a - lotAvailable row) r
        (db\<lparr>lots := update_row cl_id (cl_id row) f (lots db), entries := entries db @ [e]\<rparr>)"
      unfolding f_def using inv due by (intro expire_row_inv) (auto simp: e_def)
    moreover have "\<forall>x\<in>set rows. due_row org
        (db\<lparr>lots := update_row cl_id (cl_id row) f (lots db), entries := entries db @ [e]\<rparr>) x"
    proof
      fix x
      assume "x \<in> set rows"
      then have "cl_id x \<in> cl_id ` set rows" "due_row org db x" using due by auto
      moreover have "cl_id row \<notin> cl_id ` set rows" using dist by simp
      ultimately have "cl_id x \<noteq> cl_id row" "due_row org db x" by metis+
      then show "due_row org (db\<lparr>lots := update_row cl_id (cl_id row) f (lots db),
          entries := entries db @ [e]\<rparr>) x"
        by (simp add: mem_update_row_other)
    qed
    ultimately have pre: "inv_off org (a - lotAvailable row) r
        (db\<lparr>lots := update_row cl_id (cl_id row) f (lots db), entries := entries db @ [e]\<rparr>) \<and>
        distinct (map cl_id rows) \<and> (\<forall>x\<in>set rows. due_row org
          (db\<lparr>lots := update_row cl_id (cl_id row) f (lots db), entries := entries db @ [e]\<rparr>) x) \<and>
        reservations (db\<lparr>lots := update_row cl_id (cl_id row) f (lots db),
          entries := entries db @ [e]\<rparr>) = rs"
      using dist rs by simp
    note post = hoareD [OF Cons.IH pre rest, unfolded prod.case]
    have "0 \<le> lotAvailable row" using ok by (simp add: lot_ok_def lotAvailable_def)
    moreover have "a - lotAvailable row - (w' - (w + lotAvailable row)) = a - (w' - w)" by simp
    ultimately show "inv_off org (a - (w' - w)) r db' \<and> w \<le> w' \<and>
        w' = w + sum_by lotAvailable (row # rows) \<and> ids' = ids @ map cl_id (row # rows) \<and>
        reservations db' = reservations db"
      using post rs by (metis add.assoc append.assoc append_Cons append_Nil
          list.simps(9) sum_by_Cons order_trans le_add_same_cancel1)
  qed
qed

lemma moveCredits_inv':
  "hoare (\<lambda>db. inv_off org a r db \<and> reservations db = rs) (moveCredits org a r)
     (\<lambda>_ db. ledger_inv db \<and> reservations db = rs)"
  by (auto simp: hoare_def moveCredits_def updateWallet_Inr intro: inv_move)

lemma expireDueLotsInTx_inv:
  "hoare (\<lambda>db. ledger_inv db \<and> reservations db = rs) (expireDueLotsInTx org now)
     (\<lambda>_ db. ledger_inv db \<and> reservations db = rs)"
proof (rule hoareI, clarify)
  fix db ids db'
  assume inv: "ledger_inv db" and rs: "rs = reservations db"
    and run: "expireDueLotsInTx org now db = Inr (ids, db')"
  define rows where "rows = filter (\<lambda>l. cl_organizationId l = org \<and> cl_status l = Known Active \<and>
      cl_expiresAt l \<le> now) (lots db)"
  show "ledger_inv db' \<and> reservations db' = reservations db"
  proof (cases "rows = []")
    case True
    with run inv show ?thesis
      by (simp add: expireDueLotsInTx_def tx_Inr flip: rows_def)
  next
    case False
    then obtain ids' w db1 where rowsrun: "expireRows org rows [] 0 db = Inr ((ids', w), db1)"
      and rest: "if w > 0 then \<exists>u. moveCredits org (- w) 0 db1 = Inr (u, db') else db' = db1"
      using run by (auto simp: expireDueLotsInTx_def tx_Inr split: if_splits simp flip: rows_def)
    have "inv_off org 0 0 db \<and> distinct (map cl_id rows) \<and> (\<forall>row\<in>set rows. due_row org db row) \<and>
        reservations db = rs"
      using inv rs by (auto simp: inv_off_0 rows_def ledger_inv_def wf_def keys_ok_def
          distinct_map inj_on_subset)
    then have "inv_off org (- w) 0 db1" "0 \<le> w" "reservations db1 = rs"
      using hoareD [OF expireRows_inv [of org 0 0 rows rs "[]" 0] _ rowsrun] by auto
    note db1 = this
    show ?thesis
    proof (cases "w > 0")
      case True
      then obtain u where "moveCredits org (- w) 0 db1 = Inr (u, db')" using rest by auto
      then have "ledger_inv db' \<and> reservations db' = rs"
        by (rule hoareD [OF moveCredits_inv', rotated]) (use db1 in simp)
      with rs show ?thesis by simp
    next
      case False
      with rest db1 rs show ?thesis by (simp add: inv_off_0)
    qed
  qed
qed

section \<open>Releases\<close>

lemma release_row_inv:
  assumes inv: "inv_off org a r db" and res: "x \<in> set (reservations db)" "is_held x"
      "cr_organizationId x = org"
    and run: "releaseReservationRow x now reason db = Inr (d, db')"
  shows "inv_off org (a + d) (r - 1) db' \<and> reservations db' =
      update_row cr_id (cr_id x) (\<lambda>y. y\<lparr>cr_status := Known Released, cr_resolvedAt := Some now\<rparr>)
        (reservations db)"
proof -
  have wf: "wf db" using inv by (rule inv_off_wf)
  define f :: "LotRow \<Rightarrow> LotRow" where "f = (\<lambda>l. l\<lparr>cl_creditsReserved := cl_creditsReserved l - 1\<rparr>)"
  define g :: "ReservationRow \<Rightarrow> ReservationRow" where
    "g = (\<lambda>y. y\<lparr>cr_status := Known Released, cr_resolvedAt := Some now\<rparr>)"
  obtain l where l: "findLot (cr_lotId x) db = Some l" "cl_organizationId l = org"
    using wf_reservation_lot [OF wf res(1)] res(3) by metis
  have lm: "l \<in> set (lots db)" "cl_id l = cr_lotId x" using l(1) wf_find_lot [OF wf] by auto
  have res1: "1 \<le> cl_creditsReserved l" by (rule held_reserved [OF wf res(1,2) l(1)])
  have x: "find_row cr_id (cr_id x) (reservations db) = Some x"
    by (rule wf_reservation_by_id [OF wf res(1)])
  obtain es where db': "db' = db\<lparr>lots := update_row cl_id (cr_lotId x) f (lots db),
        reservations := update_row cr_id (cr_id x) g (reservations db), entries := entries db @ es\<rparr>"
    and es: "\<forall>e\<in>set es. ce_organizationId e = org" "sum_by ce_delta es = d"
      "d = (if cl_status l = Known Active then 1 else 0)"
    using run l(1) x res(3) unfolding releaseReservationRow_def f_def g_def
    by (auto simp: tx_Inr db_Inr findLot_def split: if_splits)
  have dist: "distinct (map cr_id (reservations db))" using wf by (simp add: wf_def keys_ok_def)
  have "inv_off org (a + sum_by ce_delta es) (r + cl_creditsReserved (f l) - cl_creditsReserved l) db'"
    unfolding db'
  proof (rule inv_change [OF inv l])
    show "keeps_identity f" by (simp add: keeps_identity_def f_def)
    show "lot_ok (f l)" using wf_lot_ok [OF wf lm(1)] res1 by (auto simp: lot_ok_def f_def)
    show "reservations_ok db (update_row cr_id (cr_id x) g (reservations db))"
      using wf_reservations_ok [OF wf] x lm l(2) res(3)
      by (intro reservations_ok_update) (auto simp: g_def)
    show "holds j (update_row cr_id (cr_id x) g (reservations db)) = holds j (reservations db) +
          (if j = cr_lotId x then cl_creditsReserved (f l) - cl_creditsReserved l else 0)" for j
      using res(2) by (simp add: holds_update [OF dist x] g_def f_def is_held_def)
    show "captures j (update_row cr_id (cr_id x) g (reservations db)) = captures j (reservations db) +
          (if j = cr_lotId x then cl_creditsConsumed (f l) - cl_creditsConsumed l else 0)" for j
      using res(2) by (simp add: captures_update [OF dist x] g_def f_def is_held_def)
    show "activeAvailable org (f l) - activeAvailable org l = sum_by ce_delta es"
      using es l(2) by (simp add: activeAvailable_def lotAvailable_def f_def)
  qed (use es in simp)
  then show ?thesis using es(2) by (simp add: db' f_def g_def)
qed

text \<open>
  The sweep of stale holds. \<open>E\<close> is any set of rows that are not held: a sweep never
  touches them.
\<close>

definition keeps_rows :: "ReservationRow set \<Rightarrow> credit_db \<Rightarrow> bool" where
  "keeps_rows E db \<longleftrightarrow> E \<subseteq> set (reservations db) \<and> (\<forall>e\<in>E. \<not> is_held e)"

lemma keeps_rows_update:
  assumes "wf db" and "keeps_rows E db" and "x \<in> set (reservations db)" and "is_held x"
  shows "E \<subseteq> set (update_row cr_id (cr_id x) f (reservations db))"
proof
  fix e
  assume e: "e \<in> E"
  then have "e \<in> set (reservations db)" "\<not> is_held e" using assms(2) by (auto simp: keeps_rows_def)
  moreover have "cr_id e \<noteq> cr_id x"
    using calculation assms(1,3,4) wf_reservation_by_id by (metis option.inject)
  ultimately show "e \<in> set (update_row cr_id (cr_id x) f (reservations db))"
    by (simp add: mem_update_row_other)
qed

lemma releaseRows_inv:
  "hoare (\<lambda>db. inv_off org (a + d) r db \<and> distinct (map cr_id due) \<and> keeps_rows E db \<and>
      (\<forall>x\<in>set due. x \<in> set (reservations db) \<and> is_held x \<and> cr_organizationId x = org))
     (releaseRows due now d)
     (\<lambda>d' db. inv_off org (a + d') (r - int (length due)) db \<and> keeps_rows E db)"
proof (induction due arbitrary: d r)
  case Nil
  then show ?case by (auto simp: hoare_def tx_Inr)
next
  case (Cons x due)
  show ?case
  proof (rule hoareI, clarify)
    fix db d' db'
    assume inv: "inv_off org (a + d) r db" and dist: "distinct (map cr_id (x # due))"
      and keep: "keeps_rows E db" and run: "releaseRows (x # due) now d db = Inr (d', db')"
      and due: "\<forall>y\<in>set (x # due). y \<in> set (reservations db) \<and> is_held y \<and> cr_organizationId y = org"
    obtain b db1 where row: "releaseReservationRow x now ''reservation_ttl_expired'' db = Inr (b, db1)"
      and rest: "releaseRows due now (d + b) db1 = Inr (d', db')"
      using run by (auto simp: tx_Inr)
    define g :: "ReservationRow \<Rightarrow> ReservationRow" where
      "g = (\<lambda>y. y\<lparr>cr_status := Known Released, cr_resolvedAt := Some now\<rparr>)"
    have db1: "inv_off org (a + (d + b)) (r - 1) db1"
        "reservations db1 = update_row cr_id (cr_id x) g (reservations db)"
      using release_row_inv [OF inv _ _ _ row] due by (auto simp: g_def add.assoc)
    have "keeps_rows E db1"
      using keeps_rows_update [OF inv_off_wf [OF inv] keep] keep due db1(2)
      by (simp add: keeps_rows_def)
    moreover have "\<forall>y\<in>set due. y \<in> set (reservations db1) \<and> is_held y \<and> cr_organizationId y = org"
    proof
      fix y
      assume "y \<in> set due"
      then have "cr_id y \<noteq> cr_id x" using dist by (metis distinct.simps(2) image_eqI list.set_map list.simps(9))
      with due \<open>y \<in> set due\<close> show "y \<in> set (reservations db1) \<and> is_held y \<and> cr_organizationId y = org"
        by (simp add: db1(2) mem_update_row_other)
    qed
    ultimately have pre: "inv_off org (a + (d + b)) (r - 1) db1 \<and> distinct (map cr_id due) \<and>
        keeps_rows E db1 \<and>
        (\<forall>y\<in>set due. y \<in> set (reservations db1) \<and> is_held y \<and> cr_organizationId y = org)"
      using db1(1) dist by simp
    show "inv_off org (a + d') (r - int (length (x # due))) db' \<and> keeps_rows E db'"
      using hoareD [OF Cons.IH pre rest] by (simp add: algebra_simps)
  qed
qed

lemma releaseExpiredReservationsInTx_inv:
  "hoare (\<lambda>db. ledger_inv db \<and> keeps_rows E db) (releaseExpiredReservationsInTx org now)
     (\<lambda>_ db. ledger_inv db \<and> keeps_rows E db)"
proof (rule hoareI, clarify)
  fix db n db'
  assume inv: "ledger_inv db" and keep: "keeps_rows E db"
    and run: "releaseExpiredReservationsInTx org now db = Inr (n, db')"
  define due where "due = filter (\<lambda>r. cr_organizationId r = org \<and> cr_status r = Known Held \<and>
      cr_expiresAt r \<le> now) (reservations db)"
  show "ledger_inv db' \<and> keeps_rows E db'"
  proof (cases "due = []")
    case True
    with run inv keep show ?thesis
      by (simp add: releaseExpiredReservationsInTx_def tx_Inr flip: due_def)
  next
    case False
    then obtain d db1 w where rows: "releaseRows due now 0 db = Inr (d, db1)"
      and move: "moveCredits org d (- int (length due)) db1 = Inr (w, db')"
      using run by (auto simp: releaseExpiredReservationsInTx_def tx_Inr simp flip: due_def)
    have pre: "inv_off org (0 + 0) 0 db \<and> distinct (map cr_id due) \<and> keeps_rows E db \<and>
      (\<forall>x\<in>set due. x \<in> set (reservations db) \<and> is_held x \<and> cr_organizationId x = org)"
      using inv keep by (auto simp: inv_off_0 due_def is_held_def ledger_inv_def wf_def keys_ok_def
          distinct_map inj_on_subset)
    have db1: "inv_off org (0 + d) (0 - int (length due)) db1 \<and> keeps_rows E db1"
      by (rule hoareD [OF releaseRows_inv pre rows])
    have "ledger_inv db' \<and> reservations db' = reservations db1"
      by (rule hoareD [OF moveCredits_inv' _ move]) (use db1 in simp)
    with db1 show ?thesis by (simp add: keeps_rows_def)
  qed
qed

lemma expireDueLotsInTx_inv':
  "hoare (\<lambda>db. ledger_inv db \<and> keeps_rows E db) (expireDueLotsInTx org now)
     (\<lambda>_ db. ledger_inv db \<and> keeps_rows E db)"
  by (rule hoareI) (use hoareD [OF expireDueLotsInTx_inv] in \<open>fastforce simp: keeps_rows_def\<close>)

section \<open>Freeze, resolve, revoke\<close>

text \<open>A lot changes status, the entry says by how much, the wallet follows.\<close>

lemma adjust_inv:
  assumes inv: "ledger_inv db" and l: "findLot k db = Some l"
    and f: "keeps_identity f" "lot_ok (f l)" "cl_creditsReserved (f l) = cl_creditsReserved l"
      "cl_creditsConsumed (f l) = cl_creditsConsumed l"
    and e: "ce_organizationId e = cl_organizationId l" "ce_delta e = d"
    and d: "d = activeAvailable (cl_organizationId l) (f l) - activeAvailable (cl_organizationId l) l"
    and run: "updateLot k f db = Inr (x, db1)" "createEntry e db1 = Inr (u, db2)"
      "moveCredits (cl_organizationId l) d 0 db2 = Inr (w, db')"
  shows "ledger_inv db' \<and> reservations db' = reservations db"
proof -
  have wf: "wf db" using inv by (simp add: ledger_inv_def)
  have db2: "db2 = db\<lparr>lots := update_row cl_id k f (lots db), reservations := reservations db,
      entries := entries db @ [e]\<rparr>"
    using run(1,2) by (auto simp: db_Inr)
  have "inv_off (cl_organizationId l) (0 + sum_by ce_delta [e])
      (0 + cl_creditsReserved (f l) - cl_creditsReserved l) db2"
    unfolding db2
    by (rule inv_change [OF _ l _ f(1,2) wf_reservations_ok [OF wf]])
       (use inv f(3,4) e d in \<open>simp_all add: inv_off_0\<close>)
  then have "inv_off (cl_organizationId l) d 0 db2" using f(3) e(2) by simp
  then show ?thesis
    using hoareD [OF moveCredits_inv' _ run(3)] by (fastforce simp: db2)
qed

text \<open>A status change that moves no credit and is explained by no entry.\<close>

lemma silent_inv:
  assumes inv: "ledger_inv db" and l: "findLot k db = Some l"
    and f: "keeps_identity f" "lot_ok (f l)" "cl_creditsReserved (f l) = cl_creditsReserved l"
      "cl_creditsConsumed (f l) = cl_creditsConsumed l"
    and d: "activeAvailable (cl_organizationId l) (f l) = activeAvailable (cl_organizationId l) l"
  shows "ledger_inv (db\<lparr>lots := update_row cl_id k f (lots db)\<rparr>)"
proof -
  have wf: "wf db" using inv by (simp add: ledger_inv_def)
  have "inv_off (cl_organizationId l) (0 + sum_by ce_delta ([] :: LedgerEntry list))
      (0 + cl_creditsReserved (f l) - cl_creditsReserved l)
     (db\<lparr>lots := update_row cl_id k f (lots db), reservations := reservations db, entries := entries db @ ([] :: LedgerEntry list)\<rparr>)"
    by (rule inv_change [OF _ l _ f(1,2) wf_reservations_ok [OF wf]])
       (use inv f(3,4) d in \<open>simp_all add: inv_off_0\<close>)
  with f(3) show ?thesis by (simp add: inv_off_0)
qed

lemma freezeLotTx_inv:
  "hoare (\<lambda>db. ledger_inv db \<and> findLot (cl_id lot) db = Some lot) (freezeLotTx ev now lot)
     (\<lambda>_. ledger_inv)"
proof (rule hoareI, clarify)
  fix db a db'
  assume inv: "ledger_inv db" and l: "findLot (cl_id lot) db = Some lot"
    and run: "freezeLotTx ev now lot db = Inr (a, db')"
  have ok: "lot_ok lot" using inv l wf_find_lot wf_lot_ok by (auto simp: ledger_inv_def)
  show "ledger_inv db'"
  proof (cases "cl_status lot = Known Active")
    case False
    with run inv show ?thesis by (auto simp: freezeLotTx_def tx_Inr split: if_splits)
  next
    case True
    define f :: "LotRow \<Rightarrow> LotRow" where "f = (\<lambda>l. l\<lparr>cl_status := Known Frozen, cl_frozenAt := Some now\<rparr>)"
    obtain x db1 u db2 w where steps: "updateLot (cl_id lot) f db = Inr (x, db1)"
      "createEntry (adjustmentEntry lot dispute_freeze (- lotAvailable lot) ev ''dispute_created'') db1
        = Inr (u, db2)"
      "moveCredits (cl_organizationId lot) (- lotAvailable lot) 0 db2 = Inr (w, db')"
      using run True by (auto simp: freezeLotTx_def tx_Inr f_def Let_def dest!: snapshot_Inr)
    show ?thesis
      using adjust_inv [OF inv l _ _ _ _ _ _ _ steps] ok True
      by (simp add: keeps_identity_def lot_ok_def f_def adjustmentEntry_def activeAvailable_def
          lotAvailable_def)
  qed
qed

lemma resolveDisputeTx_inv:
  "hoare (\<lambda>db. ledger_inv db \<and> findLot (cl_id lot) db = Some lot) (resolveDisputeTx disp ev now lot)
     (\<lambda>_. ledger_inv)"
proof (rule hoareI, clarify)
  fix db a db'
  assume inv: "ledger_inv db" and l: "findLot (cl_id lot) db = Some lot"
    and run: "resolveDisputeTx disp ev now lot db = Inr (a, db')"
  have ok: "lot_ok lot" using inv l wf_find_lot wf_lot_ok by (auto simp: ledger_inv_def)
  consider (other) "cl_status lot \<noteq> Known Frozen" | (lost) "cl_status lot = Known Frozen" "disp = Lost"
    | (won) "cl_status lot = Known Frozen" "disp = Won"
    by (cases disp) auto
  then show "ledger_inv db'"
  proof cases
    case other
    with run inv show ?thesis by (simp add: resolveDisputeTx_def tx_Inr)
  next
    case lost
    then have "db' = db\<lparr>lots := update_row cl_id (cl_id lot) (\<lambda>l. l\<lparr>cl_status := Known Revoked\<rparr>) (lots db)\<rparr>"
      using run by (auto simp: resolveDisputeTx_def tx_Inr db_Inr)
    with silent_inv [OF inv l, of "\<lambda>l. l\<lparr>cl_status := Known Revoked\<rparr>"] ok lost show ?thesis
      by (simp add: keeps_identity_def lot_ok_def activeAvailable_def)
  next
    case won
    define f :: "LotRow \<Rightarrow> LotRow" where "f = (\<lambda>l. l\<lparr>cl_status := Known Active\<rparr>)"
    obtain x db1 u db2 w db3 ids where steps: "updateLot (cl_id lot) f db = Inr (x, db1)"
      "createEntry (adjustmentEntry lot dispute_release (lotAvailable lot) ev ''dispute_won'') db1
        = Inr (u, db2)"
      "moveCredits (cl_organizationId lot) (lotAvailable lot) 0 db2 = Inr (w, db3)"
      and expire: "expireDueLotsInTx (cl_organizationId lot) now db3 = Inr (ids, db')"
      using run won by (auto simp: resolveDisputeTx_def tx_Inr f_def Let_def dest!: snapshot_Inr)
    have "ledger_inv db3"
      using adjust_inv [OF inv l _ _ _ _ _ _ _ steps] ok won
      by (simp add: keeps_identity_def lot_ok_def f_def adjustmentEntry_def activeAvailable_def
          lotAvailable_def)
    then show ?thesis using hoareD [OF expireDueLotsInTx_inv _ expire] by simp
  qed
qed

lemma revokeLotTx_inv:
  "hoare (\<lambda>db. ledger_inv db \<and> findLot (cl_id lot) db = Some lot) (revokeLotTx refunded charge ev lot)
     (\<lambda>_. ledger_inv)"
proof (rule hoareI, clarify)
  fix db a db'
  assume inv: "ledger_inv db" and l: "findLot (cl_id lot) db = Some lot"
    and run: "revokeLotTx refunded charge ev lot db = Inr (a, db')"
  have ok: "lot_ok lot" using inv l wf_find_lot wf_lot_ok by (auto simp: ledger_inv_def)
  define f :: "LotRow \<Rightarrow> LotRow" where "f = (\<lambda>l. l\<lparr>cl_status := Known Revoked\<rparr>)"
  define reason where "reason = (if refunded \<ge> charge then ''refund_full'' else ''refund_prorata'')"
  consider (same) "db' = db" | (applied) x db1 u db2 w where "cl_status lot = Known Active"
      "updateLot (cl_id lot) f db = Inr (x, db1)"
      "createEntry (adjustmentEntry lot refund_reversal (- lotAvailable lot) ev reason) db1 = Inr (u, db2)"
      "moveCredits (cl_organizationId lot) (- lotAvailable lot) 0 db2 = Inr (w, db')"
    using run unfolding reason_def f_def
    by (auto simp: revokeLotTx_def tx_Inr Let_def split: if_splits dest!: snapshot_Inr)
  then show "ledger_inv db'"
  proof cases
    case same
    with inv show ?thesis by simp
  next
    case applied
    then show ?thesis
      using adjust_inv [OF inv l _ _ _ _ _ _ _ applied(2-4)] ok
      by (simp add: keeps_identity_def lot_ok_def f_def adjustmentEntry_def activeAvailable_def
          lotAvailable_def)
  qed
qed

section \<open>Capture, hold and release\<close>

text \<open>
  The two ways a capture commits: nothing to do, or the one credit of the live hold moves
  from reserved to consumed, closing the lot when it was the last.
\<close>

definition capturedLot :: "LotRow \<Rightarrow> LotRow" where
  "capturedLot l =
     (if cl_status l = Known Active \<and> cl_creditsGranted l \<le> cl_creditsConsumed l + 1
      then l\<lparr>cl_creditsReserved := cl_creditsReserved l - 1,
             cl_creditsConsumed := cl_creditsConsumed l + 1, cl_status := Known Exhausted\<rparr>
      else l\<lparr>cl_creditsReserved := cl_creditsReserved l - 1,
             cl_creditsConsumed := cl_creditsConsumed l + 1\<rparr>)"

lemma capturedLot_simps [simp]:
  "cl_id (capturedLot l) = cl_id l" "cl_organizationId (capturedLot l) = cl_organizationId l"
  "cl_creditsReserved (capturedLot l) = cl_creditsReserved l - 1"
  "cl_creditsConsumed (capturedLot l) = cl_creditsConsumed l + 1"
  "cl_creditsGranted (capturedLot l) = cl_creditsGranted l"
  by (simp_all add: capturedLot_def)

lemma capturedLot_keeps: "keeps_identity capturedLot"
  by (simp add: keeps_identity_def capturedLot_def)

definition captureEntry :: "string \<Rightarrow> string \<Rightarrow> string \<Rightarrow> LedgerEntry" where
  "captureEntry org s lotId = \<lparr>ce_organizationId = org, ce_lotId = lotId, ce_type = consume,
     ce_delta = 0, ce_candidateSessionId = Some s, ce_stripeEventId = None,
     ce_actorKind = system, ce_reason = None\<rparr>"

definition capture_marks :: "int \<Rightarrow> ReservationRow \<Rightarrow> ReservationRow" where
  "capture_marks now r = r\<lparr>cr_status := Known Captured, cr_resolvedAt := Some now\<rparr>"

lemma captureTx_cases [consumes 2, case_names same captured]:
  assumes run: "captureTx org s now db = Inr (a, db')" and wf: "wf db"
  obtains (same) "db' = db" "a = (case findReservation s db of
        Some r \<Rightarrow> if cr_organizationId r = org \<and> cr_status r = Known Captured then AlreadyCaptured
                  else CaptureNoReservation
      | None \<Rightarrow> CaptureNoReservation)"
    | (captured) r l w where "findReservation s db = Some r" "r \<in> set (reservations db)"
        "cr_organizationId r = org" "cr_status r = Known Held" "a = CaptureDone"
        "findLot (cr_lotId r) db = Some l" "cl_organizationId l = org"
        "moveCredits org 0 (-1) (db\<lparr>lots := update_row cl_id (cr_lotId r) capturedLot (lots db),
           reservations := update_row cr_id (cr_id r) (capture_marks now) (reservations db),
           entries := entries db @ [captureEntry org s (cr_lotId r)]\<rparr>) = Inr (w, db')"
proof (cases "\<exists>r. findReservation s db = Some r \<and> cr_organizationId r = org \<and> cr_status r = Known Held")
  case False
  then show thesis
    using run by (intro same) (auto simp: captureTx_def tx_Inr split: option.splits if_splits)
next
  case True
  define f :: "LotRow \<Rightarrow> LotRow" where "f = (\<lambda>l. l\<lparr>cl_creditsReserved := cl_creditsReserved l - 1,
      cl_creditsConsumed := cl_creditsConsumed l + 1\<rparr>)"
  define x :: "LotRow \<Rightarrow> LotRow" where "x = (\<lambda>l. l\<lparr>cl_status := Known Exhausted\<rparr>)"
  obtain r where r: "findReservation s db = Some r" "cr_organizationId r = org"
      "cr_status r = Known Held" using True by blast
  then have rm: "r \<in> set (reservations db)" using wf_find_reservation [OF wf] by simp
  obtain l where l: "findLot (cr_lotId r) db = Some l" "cl_organizationId l = org"
    using wf_reservation_lot [OF wf rm(1)] r(2) by metis
  have lid: "cl_id l = cr_lotId r" using l(1) wf_find_lot [OF wf] by auto
  obtain ul db1 u2 db2 u3 db3 u4 db4 w where steps: "updateLot (cr_lotId r) f db = Inr (ul, db1)"
    "(if cl_status ul = Known Active \<and> cl_creditsConsumed ul \<ge> cl_creditsGranted ul
      then tx_then (updateLot (cl_id ul) x) (tx_return ()) else tx_return ()) db1 = Inr (u2, db2)"
    "updateReservation (cr_id r) (capture_marks now) db2 = Inr (u3, db3)"
    "createEntry (captureEntry org s (cr_lotId r)) db3 = Inr (u4, db4)"
    "moveCredits org 0 (-1) db4 = Inr (w, db')" and a: "a = CaptureDone"
    using run r unfolding captureTx_def f_def x_def capture_marks_def captureEntry_def
    by (auto simp: tx_Inr)
  have ul: "ul = f l" "db1 = db\<lparr>lots := update_row cl_id (cr_lotId r) f (lots db)\<rparr>"
    using steps(1) l(1) by (auto simp: updateLot_Inr)
  have only: "y = l" if "y \<in> set (lots db)" "cl_id y = cr_lotId r" for y
    using that l(1) wf_find_lot [OF wf] by (metis option.inject)
  have same_lots: "update_row cl_id (cr_lotId r) g (lots db) = update_row cl_id (cr_lotId r) capturedLot (lots db)"
    if "g l = capturedLot l" for g
    using that only by (auto simp: update_row_def)
  have "db2 = db\<lparr>lots := update_row cl_id (cr_lotId r) capturedLot (lots db)\<rparr>"
  proof (cases "cl_status l = Known Active \<and> cl_creditsGranted l \<le> cl_creditsConsumed l + 1")
    case True
    have "cl_id (f y) = cl_id y" for y by (simp add: f_def)
    note twice = update_row_twice [of cl_id f, OF this]
    have "\<exists>v. updateLot (cr_lotId r) x db1 = Inr (v, db2)"
      using True steps(2) lid unfolding ul(1) by (auto simp: tx_Inr f_def)
    moreover have "x (f l) = capturedLot l" using True by (simp add: x_def f_def capturedLot_def)
    ultimately show ?thesis using same_lots [of "\<lambda>y. x (f y)"] by (auto simp: updateLot_Inr ul(2) twice)
  next
    case False
    then have "db2 = db1" using steps(2) unfolding ul(1) by (auto simp: tx_Inr f_def)
    moreover have "f l = capturedLot l" using False by (simp add: f_def capturedLot_def)
    ultimately show ?thesis using same_lots [of f] by (simp add: ul(2))
  qed
  then have "db4 = db\<lparr>lots := update_row cl_id (cr_lotId r) capturedLot (lots db),
           reservations := update_row cr_id (cr_id r) (capture_marks now) (reservations db),
           entries := entries db @ [captureEntry org s (cr_lotId r)]\<rparr>"
    using steps(3,4) by (auto simp: updateReservation_Inr createEntry_Inr)
  with steps(5) show thesis by (intro captured [OF r(1) rm r(2,3) a l]) simp
qed

lemma captureTx_inv: "hoare ledger_inv (captureTx org s now) (\<lambda>_. ledger_inv)"
proof (rule hoareI)
  fix db a db'
  assume inv: "ledger_inv db" and run: "captureTx org s now db = Inr (a, db')"
  have wf: "wf db" using inv by (simp add: ledger_inv_def)
  from run wf show "ledger_inv db'"
  proof (cases rule: captureTx_cases)
    case same
    with inv show ?thesis by simp
  next
    case (captured r l w)
    have held: "is_held r" using captured(4) by (simp add: is_held_def)
    have lm: "l \<in> set (lots db)" "cl_id l = cr_lotId r" using captured(6) wf_find_lot [OF wf] by auto
    have pos: "1 \<le> cl_creditsReserved l" by (rule held_reserved [OF wf captured(2) held captured(6)])
    have row: "find_row cr_id (cr_id r) (reservations db) = Some r"
      by (rule wf_reservation_by_id [OF wf captured(2)])
    have dist: "distinct (map cr_id (reservations db))" using wf by (simp add: wf_def keys_ok_def)
    have ok: "lot_ok l" by (rule wf_lot_ok [OF wf lm(1)])
    let ?rs = "update_row cr_id (cr_id r) (capture_marks now) (reservations db)"
    let ?mid = "db\<lparr>lots := update_row cl_id (cr_lotId r) capturedLot (lots db),
        reservations := ?rs, entries := entries db @ [captureEntry org s (cr_lotId r)]\<rparr>"
    have "inv_off org (0 + sum_by ce_delta [captureEntry org s (cr_lotId r)])
        (0 + cl_creditsReserved (capturedLot l) - cl_creditsReserved l) ?mid"
    proof (rule inv_change [OF _ captured(6,7) capturedLot_keeps])
      show "inv_off org 0 0 db" using inv by (simp add: inv_off_0)
      show "lot_ok (capturedLot l)" using ok pos by (auto simp: lot_ok_def capturedLot_def)
      show "reservations_ok db ?rs"
        using wf_reservations_ok [OF wf] row lm captured(3,7)
        by (intro reservations_ok_update) (auto simp: capture_marks_def)
      show "holds j ?rs = holds j (reservations db) +
            (if j = cr_lotId r then cl_creditsReserved (capturedLot l) - cl_creditsReserved l else 0)" for j
        using held by (simp add: holds_update [OF dist row] capture_marks_def is_held_def)
      show "captures j ?rs = captures j (reservations db) +
            (if j = cr_lotId r then cl_creditsConsumed (capturedLot l) - cl_creditsConsumed l else 0)" for j
        using held by (simp add: captures_update [OF dist row] capture_marks_def is_held_def)
      show "activeAvailable org (capturedLot l) - activeAvailable org l
          = sum_by ce_delta [captureEntry org s (cr_lotId r)]"
        using captured(7) ok pos
        by (auto simp: activeAvailable_def lotAvailable_def capturedLot_def captureEntry_def lot_ok_def)
    qed (simp add: captureEntry_def)
    then have "inv_off org 0 (-1) ?mid" by (simp add: captureEntry_def)
    then show ?thesis using hoareD [OF moveCredits_inv _ captured(8)] by simp
  qed
qed

text \<open>A hold on an active lot with a credit left. A released row of the session is reused.\<close>

lemma holdCreditTx_inv:
  assumes inv: "ledger_inv db" and l: "findLot lotId db = Some l" "cl_organizationId l = org"
    and active: "cl_status l = Known Active" "0 < lotAvailable l"
    and old: "\<And>e. existing = Some e \<Longrightarrow> e \<in> set (reservations db) \<and> \<not> is_held e \<and>
      cr_status e \<noteq> Known Captured \<and> cr_organizationId e = org"
    and run: "holdCreditTx rid org s now existing lotId db = Inr (a, db')"
  shows "ledger_inv db'"
proof -
  have wf: "wf db" using inv by (simp add: ledger_inv_def)
  have lm: "l \<in> set (lots db)" "cl_id l = lotId" using l(1) wf_find_lot [OF wf] by auto
  have ok: "lot_ok l" by (rule wf_lot_ok [OF wf lm(1)])
  have dist: "distinct (map cr_id (reservations db))" using wf by (simp add: wf_def keys_ok_def)
  define f :: "LotRow \<Rightarrow> LotRow" where "f = (\<lambda>l. l\<lparr>cl_creditsReserved := cl_creditsReserved l + 1\<rparr>)"
  define g :: "ReservationRow \<Rightarrow> ReservationRow" where "g = (\<lambda>r. r\<lparr>cr_lotId := lotId,
      cr_status := Known Held, cr_heldAt := now, cr_expiresAt := now + RESERVATION_TTL_HOURS * HOUR_MS,
      cr_resolvedAt := None\<rparr>)"
  define n where "n = \<lparr>cr_id = rid, cr_organizationId = org, cr_candidateSessionId = s,
      cr_lotId = lotId, cr_status = Known Held, cr_heldAt = now,
      cr_expiresAt = now + RESERVATION_TTL_HOURS * HOUR_MS, cr_resolvedAt = None\<rparr>"
  define en where "en = \<lparr>ce_organizationId = org, ce_lotId = lotId, ce_type = reserve, ce_delta = -1,
      ce_candidateSessionId = Some s, ce_stripeEventId = None, ce_actorKind = system, ce_reason = None\<rparr>"
  obtain ul db1 ur db2 u db3 w where steps: "updateLot lotId f db = Inr (ul, db1)"
    "(case existing of Some e \<Rightarrow> updateReservation (cr_id e) g | None \<Rightarrow> createReservation n) db1
       = Inr (ur, db2)"
    "createEntry en db2 = Inr (u, db3)" "moveCredits org (-1) 1 db3 = Inr (w, db')"
    using run unfolding holdCreditTx_def f_def g_def n_def en_def
    by (auto simp: tx_Inr Let_def)
  have db1: "db1 = db\<lparr>lots := update_row cl_id lotId f (lots db)\<rparr>"
    using steps(1) by (auto simp: updateLot_Inr)
  obtain rs where db2: "db2 = db1\<lparr>reservations := rs\<rparr>" and rs: "reservations_ok db rs"
      "\<And>j. holds j rs = holds j (reservations db) + (if j = lotId then 1 else 0)"
      "\<And>j. captures j rs = captures j (reservations db)"
  proof (cases existing)
    case None
    then have new: "db2 = db1\<lparr>reservations := reservations db @ [n]\<rparr>"
        "cr_id n \<notin> cr_id ` set (reservations db)"
        "cr_candidateSessionId n \<notin> cr_candidateSessionId ` set (reservations db)"
      using steps(2) by (auto simp: db1 dest: createReservation_Inr)
    have "reservations_ok db (reservations db @ [n])"
      using wf_reservations_ok [OF wf] new(2,3) lm l(2)
      by (auto simp: reservations_ok_def distinct_map_snoc n_def)
    with new(1) show ?thesis
      by (intro that [of "reservations db @ [n]"]) (auto simp: holds_append captures_append n_def is_held_def)
  next
    case (Some e)
    have row: "find_row cr_id (cr_id e) (reservations db) = Some e"
      using old [OF Some] wf_reservation_by_id [OF wf] by blast
    have "reservations_ok db (update_row cr_id (cr_id e) g (reservations db))"
      using wf_reservations_ok [OF wf] row lm l(2) old [OF Some]
      by (intro reservations_ok_update) (auto simp: g_def)
    moreover have "db2 = db1\<lparr>reservations := update_row cr_id (cr_id e) g (reservations db)\<rparr>"
      using steps(2) Some by (auto simp: updateReservation_Inr db1)
    ultimately show ?thesis
      using old [OF Some]
      by (intro that [of "update_row cr_id (cr_id e) g (reservations db)"])
         (auto simp: holds_update [OF dist row] captures_update [OF dist row] g_def is_held_def)
  qed
  have "inv_off org (0 + sum_by ce_delta [en]) (0 + cl_creditsReserved (f l) - cl_creditsReserved l)
    (db\<lparr>lots := update_row cl_id lotId f (lots db), reservations := rs, entries := entries db @ [en]\<rparr>)"
  proof (rule inv_change [OF _ l _ _ rs(1)])
    show "inv_off org 0 0 db" using inv by (simp add: inv_off_0)
    show "keeps_identity f" by (simp add: keeps_identity_def f_def)
    show "lot_ok (f l)" using ok active by (auto simp: lot_ok_def f_def lotAvailable_def)
    show "holds j rs = holds j (reservations db) +
        (if j = lotId then cl_creditsReserved (f l) - cl_creditsReserved l else 0)" for j
      by (simp add: rs(2) f_def)
    show "captures j rs = captures j (reservations db) +
        (if j = lotId then cl_creditsConsumed (f l) - cl_creditsConsumed l else 0)" for j
      by (simp add: rs(3) f_def)
    show "activeAvailable org (f l) - activeAvailable org l = sum_by ce_delta [en]"
      using l(2) active by (simp add: activeAvailable_def lotAvailable_def f_def en_def)
  qed (simp add: en_def)
  moreover have "db3 = db\<lparr>lots := update_row cl_id lotId f (lots db), reservations := rs,
      entries := entries db @ [en]\<rparr>"
    using steps(3) by (auto simp: createEntry_Inr db2 db1)
  ultimately have "inv_off org (-1) 1 db3" by (simp add: f_def en_def)
  then show ?thesis using hoareD [OF moveCredits_inv _ steps(4)] by simp
qed

text \<open>A reservation column that no equation reads.\<close>

lemma reservation_touch_inv:
  assumes inv: "ledger_inv db"
    and g: "\<And>r. cr_id (g r) = cr_id r \<and> cr_candidateSessionId (g r) = cr_candidateSessionId r \<and>
      cr_organizationId (g r) = cr_organizationId r \<and> cr_lotId (g r) = cr_lotId r \<and>
      cr_status (g r) = cr_status r"
  shows "ledger_inv (db\<lparr>reservations := update_row cr_id rid g (reservations db)\<rparr>)"
proof -
  let ?rs = "update_row cr_id rid g (reservations db)"
  have h: "holds j ?rs = holds j (reservations db)" for j
    unfolding holds_def using g by (intro sum_by_update_same) (simp add: is_held_def)
  have c: "captures j ?rs = captures j (reservations db)" for j
    unfolding captures_def using g by (intro sum_by_update_same) simp
  have keys: "map cr_id ?rs = map cr_id (reservations db)"
      "map cr_candidateSessionId ?rs = map cr_candidateSessionId (reservations db)"
    using g by (auto intro: map_update_row)
  have "\<exists>l\<in>set (lots db). cl_id l = cr_lotId r \<and> cl_organizationId l = cr_organizationId r"
    if "r \<in> set ?rs" for r
    using that inv g by (auto simp: set_update_row ledger_inv_def wf_def refs_ok_def)
  then show ?thesis
    using inv unfolding ledger_inv_def wallet_balanced_def wf_def keys_ok_def refs_ok_def
      lots_ok_def currency_ok_def by (simp add: keys h c del: map_update_row) metis
qed

lemma loadLots_Inr:
  assumes "loadLots org db = Inr (snaps, db')" and "s \<in> set snaps" and "wf db"
  shows "db' = db \<and> (\<exists>l. findLot (lot_id s) db = Some l \<and> cl_organizationId l = org \<and>
    cl_status l = Known Active \<and> lotAvailable l = availableInLot s \<and>
    toLotSnapshot l = Inr s)"
proof -
  have "db' = db" and "traverse toLotSnapshot (filter (\<lambda>l. cl_organizationId l = org \<and>
      cl_status l = Known Active) (lots db)) = Inr snaps"
    using assms(1) by (auto simp: loadLots_def tx_Inr)
  moreover obtain l where "l \<in> set (lots db)" "cl_organizationId l = org" "cl_status l = Known Active"
      "toLotSnapshot l = Inr s"
    using traverse_InrD [OF calculation(2) assms(2)] by auto
  moreover have "cl_id l = lot_id s" "lotAvailable l = availableInLot s"
    using snapshot_Inr [OF calculation(6)] by simp_all
  ultimately show ?thesis using wf_find_lot [OF assms(3)] by metis
qed

lemma loadLots_same: "loadLots org db = Inr (snaps, db') \<Longrightarrow> db' = db"
  by (auto simp: loadLots_def tx_Inr)

text \<open>
  The three ways a reservation commits: nothing to do (captured, or no credit and nothing
  swept), a live hold extended, or the sweeps followed by the choice of a lot. \<open>Acquired\<close>
  hands over what the sweeps leave: the invariant, and the session's old row unchanged.
\<close>

lemma reserveTx_cases [consumes 2, case_names same extended acquired]:
  assumes run: "reserveTx rid org s now db = Inr (a, db')" and inv: "ledger_inv db"
  obtains (same) e where "findReservation s db = Some e" "cr_organizationId e = org"
      "cr_status e = Known Captured" "a = ReserveOk (cr_id e)" "db' = db"
    | (extended) e where "findReservation s db = Some e" "cr_organizationId e = org"
        "cr_status e = Known Held" "a = ReserveOk (cr_id e)"
        "db' = db\<lparr>reservations := update_row cr_id (cr_id e)
           (\<lambda>r. r\<lparr>cr_expiresAt := now + RESERVATION_TTL_HOURS * HOUR_MS\<rparr>) (reservations db)\<rparr>"
    | (acquired) n db1 ids db2 snaps where
        "\<forall>e. findReservation s db = Some e \<longrightarrow> cr_organizationId e = org \<and>
           cr_status e \<noteq> Known Held \<and> cr_status e \<noteq> Known Captured \<and> e \<in> set (reservations db2)"
        "releaseExpiredReservationsInTx org now db = Inr (n, db1)" "ledger_inv db1"
        "expireDueLotsInTx org now db1 = Inr (ids, db2)" "ledger_inv db2"
        "loadLots org db2 = Inr (snaps, db2)"
        "(case selectLotForReservation snaps now of None \<Rightarrow> tx_return NoCreditsAvailable
           | Some lot \<Rightarrow> holdCreditTx rid org s now (findReservation s db) (lot_id lot)) db2 = Inr (a, db')"
proof -
  have wf: "wf db" using inv by (simp add: ledger_inv_def)
  define E where "E = set_option (findReservation s db)"
  consider (1) e where "findReservation s db = Some e" "cr_organizationId e = org"
      "cr_status e = Known Captured" "a = ReserveOk (cr_id e)" "db' = db"
    | (2) e u where "findReservation s db = Some e" "cr_organizationId e = org"
        "cr_status e = Known Held" "a = ReserveOk (cr_id e)"
        "updateReservation (cr_id e) (\<lambda>r. r\<lparr>cr_expiresAt := now + RESERVATION_TTL_HOURS * HOUR_MS\<rparr>) db
           = Inr (u, db')"
    | (3) n db1 ids db2 snaps db3 where
        "\<forall>e\<in>E. cr_organizationId e = org \<and> cr_status e \<noteq> Known Held \<and> cr_status e \<noteq> Known Captured"
        "releaseExpiredReservationsInTx org now db = Inr (n, db1)"
        "expireDueLotsInTx org now db1 = Inr (ids, db2)" "loadLots org db2 = Inr (snaps, db3)"
        "(case selectLotForReservation snaps now of None \<Rightarrow> tx_return NoCreditsAvailable
           | Some lot \<Rightarrow> holdCreditTx rid org s now (findReservation s db) (lot_id lot)) db3 = Inr (a, db')"
    using run unfolding reserveTx_def E_def
    by (auto simp: tx_Inr Let_def split: option.splits if_splits)
  then show thesis
  proof cases
    case 1
    then show ?thesis by (rule same)
  next
    case 2
    then show ?thesis by (intro extended [OF 2(1-4)]) (auto simp: updateReservation_Inr)
  next
    case 3
    have "keeps_rows E db"
      using 3(1) wf_find_reservation [OF wf] by (auto simp: keeps_rows_def E_def is_held_def)
    then have inv1: "ledger_inv db1 \<and> keeps_rows E db1"
      using hoareD [OF releaseExpiredReservationsInTx_inv _ 3(2)] inv by blast
    then have inv2: "ledger_inv db2 \<and> keeps_rows E db2"
      by (rule hoareD [OF expireDueLotsInTx_inv' _ 3(3)])
    have "db3 = db2" by (rule loadLots_same [OF 3(4)])
    then show ?thesis
      by (intro acquired [of db2 n db1 ids snaps])
         (use 3 inv1 inv2 in \<open>auto simp: E_def keeps_rows_def\<close>)
  qed
qed

lemma reserveTx_inv: "hoare ledger_inv (reserveTx rid org s now) (\<lambda>_. ledger_inv)"
proof (rule hoareI)
  fix db a db'
  assume inv: "ledger_inv db" and run: "reserveTx rid org s now db = Inr (a, db')"
  from run inv show "ledger_inv db'"
  proof (cases rule: reserveTx_cases)
    case (same e)
    with inv show ?thesis by simp
  next
    case (extended e)
    with reservation_touch_inv [OF inv] show ?thesis by simp
  next
    case (acquired n db1 ids db2 snaps)
    show ?thesis
    proof (cases "selectLotForReservation snaps now")
      case None
      with acquired(5,7) show ?thesis by (simp add: tx_Inr)
    next
      case (Some lot)
      from select_Some [OF this] have lot: "lot \<in> set snaps" "0 < availableInLot lot"
        by (auto simp: isLotEligible_def)
      obtain l where l: "findLot (lot_id lot) db2 = Some l" "cl_organizationId l = org"
          "cl_status l = Known Active" "lotAvailable l = availableInLot lot"
        using loadLots_Inr [OF acquired(6) lot(1)] acquired(5) by (auto simp: ledger_inv_def)
      show ?thesis
        by (rule holdCreditTx_inv [OF acquired(5) l(1,2,3)])
           (use lot(2) l(4) acquired(1,7) Some in \<open>auto simp: is_held_def\<close>)
    qed
  qed
qed

lemma releaseTx_cases [consumes 2, case_names same released]:
  assumes run: "releaseTx org s now reason db = Inr (a, db')" and inv: "ledger_inv db"
  obtains (same) "db' = db" "a \<noteq> ReleaseDone"
    | (released) r d db1 w db2 ids where "findReservation s db = Some r" "cr_organizationId r = org"
        "is_held r" "a = ReleaseDone" "releaseReservationRow r now reason db = Inr (d, db1)"
        "moveCredits org d (-1) db1 = Inr (w, db2)" "ledger_inv db2"
        "expireDueLotsInTx org now db2 = Inr (ids, db')"
proof -
  have wf: "wf db" using inv by (simp add: ledger_inv_def)
  consider (1) "db' = db" "a \<noteq> ReleaseDone"
    | (2) r d db1 w db2 ids where "findReservation s db = Some r" "cr_organizationId r = org"
        "is_held r" "a = ReleaseDone" "releaseReservationRow r now reason db = Inr (d, db1)"
        "moveCredits org d (-1) db1 = Inr (w, db2)" "expireDueLotsInTx org now db2 = Inr (ids, db')"
    using run unfolding releaseTx_def is_held_def
    by (auto simp: tx_Inr split: option.splits if_splits)
  then show thesis
  proof cases
    case 1
    then show ?thesis by (rule same)
  next
    case 2
    have "r \<in> set (reservations db)" using 2(1) wf_find_reservation [OF wf] by simp
    then have "inv_off org (0 + d) (0 - 1) db1"
      using release_row_inv [OF _ _ 2(3,2,5), of 0 0] inv by (simp add: inv_off_0)
    then have "ledger_inv db2" using hoareD [OF moveCredits_inv _ 2(6)] by simp
    then show ?thesis by (intro released [OF 2(1-6) _ 2(7)])
  qed
qed

lemma releaseTx_inv: "hoare ledger_inv (releaseTx org s now reason) (\<lambda>_. ledger_inv)"
proof (rule hoareI)
  fix db a db'
  assume inv: "ledger_inv db" and run: "releaseTx org s now reason db = Inr (a, db')"
  from run inv show "ledger_inv db'"
    by (cases rule: releaseTx_cases)
       (use inv hoareD [OF expireDueLotsInTx_inv] in blast)+
qed

lemma releaseExpiredTx_inv: "hoare ledger_inv (releaseExpiredTx org now) (\<lambda>_. ledger_inv)"
proof (rule hoareI)
  fix db a db'
  assume inv: "ledger_inv db" and run: "releaseExpiredTx org now db = Inr (a, db')"
  obtain n db1 ids where steps: "releaseExpiredReservationsInTx org now db = Inr (n, db1)"
      "expireDueLotsInTx org now db1 = Inr (ids, db')"
    using run by (auto simp: releaseExpiredTx_def tx_Inr)
  have "ledger_inv db1"
    using hoareD [OF releaseExpiredReservationsInTx_inv [of "{}"] _ steps(1)] inv
    by (simp add: keeps_rows_def)
  then show "ledger_inv db'" using hoareD [OF expireDueLotsInTx_inv _ steps(2)] by simp
qed

section \<open>New wallets and new lots\<close>

lemma payments_append:
  assumes "payments_unique ls"
    and "\<forall>x\<in>set ls. cl_stripePaymentIntentId l \<noteq> None \<longrightarrow>
       cl_stripePaymentIntentId x \<noteq> cl_stripePaymentIntentId l"
  shows "payments_unique (ls @ [l])"
  unfolding payments_unique_def
proof (intro ballI impI)
  fix x y
  assume a: "x \<in> set (ls @ [l])" "y \<in> set (ls @ [l])"
    and p: "cl_stripePaymentIntentId x \<noteq> None"
      "cl_stripePaymentIntentId x = cl_stripePaymentIntentId y"
  have "x = l \<or> x \<in> set ls" "y = l \<or> y \<in> set ls" using a by simp_all
  then consider (old) "x \<in> set ls" "y \<in> set ls" | (new) "x = l" "y = l"
    using assms(2) p by metis
  then show "cl_id x = cl_id y"
  proof cases
    case old
    then show ?thesis using assms(1) p unfolding payments_unique_def by metis
  qed simp
qed

lemma new_lot_inv:
  assumes inv: "inv_off org a r db" and w: "org \<in> cw_organizationId ` set (wallets db)"
    and fresh: "cl_id l \<notin> cl_id ` set (lots db)"
      "\<forall>x\<in>set (lots db). cl_stripePaymentIntentId l \<noteq> None \<longrightarrow>
         cl_stripePaymentIntentId x \<noteq> cl_stripePaymentIntentId l"
    and l: "cl_organizationId l = org" "cl_status l = Known Active" "cl_creditsReserved l = 0"
      "cl_creditsConsumed l = 0" "lot_ok l"
    and cur: "\<And>v. v \<in> set (wallets db) \<Longrightarrow> cw_organizationId v = org \<Longrightarrow>
      cw_settlementCurrency v \<noteq> None \<Longrightarrow> cl_kind l = Known Paid \<Longrightarrow>
      cw_settlementCurrency v = Some (cl_currency l)"
    and e: "ce_organizationId e = org" "ce_delta e = lotAvailable l"
  shows "inv_off org (a + lotAvailable l) r (db\<lparr>lots := lots db @ [l], entries := entries db @ [e]\<rparr>)"
proof -
  let ?db = "db\<lparr>lots := lots db @ [l], entries := entries db @ [e]\<rparr>"
  have wf: "wf db" using inv by (rule inv_off_wf)
  have no: "cr_lotId x \<noteq> cl_id l" if "x \<in> set (reservations db)" for x
    using that wf fresh(1) unfolding wf_def refs_ok_def by (metis image_eqI)
  then have "holds (cl_id l) (reservations db) = 0" "captures (cl_id l) (reservations db) = 0"
    unfolding holds_def captures_def by (auto intro!: sum_by_zero)
  then have "lots_ok ?db" using wf l by (auto simp: wf_def lots_ok_def)
  moreover have "payments_unique (lots db @ [l])"
    by (rule payments_append) (use wf fresh(2) in \<open>auto simp: wf_def keys_ok_def\<close>)
  then have "keys_ok ?db" using wf fresh(1) by (auto simp: wf_def keys_ok_def)
  moreover have "refs_ok ?db" using wf w l(1) e(1) by (auto simp: wf_def refs_ok_def)
  moreover have "currency_ok ?db"
    using wf cur l(1) by (auto simp: wf_def currency_ok_def)
  ultimately have "wf ?db" by (simp add: wf_def)
  then show ?thesis
    using inv l e by (auto simp: inv_off_def wallet_balanced_def activeAvailable_def reservedOf_def deltaOf_def)
qed

lemma new_wallet_inv:
  assumes inv: "ledger_inv db" and fresh: "cw_organizationId w \<notin> cw_organizationId ` set (wallets db)"
    and w: "cw_reservedCredits w = 0" "cw_settlementCurrency w = None"
  shows "inv_off (cw_organizationId w) (- cw_availableCredits w) 0 (db\<lparr>wallets := wallets db @ [w]\<rparr>)"
proof -
  let ?org = "cw_organizationId w"
  have wf: "wf db" using inv by (simp add: ledger_inv_def)
  then have no: "\<forall>l\<in>set (lots db). cl_organizationId l \<noteq> ?org"
      "\<forall>e\<in>set (entries db). ce_organizationId e \<noteq> ?org"
    using fresh unfolding wf_def refs_ok_def by metis+
  then have "sum_by (activeAvailable ?org) (lots db) = 0" "sum_by (reservedOf ?org) (lots db) = 0"
      "sum_by (deltaOf ?org) (entries db) = 0"
    by (auto intro!: sum_by_zero simp: activeAvailable_def reservedOf_def deltaOf_def)
  moreover have "wf (db\<lparr>wallets := wallets db @ [w]\<rparr>)"
    using wf fresh w by (auto simp: wf_def keys_ok_def refs_ok_def lots_ok_def currency_ok_def)
  moreover have "\<forall>v\<in>set (wallets db). cw_organizationId v \<noteq> ?org" using fresh by (metis image_eqI)
  ultimately show ?thesis
    using inv w by (auto simp: inv_off_def ledger_inv_def wallet_balanced_def)
qed

lemma ensureWalletTx_inv:
  "hoare ledger_inv (ensureWalletTx wid lid org now days) (\<lambda>_. ledger_inv)"
proof (rule hoareI)
  fix db a db'
  assume inv: "ledger_inv db" and run: "ensureWalletTx wid lid org now days db = Inr (a, db')"
  show "ledger_inv db'"
  proof (cases "findWallet org db")
    case (Some w)
    with run inv show ?thesis by (simp add: ensureWalletTx_def tryLockWallet_def tx_Inr)
  next
    case None
    define w where "w = \<lparr>cw_id = wid, cw_organizationId = org,
        cw_availableCredits = FIRST_FIVE_CREDITS, cw_reservedCredits = 0,
        cw_stripeCustomerId = None, cw_settlementCurrency = None\<rparr>"
    define l where "l = firstFiveLot lid org now days"
    define e where "e = \<lparr>ce_organizationId = org, ce_lotId = cl_id l,
        ce_type = free_grant, ce_delta = FIRST_FIVE_CREDITS, ce_candidateSessionId = None,
        ce_stripeEventId = None, ce_actorKind = system, ce_reason = Some ''first_five''\<rparr>"
    obtain db1 rw db2 rl where steps: "createWallet w db = Inr (rw, db1)"
        "createLot l db1 = Inr (rl, db2)" "createEntry (e\<lparr>ce_lotId := cl_id rl\<rparr>) db2 = Inr ((), db')"
      using run None unfolding w_def l_def e_def
      by (auto simp: ensureWalletTx_def tryLockWallet_def tx_Inr)
    have c1: "db1 = db\<lparr>wallets := wallets db @ [w]\<rparr>" "org \<notin> cw_organizationId ` set (wallets db)"
      using createWallet_Inr [OF steps(1)] by (auto simp: w_def)
    note c2 = createLot_Inr [OF steps(2)]
    have db': "db' = db1\<lparr>lots := lots db1 @ [l], entries := entries db1 @ [e]\<rparr>"
      using steps(3) c2 by (auto simp: createEntry_Inr e_def)
    have "inv_off org (- FIRST_FIVE_CREDITS) 0 db1"
      using new_wallet_inv [OF inv, of w] c1 by (simp add: w_def)
    then have "inv_off org (- FIRST_FIVE_CREDITS + lotAvailable l) 0 db'"
      unfolding db' using c1 c2
      by (intro new_lot_inv)
         (auto simp: l_def firstFiveLot_def lot_ok_def e_def lotAvailable_def FIRST_FIVE_CREDITS_def w_def)
    then show ?thesis
      by (simp add: l_def firstFiveLot_def lotAvailable_def inv_off_0)
  qed
qed

lemma currencyGateTx_inv:
  assumes inv: "ledger_inv db" and run: "currencyGateTx org cur db = Inr (g, db')"
  shows "ledger_inv db' \<and> lots db' = lots db \<and>
    (g = None \<longrightarrow> (\<exists>w. findWallet org db' = Some w \<and> cw_settlementCurrency w = Some cur))"
proof -
  have wf: "wf db" using inv by (simp add: ledger_inv_def)
  obtain w where w: "findWallet org db = Some w"
    using run by (auto simp: currencyGateTx_def tx_Inr db_Inr)
  then have wm: "w \<in> set (wallets db)" "cw_organizationId w = org"
    using wf_find_wallet [OF wf] by auto
  define f :: "CreditWallet \<Rightarrow> CreditWallet" where "f = (\<lambda>w. w\<lparr>cw_settlementCurrency := Some cur\<rparr>)"
  consider (same) "db' = db" "g = None \<longrightarrow> cw_settlementCurrency w = Some cur"
    | (locks) "\<forall>l\<in>set (lots db). cl_organizationId l = org \<longrightarrow> cl_kind l = Known Paid \<longrightarrow>
         cl_currency l = cur" "db' = db\<lparr>wallets := update_row cw_organizationId org f (wallets db)\<rparr>"
    using run w unfolding f_def
    by (auto simp: currencyGateTx_def tx_Inr db_Inr find_None_iff split: option.splits if_splits)
  then show ?thesis
  proof cases
    case same
    with inv w show ?thesis by auto
  next
    case locks
    have orgs: "map cw_organizationId (update_row cw_organizationId org f (wallets db))
        = map cw_organizationId (wallets db)"
      by (intro map_update_row) (simp add: f_def)
    then have imgs: "cw_organizationId ` set (update_row cw_organizationId org f (wallets db))
        = cw_organizationId ` set (wallets db)"
      by (metis list.set_map)
    have "currency_ok db'"
      using wf locks by (auto simp: wf_def currency_ok_def set_update_row f_def)
    then have "wf db'"
      using wf orgs imgs by (simp add: locks wf_def keys_ok_def refs_ok_def lots_ok_def)
    moreover have "\<forall>w\<in>set (wallets db'). wallet_balanced db' w 0 0"
      using inv by (auto simp: locks ledger_inv_def wallet_balanced_def set_update_row f_def)
    moreover have "findWallet org db' = Some (f w)"
      using w by (simp add: locks findWallet_def row_simps f_def)
    ultimately show ?thesis by (simp add: ledger_inv_def locks f_def)
  qed
qed

lemma grantWritesTx_inv:
  assumes inv: "ledger_inv db" and amount: "0 \<le> gi_creditsGranted i"
    and cur: "\<And>w. findWallet (gi_organizationId i) db = Some w \<Longrightarrow> cw_settlementCurrency w \<noteq> None \<Longrightarrow>
      cw_settlementCurrency w = Some (js_toUpperCase (gi_currency i))"
    and run: "grantWritesTx lid i db = Inr (g, db')"
  shows "ledger_inv db'"
proof -
  have wf: "wf db" using inv by (simp add: ledger_inv_def)
  define l where "l = purchasedLot lid i"
  define e where "e = \<lparr>ce_organizationId = gi_organizationId i, ce_lotId = cl_id l,
         ce_type = pack_purchase, ce_delta = gi_creditsGranted i, ce_candidateSessionId = None,
         ce_stripeEventId = gi_stripeEventId i, ce_actorKind = stripe_webhook,
         ce_reason = Some (gi_packId i)\<rparr>"
  obtain rl db1 db2 w where steps: "createLot l db = Inr (rl, db1)"
      "createEntry (e\<lparr>ce_lotId := cl_id rl\<rparr>) db1 = Inr ((), db2)"
      "moveCredits (gi_organizationId i) (gi_creditsGranted i) 0 db2 = Inr (w, db')"
    using run unfolding l_def e_def by (auto simp: grantWritesTx_def tx_Inr)
  note c = createLot_Inr [OF steps(1)]
  have db2: "db2 = db\<lparr>lots := lots db @ [l], entries := entries db @ [e]\<rparr>"
    using steps(2) c by (auto simp: createEntry_Inr e_def)
  obtain v where v: "findWallet (gi_organizationId i) db = Some v"
    using steps(3) by (auto simp: moveCredits_def updateWallet_Inr db2 findWallet_def)
  have "inv_off (gi_organizationId i) (0 + lotAvailable l) 0 db2"
    unfolding db2
  proof (rule new_lot_inv)
    show "gi_organizationId i \<in> cw_organizationId ` set (wallets db)"
      using v wf_find_wallet [OF wf] by (metis image_eqI)
    show "lot_ok l" using amount by (simp add: lot_ok_def l_def purchasedLot_def)
    fix u
    assume u: "u \<in> set (wallets db)" "cw_organizationId u = gi_organizationId i"
      "cw_settlementCurrency u \<noteq> None"
    then show "cw_settlementCurrency u = Some (cl_currency l)"
      using cur wf_find_wallet [OF wf] by (simp add: l_def purchasedLot_def)
  qed (use inv c in \<open>auto simp: inv_off_0 l_def purchasedLot_def e_def lotAvailable_def\<close>)
  then show ?thesis
    using hoareD [OF moveCredits_inv _ steps(3)]
    by (simp add: l_def purchasedLot_def lotAvailable_def)
qed

lemma currencyGateTx_mismatch:
  "currencyGateTx org cur db = Inr (Some m, db') \<Longrightarrow>
   db' = db \<and> (\<exists>locked. m = CurrencyMismatch locked cur \<and> locked \<noteq> cur)"
  by (auto simp: currencyGateTx_def tx_Inr db_Inr find_Some_iff split: option.splits if_splits)

lemma grantWritesTx_tripwire:
  assumes "findLotByPayment (gi_stripePaymentIntentId i) db \<noteq> None"
  shows "grantWritesTx lid i db = Inl UniqueViolation"
proof -
  obtain x where x: "x \<in> set (lots db)" "cl_stripePaymentIntentId x = Some (gi_stripePaymentIntentId i)"
    using assms by (auto simp: findLotByPayment_def dest: find_row_SomeD)
  then have "createLot (purchasedLot lid i) db = Inl UniqueViolation"
    by (auto simp: createLot_def clashes_def list_ex_iff purchasedLot_def)
  then show ?thesis by (simp add: grantWritesTx_def tx_bind_def)
qed

lemma grantTx_cases [consumes 1, case_names already mismatch granted]:
  assumes run: "grantTx lid i db = Inr (a, db')"
  obtains (already) l where "findLotByPayment (gi_stripePaymentIntentId i) db = Some l"
      "cl_organizationId l = gi_organizationId i" "a = AlreadyGranted" "db' = db"
    | (mismatch) locked where "findLotByPayment (gi_stripePaymentIntentId i) db = None"
      "a = CurrencyMismatch locked (js_toUpperCase (gi_currency i))"
      "locked \<noteq> js_toUpperCase (gi_currency i)" "db' = db"
    | (granted) d where "findLotByPayment (gi_stripePaymentIntentId i) db = None"
      "currencyGateTx (gi_organizationId i) (js_toUpperCase (gi_currency i)) db = Inr (None, d)"
      "grantWritesTx lid i d = Inr (a, db')"
proof (cases "findLotByPayment (gi_stripePaymentIntentId i) db")
  case None
  then obtain g d where g: "currencyGateTx (gi_organizationId i) (js_toUpperCase (gi_currency i)) db = Inr (g, d)"
      and rest: "(case g of Some m \<Rightarrow> tx_return m | None \<Rightarrow> grantWritesTx lid i) d = Inr (a, db')"
    using run by (auto simp: grantTx_def tx_Inr)
  show thesis
  proof (cases g)
    case (Some m)
    then have "a = m" "db' = d" using rest by (simp_all add: tx_Inr)
    with currencyGateTx_mismatch [OF g [unfolded Some]] None show ?thesis using mismatch by metis
  qed (use g rest None granted in simp)
next
  case (Some l)
  then show thesis
    using run already grantWritesTx_tripwire [of i db lid]
    by (auto simp: grantTx_def tx_Inr split: if_splits)
qed

lemma grantTx_inv:
  assumes "0 \<le> gi_creditsGranted i"
  shows "hoare ledger_inv (grantTx lid i) (\<lambda>_. ledger_inv)"
proof (rule hoareI)
  fix db a db'
  assume inv: "ledger_inv db" and run: "grantTx lid i db = Inr (a, db')"
  from run show "ledger_inv db'"
  proof (cases rule: grantTx_cases)
    case (granted d)
    note g = currencyGateTx_inv [OF inv granted(2)]
    show ?thesis
      by (rule grantWritesTx_inv [OF conjunct1 [OF g] assms _ granted(3)]) (use g in auto)
  qed (use inv in simp_all)
qed

end
