(* ===== verification/LedgerApi.thy ===== *)
theory LedgerApi
  imports LedgerPreserve
begin

text \<open>
  The exported functions of the ledger and the interleavings they take part in. The atomic
  unit is one committed transaction (\<open>ledger_step\<close>): between two transactions of one
  caller any transaction of another may run, so what is proved of every reachable state
  holds for concurrent callers. The wallet lock of the source makes two transactions of
  one organization exclude each other; transactions of different organizations touch
  different rows.
\<close>

section \<open>The retry loop commits at most once\<close>

lemma runAttempts_cases:
  assumes "runAttempts n k flt work db = (r, db')"
  shows "(\<exists>e. r = Inl e \<and> db' = db) \<or>
    (\<exists>a j. k \<le> j \<and> j < k + n \<and> r = Inr a \<and> work db = Inr (a, db') \<and> flt j = None \<and>
       (\<forall>i. k \<le> i \<longrightarrow> i < j \<longrightarrow> flt i = Some TransactionExpired))"
  using assms
proof (induction n arbitrary: k)
  case 0
  then show ?case by auto
next
  case (Suc n)
  show ?case
  proof (cases "attemptTransaction flt k work db")
    case (Inr p)
    then have "flt k = None" "work db = Inr p"
      by (auto simp: attemptTransaction_def split: option.splits)
    with Inr Suc.prems show ?thesis
      by (cases p) (intro disjI2 exI [of _ "fst p"] exI [of _ k], auto)
  next
    case (Inl e)
    show ?thesis
    proof (cases "e = TransactionExpired")
      case False
      with Inl Suc.prems show ?thesis by (auto simp add: isTransactionExpired_def)
    next
      case True
      with Inl Suc.prems have rest: "runAttempts n (Suc k) flt work db = (r, db')"
        by (simp add: isTransactionExpired_def)
      from Suc.IH [OF rest] show ?thesis
      proof (elim disjE exE conjE)
        fix a j
        assume j: "Suc k \<le> j" "j < Suc k + n" "r = Inr a" "work db = Inr (a, db')" "flt j = None"
          "\<forall>i. Suc k \<le> i \<longrightarrow> i < j \<longrightarrow> flt i = Some TransactionExpired"
        have "flt k = Some TransactionExpired"
          using Inl True j(4) by (auto simp: attemptTransaction_def split: option.splits)
        then have "\<forall>i. k \<le> i \<longrightarrow> i < j \<longrightarrow> flt i = Some TransactionExpired"
          using j(6) by (metis Suc_leI le_neq_implies_less)
        then show ?thesis using j by (intro disjI2 exI [of _ a] exI [of _ j]) auto
      qed auto
    qed
  qed
qed

lemma runTransaction_cases:
  assumes "runTransaction flt work db = (r, db')"
  obtains (rolled_back) e where "r = Inl e" "db' = db"
    | (committed) a where "r = Inr a" "work db = Inr (a, db')"
  using runAttempts_cases [OF assms [unfolded runTransaction_def]] by blast

lemma runInWallet_cases:
  assumes "runInWalletTransaction flt org work db = (r, db')"
  obtains (rolled_back) e where "r = Inl e" "db' = db"
    | (committed) a w where "r = Inr a" "findWallet org db = Some w" "work db = Inr (a, db')"
proof (rule runTransaction_cases [OF assms [unfolded runInWalletTransaction_def]])
  fix a
  assume "r = Inr a" "tx_then (lockWallet org) work db = Inr (a, db')"
  then show thesis
    by (intro committed [of a "the (findWallet org db)"])
       (auto simp: tx_Inr lockWallet_def tryLockWallet_def split: option.splits)
qed (rule rolled_back)

text \<open>Without faults the first attempt decides.\<close>

lemma runTransaction_no_faults:
  "work db = Inr (a, db') \<Longrightarrow> runTransaction no_faults work db = (Inr a, db')"
  by (simp add: runTransaction_def TRANSACTION_RETRY_ATTEMPTS_def numeral_3_eq_3
      attemptTransaction_def no_faults_def)

lemma runInWallet_no_faults:
  "findWallet org db = Some w \<Longrightarrow> work db = Inr (a, db') \<Longrightarrow>
   runInWalletTransaction no_faults org work db = (Inr a, db')"
  unfolding runInWalletTransaction_def
  by (rule runTransaction_no_faults) (auto simp: tx_Inr lockWallet_def tryLockWallet_def)

section \<open>Atomic steps and reachable states\<close>

inductive ledger_step :: "credit_db \<Rightarrow> credit_db \<Rightarrow> bool" where
  step_wallet: "ensureWalletTx wid lid org now days db = Inr (r1, db') \<Longrightarrow> ledger_step db db'"
| step_grant: "0 < gi_creditsGranted i \<Longrightarrow> 0 \<le> gi_unitAmountCents i \<Longrightarrow>
    grantTx lid i db = Inr (r2, db') \<Longrightarrow> ledger_step db db'"
| step_freeze: "lockedLotTx lid (freezeLotTx ev now) db = Inr (r3, db') \<Longrightarrow> ledger_step db db'"
| step_resolve: "lockedLotTx lid (resolveDisputeTx disp ev now) db = Inr (r3, db') \<Longrightarrow> ledger_step db db'"
| step_revoke: "lockedLotTx lid (revokeLotTx refunded charged ev) db = Inr (r3, db') \<Longrightarrow> ledger_step db db'"
| step_reserve: "reserveTx rid org s now db = Inr (r4, db') \<Longrightarrow> ledger_step db db'"
| step_capture: "captureTx org s now db = Inr (r5, db') \<Longrightarrow> ledger_step db db'"
| step_release: "releaseTx org s now reason db = Inr (r6, db') \<Longrightarrow> ledger_step db db'"
| step_release_expired: "releaseExpiredTx org now db = Inr (r7, db') \<Longrightarrow> ledger_step db db'"
| step_expire: "expireDueLotsInTx org now db = Inr (r8, db') \<Longrightarrow> ledger_step db db'"
| step_customer: "setStripeCustomer wid cid db = Inr (r9, db') \<Longrightarrow> ledger_step db db'"

inductive_cases ledger_stepE: "ledger_step db db'"

definition empty_db :: credit_db where
  "empty_db = \<lparr>wallets = [], lots = [], entries = [], reservations = []\<rparr>"

definition ledger_reachable :: "credit_db \<Rightarrow> bool" where
  "ledger_reachable db \<longleftrightarrow> ledger_step\<^sup>*\<^sup>* empty_db db"

lemma lockedLot_inv:
  assumes "\<And>lot. hoare (\<lambda>db. ledger_inv db \<and> findLot (cl_id lot) db = Some lot) (work lot) (\<lambda>_. ledger_inv)"
    and "ledger_inv db" and "lockedLotTx lid work db = Inr (r, db')"
  shows "ledger_inv db'"
proof -
  obtain lot where "findLot lid db = Some lot" "work lot db = Inr (r, db')"
    using assms(3) by (auto simp: lockedLotTx_def tx_Inr db_Inr)
  moreover have "cl_id lot = lid"
    using calculation(1) by (auto simp: findLot_def dest: find_row_SomeD)
  ultimately show ?thesis using hoareD [OF assms(1)] assms(2) by metis
qed

lemma setStripeCustomer_Inr:
  assumes "setStripeCustomer wid cid db = Inr (r, db')"
  shows "db' = db\<lparr>wallets := update_row cw_id wid (\<lambda>w. w\<lparr>cw_stripeCustomerId := Some cid\<rparr>) (wallets db)\<rparr>"
  using assms by (auto simp: setStripeCustomer_def split: option.splits if_splits)

lemma setStripeCustomer_inv:
  assumes "ledger_inv db" and "setStripeCustomer wid cid db = Inr (r, db')"
  shows "ledger_inv db'"
proof -
  note db' = setStripeCustomer_Inr [OF assms(2)]
  have wf: "wf db" and bal: "\<forall>w\<in>set (wallets db). wallet_balanced db w 0 0"
    using assms(1) by (simp_all add: ledger_inv_def)
  have "keys_ok db'" "refs_ok db'" "lots_ok db'"
    using wf by (simp_all add: db' wf_def keys_ok_def refs_ok_def lots_ok_def row_simps)
  moreover have "currency_ok db'"
    using wf by (auto simp: db' wf_def currency_ok_def set_update_row)
  moreover have "\<forall>w\<in>set (wallets db'). wallet_balanced db' w 0 0"
    using bal by (auto simp: db' wallet_balanced_def set_update_row)
  ultimately show ?thesis by (simp add: ledger_inv_def wf_def)
qed

lemma ledger_step_inv:
  assumes "ledger_step db db'" and "ledger_inv db"
  shows "ledger_inv db'"
  using assms(1)
proof (cases rule: ledger_step.cases)
  case (step_wallet wid lid org now days r)
  show ?thesis by (rule hoareD [OF ensureWalletTx_inv assms(2) step_wallet])
next
  case (step_grant i lid r)
  show ?thesis by (rule hoareD [OF grantTx_inv assms(2) step_grant(3)]) (use step_grant(1) in simp)
next
  case (step_freeze lid ev now r)
  show ?thesis by (rule lockedLot_inv [OF freezeLotTx_inv assms(2) step_freeze])
next
  case (step_resolve lid disp ev now r)
  show ?thesis by (rule lockedLot_inv [OF resolveDisputeTx_inv assms(2) step_resolve])
next
  case (step_revoke lid refunded charged ev r)
  show ?thesis by (rule lockedLot_inv [OF revokeLotTx_inv assms(2) step_revoke])
next
  case (step_reserve rid org s now r)
  show ?thesis by (rule hoareD [OF reserveTx_inv assms(2) step_reserve])
next
  case (step_capture org s now r)
  show ?thesis by (rule hoareD [OF captureTx_inv assms(2) step_capture])
next
  case (step_release org s now reason r)
  show ?thesis by (rule hoareD [OF releaseTx_inv assms(2) step_release])
next
  case (step_release_expired org now r)
  show ?thesis by (rule hoareD [OF releaseExpiredTx_inv assms(2) step_release_expired])
next
  case (step_expire org now r)
  show ?thesis using hoareD [OF expireDueLotsInTx_inv _ step_expire] assms(2) by simp
next
  case (step_customer wid cid r)
  then show ?thesis by (rule setStripeCustomer_inv [OF assms(2)])
qed

lemma empty_inv: "ledger_inv empty_db"
  by (simp add: empty_db_def ledger_inv_def wf_def keys_ok_def refs_ok_def lots_ok_def
      currency_ok_def payments_unique_def)

lemma reachable_inv: "ledger_reachable db \<Longrightarrow> ledger_inv db"
  unfolding ledger_reachable_def
  by (induction rule: rtranclp_induct) (auto intro: empty_inv ledger_step_inv)

section \<open>The exported functions are sequences of atomic steps\<close>

lemma ensureWallet_steps:
  assumes "ensureWallet flt ids org now days db = (r, db')"
  shows "db' = db \<or> ledger_step db db'"
proof (cases "findWallet org db")
  case (Some w)
  with assms show ?thesis by (simp add: ensureWallet_def)
next
  case None
  let ?days = "case days of None \<Rightarrow> FIRST_FIVE_EXPIRY_DAYS | Some d \<Rightarrow> d"
  obtain q db1 where run: "runTransaction flt (ensureWalletTx (fresh_walletId ids) (fresh_freeLotId ids)
      org now ?days) db = (q, db1)"
    by (metis surj_pair)
  moreover have "db' = db1"
    using assms run None by (auto simp: ensureWallet_def Let_def split: sum.splits option.splits if_splits)
  moreover have "db1 = db \<or> ledger_step db db1"
    by (rule runTransaction_cases [OF run]) (auto intro: step_wallet)
  ultimately show ?thesis by simp
qed

text \<open>After \<open>ensureWallet\<close> answers an id, the wallet exists.\<close>

lemma ensureWallet_exists:
  assumes "ensureWallet flt ids org now days db = (Inr wid, db')"
  shows "\<exists>w. findWallet org db' = Some w"
proof (cases "findWallet org db")
  case (Some w)
  with assms show ?thesis by (simp add: ensureWallet_def)
next
  case None
  let ?days = "case days of None \<Rightarrow> FIRST_FIVE_EXPIRY_DAYS | Some d \<Rightarrow> d"
  obtain q db1 where run: "runTransaction flt (ensureWalletTx (fresh_walletId ids) (fresh_freeLotId ids)
      org now ?days) db = (q, db1)"
    by (metis surj_pair)
  show ?thesis
  proof (rule runTransaction_cases [OF run])
    fix e
    assume "q = Inl e" "db1 = db"
    with assms run None show ?thesis by (auto simp: ensureWallet_def Let_def split: if_splits)
  next
    fix a
    assume "q = Inr a" "ensureWalletTx (fresh_walletId ids) (fresh_freeLotId ids) org now ?days db = Inr (a, db1)"
    moreover have "db' = db1" using assms run None calculation by (simp add: ensureWallet_def Let_def)
    ultimately show ?thesis using None
      by (auto simp: ensureWalletTx_def tryLockWallet_def tx_Inr createEntry_Inr
          findWallet_def find_row_append dest!: createWallet_Inr createLot_Inr split: option.splits)
  qed
qed

lemma grant_steps:
  assumes "grantPurchasedCreditLot flt ids i db = (r, db')"
  shows "ledger_step\<^sup>*\<^sup>* db db'"
proof (cases "gi_creditsGranted i \<le> 0 \<or> gi_unitAmountCents i < 0")
  case True
  with assms show ?thesis by (simp add: grantPurchasedCreditLot_def)
next
  case False
  obtain q db1 where ens: "ensureWallet (fst flt) ids (gi_organizationId i) (gi_now i)
      (Some PAID_CREDIT_EXPIRY_DAYS) db = (q, db1)"
    by (metis surj_pair)
  have first: "ledger_step\<^sup>*\<^sup>* db db1" using ensureWallet_steps [OF ens] by auto
  obtain g db2 where run: "runInWalletTransaction (snd flt) (gi_organizationId i)
      (grantTx (fresh_lotId ids) i) db1 = (g, db2)"
    by (metis surj_pair)
  have "db1 = db2 \<or> ledger_step db1 db2"
    by (rule runInWallet_cases [OF run]) (use False step_grant [of i] in fastforce)+
  moreover have "db' = db1 \<or> db' = db2"
    using assms False ens run
    by (auto simp: grantPurchasedCreditLot_def split: sum.splits option.splits if_splits)
  ultimately show ?thesis using first by (auto intro: rtranclp.rtrancl_into_rtrancl)
qed

lemma locked_lot_steps:
  assumes run: "withLockedLotForPayment flt payment work db = (r, db')"
    and step: "\<And>lid a d. lockedLotTx lid work d = Inr (a, d') \<Longrightarrow> ledger_step d d'"
  shows "db' = db \<or> (\<exists>lid a. lockedLotTx lid work db = Inr (a, db'))"
proof (cases "findLotByPayment payment db")
  case None
  with run show ?thesis by (simp add: withLockedLotForPayment_def)
next
  case (Some located)
  with run have "runInWalletTransaction flt (cl_organizationId located)
      (lockedLotTx (cl_id located) work) db = (r, db')"
    by (simp add: withLockedLotForPayment_def)
  then show ?thesis by (rule runInWallet_cases) auto
qed

lemma adjustment_steps:
  "freezeLotForDispute flt p ev now db = (r, db') \<Longrightarrow> ledger_step\<^sup>*\<^sup>* db db'"
  "resolveDisputeOnLot flt p disp ev now db = (r, db') \<Longrightarrow> ledger_step\<^sup>*\<^sup>* db db'"
  "revokeUnconsumedLot flt p refunded charged ev db = (r, db') \<Longrightarrow> ledger_step\<^sup>*\<^sup>* db db'"
  unfolding freezeLotForDispute_def resolveDisputeOnLot_def revokeUnconsumedLot_def
  by (blast dest: locked_lot_steps intro: step_freeze step_resolve step_revoke)+

lemma reserve_steps:
  assumes "reserveCreditForSession flt ids org s now db = (r, db')"
  shows "ledger_step\<^sup>*\<^sup>* db db'"
proof -
  obtain q db1 where ens: "ensureWallet (fst flt) ids org now None db = (q, db1)"
    by (metis surj_pair)
  have first: "ledger_step\<^sup>*\<^sup>* db db1" using ensureWallet_steps [OF ens] by auto
  obtain g db2 where run: "runInWalletTransaction (snd flt) org
      (reserveTx (fresh_reservationId ids) org s now) db1 = (g, db2)"
    by (metis surj_pair)
  have "db1 = db2 \<or> ledger_step db1 db2"
    by (rule runInWallet_cases [OF run]) (auto intro: step_reserve)
  moreover have "db' = db1 \<or> db' = db2"
    using assms ens run by (auto simp: reserveCreditForSession_def split: sum.splits)
  ultimately show ?thesis using first by (auto intro: rtranclp.rtrancl_into_rtrancl)
qed

lemma session_steps:
  "captureReservationForSession f org s now db = (r5, db') \<Longrightarrow> ledger_step\<^sup>*\<^sup>* db db'"
  "releaseReservationForSession f org s now reason db = (r6, db') \<Longrightarrow> ledger_step\<^sup>*\<^sup>* db db'"
  "releaseExpiredReservations f org now db = (r7, db') \<Longrightarrow> ledger_step\<^sup>*\<^sup>* db db'"
  "expireDueLots f org now db = (r8, db') \<Longrightarrow> ledger_step\<^sup>*\<^sup>* db db'"
  unfolding captureReservationForSession_def releaseReservationForSession_def
    releaseExpiredReservations_def expireDueLots_def
  by (auto elim!: runInWallet_cases intro: step_capture step_release step_release_expired step_expire)

lemma reconcile_same:
  assumes "reconcileWallet flt org now db = (r, db')"
  shows "db' = db"
  by (rule runInWallet_cases [OF assms [unfolded reconcileWallet_def]])
     (auto simp: reconcileTx_def tx_Inr db_Inr Let_def)
end
