(* ===== verification/LedgerHistory.thy ===== *)
theory LedgerHistory
  imports LedgerApi
begin

text \<open>
  What no transaction ever undoes: the ledger is append-only, a lot keeps its identity and
  terms, a closed lot stays closed, a captured hold stays captured, a settlement currency
  once locked stays locked. \<open>evolves\<close> is the preorder; every atomic step is in it, so
  every later state of any interleaving is.
\<close>

definition closed_status :: "lot_status column \<Rightarrow> bool" where
  "closed_status v \<longleftrightarrow> v \<noteq> Known Active \<and> v \<noteq> Known Frozen"

definition lot_evolves :: "LotRow \<Rightarrow> LotRow \<Rightarrow> bool" where
  "lot_evolves l m \<longleftrightarrow> cl_id m = cl_id l \<and> cl_organizationId m = cl_organizationId l \<and>
     cl_kind m = cl_kind l \<and> cl_creditsGranted m = cl_creditsGranted l \<and>
     cl_unitAmountCents m = cl_unitAmountCents l \<and> cl_currency m = cl_currency l \<and>
     cl_grantedAt m = cl_grantedAt l \<and> cl_expiresAt m = cl_expiresAt l \<and>
     cl_stripePaymentIntentId m = cl_stripePaymentIntentId l \<and>
     cl_creditsConsumed l \<le> cl_creditsConsumed m \<and>
     (closed_status (cl_status l) \<longrightarrow> cl_status m = cl_status l)"

definition wallet_evolves :: "CreditWallet \<Rightarrow> CreditWallet \<Rightarrow> bool" where
  "wallet_evolves w v \<longleftrightarrow> cw_id v = cw_id w \<and> cw_organizationId v = cw_organizationId w \<and>
     (cw_settlementCurrency w \<noteq> None \<longrightarrow> cw_settlementCurrency v = cw_settlementCurrency w)"

definition reservation_evolves :: "ReservationRow \<Rightarrow> ReservationRow \<Rightarrow> bool" where
  "reservation_evolves r q \<longleftrightarrow> cr_id q = cr_id r \<and>
     cr_candidateSessionId q = cr_candidateSessionId r \<and>
     cr_organizationId q = cr_organizationId r \<and> (cr_status r = Known Captured \<longrightarrow> q = r)"

definition rows_evolve :: "('r \<Rightarrow> 'r \<Rightarrow> bool) \<Rightarrow> 'r list \<Rightarrow> 'r list \<Rightarrow> bool" where
  "rows_evolve R xs ys \<longleftrightarrow> (\<forall>x\<in>set xs. \<exists>y\<in>set ys. R x y)"

definition evolves :: "credit_db \<Rightarrow> credit_db \<Rightarrow> bool" where
  "evolves db db' \<longleftrightarrow> rows_evolve lot_evolves (lots db) (lots db') \<and>
     rows_evolve wallet_evolves (wallets db) (wallets db') \<and>
     rows_evolve reservation_evolves (reservations db) (reservations db') \<and>
     (\<exists>es. entries db' = entries db @ es)"

lemma rows_evolve_refl: "(\<And>x. R x x) \<Longrightarrow> rows_evolve R xs xs"
  by (auto simp: rows_evolve_def)

lemma rows_evolve_trans:
  "(\<And>x y z. R x y \<Longrightarrow> R y z \<Longrightarrow> R x z) \<Longrightarrow> rows_evolve R xs ys \<Longrightarrow> rows_evolve R ys zs \<Longrightarrow>
   rows_evolve R xs zs"
  unfolding rows_evolve_def by metis

lemma rows_evolve_update:
  "(\<And>x. R x x) \<Longrightarrow> (\<And>x. x \<in> set xs \<Longrightarrow> key x = k \<Longrightarrow> R x (f x)) \<Longrightarrow>
   rows_evolve R xs (update_row key k f xs)"
  unfolding rows_evolve_def update_row_def
  by (intro ballI, rule_tac x = "if key x = k then f x else x" in bexI) auto

lemma rows_evolve_append: "(\<And>x. R x x) \<Longrightarrow> rows_evolve R xs (xs @ ys)"
  by (auto simp: rows_evolve_def)

lemma row_evolves_refl [simp]:
  "lot_evolves l l" "wallet_evolves w w" "reservation_evolves r r"
  by (simp_all add: lot_evolves_def wallet_evolves_def reservation_evolves_def)

lemma lot_evolves_trans: "lot_evolves x y \<Longrightarrow> lot_evolves y z \<Longrightarrow> lot_evolves x z"
  unfolding lot_evolves_def by force

lemma wallet_evolves_trans: "wallet_evolves x y \<Longrightarrow> wallet_evolves y z \<Longrightarrow> wallet_evolves x z"
  unfolding wallet_evolves_def by force

lemma reservation_evolves_trans:
  "reservation_evolves x y \<Longrightarrow> reservation_evolves y z \<Longrightarrow> reservation_evolves x z"
  unfolding reservation_evolves_def by metis

lemma evolves_refl: "evolves db db"
  by (simp add: evolves_def rows_evolve_refl)

lemma evolves_trans:
  assumes "evolves a b" and "evolves b c"
  shows "evolves a c"
proof -
  have "rows_evolve lot_evolves (lots a) (lots c)"
    by (rule rows_evolve_trans [OF lot_evolves_trans]) (use assms in \<open>auto simp: evolves_def\<close>)
  moreover have "rows_evolve wallet_evolves (wallets a) (wallets c)"
    by (rule rows_evolve_trans [OF wallet_evolves_trans]) (use assms in \<open>auto simp: evolves_def\<close>)
  moreover have "rows_evolve reservation_evolves (reservations a) (reservations c)"
    by (rule rows_evolve_trans [OF reservation_evolves_trans]) (use assms in \<open>auto simp: evolves_def\<close>)
  moreover have "\<exists>es. entries c = entries a @ es" using assms by (auto simp: evolves_def)
  ultimately show ?thesis by (simp add: evolves_def)
qed

section \<open>The Prisma calls\<close>

lemma updateLot_evolves:
  "updateLot k f db = Inr (u, db') \<Longrightarrow>
   (\<And>l. l \<in> set (lots db) \<Longrightarrow> cl_id l = k \<Longrightarrow> lot_evolves l (f l)) \<Longrightarrow> evolves db db'"
  by (auto simp: updateLot_Inr evolves_def intro!: rows_evolve_update rows_evolve_refl)

lemma updateReservation_evolves:
  "updateReservation k f db = Inr (u, db') \<Longrightarrow>
   (\<And>r. r \<in> set (reservations db) \<Longrightarrow> cr_id r = k \<Longrightarrow> reservation_evolves r (f r)) \<Longrightarrow> evolves db db'"
  by (auto simp: updateReservation_Inr evolves_def intro!: rows_evolve_update rows_evolve_refl)

lemma updateWallet_evolves:
  "updateWallet k f db = Inr (u, db') \<Longrightarrow>
   (\<And>w. w \<in> set (wallets db) \<Longrightarrow> cw_organizationId w = k \<Longrightarrow> wallet_evolves w (f w)) \<Longrightarrow> evolves db db'"
  by (auto simp: updateWallet_Inr evolves_def intro!: rows_evolve_update rows_evolve_refl)

lemma moveCredits_evolves: "moveCredits org a r db = Inr (u, db') \<Longrightarrow> evolves db db'"
  unfolding moveCredits_def by (erule updateWallet_evolves) (simp add: wallet_evolves_def)

lemma createEntry_evolves: "createEntry e db = Inr (u, db') \<Longrightarrow> evolves db db'"
  by (auto simp: createEntry_Inr evolves_def rows_evolve_refl)

lemma create_evolves:
  "createWallet w db = Inr (v, db') \<Longrightarrow> evolves db db'"
  "createLot l db = Inr (m, db') \<Longrightarrow> evolves db db'"
  "createReservation r db = Inr (q, db') \<Longrightarrow> evolves db db'"
  by (auto simp: evolves_def rows_evolve_refl intro!: rows_evolve_append
      dest!: createWallet_Inr createLot_Inr createReservation_Inr)

lemma evolves_entry_move:
  assumes "evolves db db1" and "createEntry e db1 = Inr (u, db2)"
    and "moveCredits org a r db2 = Inr (w, db3)"
  shows "evolves db db3"
  using evolves_trans [OF evolves_trans [OF assms(1) createEntry_evolves [OF assms(2)]]
      moveCredits_evolves [OF assms(3)]] .

section \<open>The sweeps\<close>

definition expirable :: "string \<Rightarrow> credit_db \<Rightarrow> bool" where
  "expirable k db \<longleftrightarrow> (\<forall>l\<in>set (lots db). cl_id l = k \<longrightarrow>
     \<not> closed_status (cl_status l) \<or> cl_status l = Known Expired)"

definition uncaptured :: "string \<Rightarrow> credit_db \<Rightarrow> bool" where
  "uncaptured k db \<longleftrightarrow> (\<forall>r\<in>set (reservations db). cr_id r = k \<longrightarrow> cr_status r \<noteq> Known Captured)"

lemma expireRows_evolves:
  "expireRows org rows ids w db = Inr (r, db') \<Longrightarrow> \<forall>row\<in>set rows. expirable (cl_id row) db \<Longrightarrow>
   evolves db db'"
proof (induction rows arbitrary: ids w db)
  case Nil
  then show ?case by (simp add: tx_Inr evolves_refl)
next
  case (Cons row rows)
  define f :: "LotRow \<Rightarrow> LotRow" where "f = (\<lambda>l. l\<lparr>cl_status := Known Expired\<rparr>)"
  obtain ul db1 e u db2 ids' w' where steps: "updateLot (cl_id row) f db = Inr (ul, db1)"
      "createEntry e db1 = Inr (u, db2)" "expireRows org rows ids' w' db2 = Inr (r, db')"
    using Cons.prems(1) by (auto simp: tx_Inr Let_def f_def)
  have "evolves db db1"
    by (rule updateLot_evolves [OF steps(1)])
       (use Cons.prems(2) in \<open>auto simp: lot_evolves_def f_def expirable_def\<close>)
  moreover have "evolves db1 db2" by (rule createEntry_evolves [OF steps(2)])
  moreover have "evolves db2 db'"
    using Cons.prems(2) steps(1,2)
    by (intro Cons.IH [OF steps(3)])
       (auto simp: expirable_def updateLot_Inr createEntry_Inr set_update_row f_def)
  ultimately show ?case by (blast intro: evolves_trans)
qed

lemma expireDueLotsInTx_evolves:
  assumes "expireDueLotsInTx org now db = Inr (r, db')" and "wf db"
  shows "evolves db db'"
proof -
  define rows where "rows = filter (\<lambda>l. cl_organizationId l = org \<and> cl_status l = Known Active \<and>
      cl_expiresAt l \<le> now) (lots db)"
  consider (same) "db' = db" | (swept) ids w db1 where "expireRows org rows [] 0 db = Inr ((ids, w), db1)"
      "db' = db1 \<or> (\<exists>u. moveCredits org (- w) 0 db1 = Inr (u, db'))"
    using assms(1) by (auto simp: expireDueLotsInTx_def tx_Inr split: if_splits simp flip: rows_def)
  then show ?thesis
  proof cases
    case same
    then show ?thesis by (simp add: evolves_refl)
  next
    case swept
    have "\<forall>row\<in>set rows. expirable (cl_id row) db"
    proof
      fix row
      assume "row \<in> set rows"
      then have row: "findLot (cl_id row) db = Some row" "cl_status row = Known Active"
        using wf_find_lot [OF assms(2)] by (auto simp: rows_def)
      then show "expirable (cl_id row) db"
        using wf_find_lot [OF assms(2)] unfolding expirable_def closed_status_def
        by (metis option.inject)
    qed
    then have "evolves db db1" by (rule expireRows_evolves [OF swept(1)])
    with swept(2) show ?thesis using moveCredits_evolves evolves_trans by metis
  qed
qed

lemma releaseReservationRow_evolves:
  assumes run: "releaseReservationRow x now reason db = Inr (d, db')" and x: "uncaptured (cr_id x) db"
  shows "evolves db db' \<and> (\<forall>k. uncaptured k db \<longrightarrow> uncaptured k db')"
proof -
  define f :: "LotRow \<Rightarrow> LotRow" where "f = (\<lambda>l. l\<lparr>cl_creditsReserved := cl_creditsReserved l - 1\<rparr>)"
  define g :: "ReservationRow \<Rightarrow> ReservationRow" where
    "g = (\<lambda>y. y\<lparr>cr_status := Known Released, cr_resolvedAt := Some now\<rparr>)"
  obtain ul db1 ur db2 e u db3 where steps: "updateLot (cr_lotId x) f db = Inr (ul, db1)"
      "updateReservation (cr_id x) g db1 = Inr (ur, db2)" "createEntry e db2 = Inr (u, db3)"
      "db' = db3 \<or> (\<exists>e' u'. createEntry e' db3 = Inr (u', db'))"
    using run unfolding releaseReservationRow_def f_def g_def
    by (auto simp: tx_Inr split: if_splits) blast
  have "evolves db db1"
    by (rule updateLot_evolves [OF steps(1)]) (simp add: lot_evolves_def f_def)
  moreover have "evolves db1 db2"
    by (rule updateReservation_evolves [OF steps(2)])
       (use x steps(1) in \<open>auto simp: reservation_evolves_def g_def uncaptured_def updateLot_Inr\<close>)
  moreover have "evolves db2 db3" by (rule createEntry_evolves [OF steps(3)])
  moreover have "evolves db3 db'" using steps(4) createEntry_evolves evolves_refl by metis
  moreover have "\<forall>k. uncaptured k db \<longrightarrow> uncaptured k db'"
    using steps by (auto simp: uncaptured_def updateLot_Inr updateReservation_Inr createEntry_Inr
        set_update_row g_def)
  ultimately show ?thesis by (blast intro: evolves_trans)
qed

lemma releaseRows_evolves:
  "releaseRows due now d db = Inr (r, db') \<Longrightarrow> \<forall>x\<in>set due. uncaptured (cr_id x) db \<Longrightarrow> evolves db db'"
proof (induction due arbitrary: d db)
  case Nil
  then show ?case by (simp add: tx_Inr evolves_refl)
next
  case (Cons x due)
  obtain b db1 where row: "releaseReservationRow x now ''reservation_ttl_expired'' db = Inr (b, db1)"
      and rest: "releaseRows due now (d + b) db1 = Inr (r, db')"
    using Cons.prems(1) by (auto simp: tx_Inr)
  note ev = releaseReservationRow_evolves [OF row]
  show ?case
    using ev Cons.IH [OF rest] Cons.prems(2) evolves_trans by (metis list.set_intros(1,2))
qed

lemma held_uncaptured:
  assumes "wf db" and "x \<in> set (reservations db)" and "cr_status x \<noteq> Known Captured"
  shows "uncaptured (cr_id x) db"
  using assms wf_reservation_by_id [OF assms(1)] unfolding uncaptured_def by (metis option.inject)

lemma releaseExpiredReservationsInTx_evolves:
  assumes "releaseExpiredReservationsInTx org now db = Inr (r, db')" and "wf db"
  shows "evolves db db'"
proof -
  define due where "due = filter (\<lambda>r. cr_organizationId r = org \<and> cr_status r = Known Held \<and>
      cr_expiresAt r \<le> now) (reservations db)"
  consider (same) "db' = db" | (swept) d db1 u where "releaseRows due now 0 db = Inr (d, db1)"
      "moveCredits org d (- int (length due)) db1 = Inr (u, db')"
    using assms(1) by (auto simp: releaseExpiredReservationsInTx_def tx_Inr split: if_splits
        simp flip: due_def)
  then show ?thesis
  proof cases
    case same
    then show ?thesis by (simp add: evolves_refl)
  next
    case swept
    have "\<forall>x\<in>set due. uncaptured (cr_id x) db"
      using held_uncaptured [OF assms(2)] by (auto simp: due_def)
    then have "evolves db db1" by (rule releaseRows_evolves [OF swept(1)])
    with swept(2) show ?thesis using moveCredits_evolves evolves_trans by metis
  qed
qed

section \<open>The single-lot transactions\<close>

lemma lot_adjust_evolves:
  assumes "wf db" and "findLot k db = Some lot" and "lot_evolves lot (f lot)"
    and "updateLot k f db = Inr (u, db')"
  shows "evolves db db'"
  by (rule updateLot_evolves [OF assms(4)])
     (use assms(1-3) wf_find_lot [OF assms(1)] in \<open>metis option.inject\<close>)

lemma freezeLotTx_evolves:
  assumes run: "freezeLotTx ev now lot db = Inr (a, db')"
    and "wf db" and "findLot (cl_id lot) db = Some lot"
  shows "evolves db db'"
proof (cases "cl_status lot = Known Active")
  case False
  with run show ?thesis by (auto simp: freezeLotTx_def tx_Inr evolves_refl split: if_splits)
next
  case True
  obtain x db1 e u db2 d w where steps: "updateLot (cl_id lot)
      (\<lambda>l. l\<lparr>cl_status := Known Frozen, cl_frozenAt := Some now\<rparr>) db = Inr (x, db1)"
    "createEntry e db1 = Inr (u, db2)" "moveCredits (cl_organizationId lot) d 0 db2 = Inr (w, db')"
    using run True by (auto simp: freezeLotTx_def tx_Inr Let_def)
  have "evolves db db1"
    by (rule lot_adjust_evolves [OF assms(2,3) _ steps(1)])
       (use True in \<open>simp add: lot_evolves_def closed_status_def\<close>)
  then show ?thesis by (rule evolves_entry_move [OF _ steps(2,3)])
qed

lemma revokeLotTx_evolves:
  assumes run: "revokeLotTx refunded charged ev lot db = Inr (a, db')"
    and "wf db" and "findLot (cl_id lot) db = Some lot"
  shows "evolves db db'"
proof -
  consider (same) "db' = db" | (applied) x db1 e u db2 d w where "cl_status lot = Known Active"
      "updateLot (cl_id lot) (\<lambda>l. l\<lparr>cl_status := Known Revoked\<rparr>) db = Inr (x, db1)"
      "createEntry e db1 = Inr (u, db2)" "moveCredits (cl_organizationId lot) d 0 db2 = Inr (w, db')"
    using run by (auto simp: revokeLotTx_def tx_Inr Let_def split: if_splits)
  then show ?thesis
  proof cases
    case applied
    have "evolves db db1"
      by (rule lot_adjust_evolves [OF assms(2,3) _ applied(2)])
         (use applied(1) in \<open>simp add: lot_evolves_def closed_status_def\<close>)
    then show ?thesis by (rule evolves_entry_move [OF _ applied(3,4)])
  qed (simp add: evolves_refl)
qed

lemma resolveDisputeTx_evolves:
  assumes run: "resolveDisputeTx disp ev now lot db = Inr (a, db')"
    and inv: "ledger_inv db" and lot: "findLot (cl_id lot) db = Some lot"
  shows "evolves db db'"
proof -
  have wf: "wf db" using inv by (simp add: ledger_inv_def)
  consider (same) "db' = db"
    | (lost) x where "cl_status lot = Known Frozen"
      "updateLot (cl_id lot) (\<lambda>l. l\<lparr>cl_status := Known Revoked\<rparr>) db = Inr (x, db')"
    | (won) snapshot x db1 u db2 w db3 ids where "cl_status lot = Known Frozen"
      "toLotSnapshot lot = Inr snapshot"
      "updateLot (cl_id lot) (\<lambda>l. l\<lparr>cl_status := Known Active\<rparr>) db = Inr (x, db1)"
      "createEntry (adjustmentEntry lot dispute_release (availableInLot snapshot) ev ''dispute_won'') db1
        = Inr (u, db2)"
      "moveCredits (cl_organizationId lot) (availableInLot snapshot) 0 db2 = Inr (w, db3)"
      "expireDueLotsInTx (cl_organizationId lot) now db3 = Inr (ids, db')"
    using run by (auto simp: resolveDisputeTx_def tx_Inr Let_def split: if_splits)
  then show ?thesis
  proof cases
    case same
    then show ?thesis by (simp add: evolves_refl)
  next
    case lost
    show ?thesis
      by (rule lot_adjust_evolves [OF wf lot _ lost(2)])
         (use lost(1) in \<open>simp add: lot_evolves_def closed_status_def\<close>)
  next
    case won
    have avail: "availableInLot snapshot = lotAvailable lot" using snapshot_Inr [OF won(2)] by simp
    have ok: "lot_ok lot" using wf lot wf_find_lot wf_lot_ok by blast
    have "ledger_inv db3"
      using adjust_inv [OF inv lot _ _ _ _ _ _ _ won(3-5) [unfolded avail]] ok won(1)
      by (simp add: keeps_identity_def lot_ok_def adjustmentEntry_def activeAvailable_def lotAvailable_def)
    then have "evolves db3 db'"
      by (intro expireDueLotsInTx_evolves [OF won(6)]) (simp add: ledger_inv_def)
    moreover have "evolves db db1"
      by (rule lot_adjust_evolves [OF wf lot _ won(3)])
         (use won(1) in \<open>simp add: lot_evolves_def closed_status_def\<close>)
    ultimately show ?thesis
      using evolves_trans [OF evolves_entry_move [OF _ won(4,5)]] by blast
  qed
qed

lemma locked_lot_evolves:
  assumes "\<And>lot. work lot db = Inr (a, db') \<Longrightarrow> findLot (cl_id lot) db = Some lot \<Longrightarrow> evolves db db'"
    and "lockedLotTx lid work db = Inr (a, db')"
  shows "evolves db db'"
proof -
  obtain lot where "findLot lid db = Some lot" "work lot db = Inr (a, db')"
    using assms(2) by (auto simp: lockedLotTx_def tx_Inr db_Inr)
  moreover have "cl_id lot = lid"
    using calculation(1) by (auto simp: findLot_def dest: find_row_SomeD)
  ultimately show ?thesis using assms(1) by metis
qed

section \<open>Sessions, wallets and purchases\<close>

lemma captureTx_evolves:
  assumes run: "captureTx org s now db = Inr (a, db')" and wf: "wf db"
  shows "evolves db db'"
  using run wf
proof (cases rule: captureTx_cases)
  case same
  then show ?thesis by (simp add: evolves_refl)
next
  case (captured r l w)
  have "uncaptured (cr_id r) db"
    using held_uncaptured [OF wf captured(2)] captured(4) by simp
  then have "evolves db (db\<lparr>lots := update_row cl_id (cr_lotId r) capturedLot (lots db),
       reservations := update_row cr_id (cr_id r) (capture_marks now) (reservations db),
       entries := entries db @ [captureEntry org s (cr_lotId r)]\<rparr>)"
    unfolding evolves_def
    by (auto intro!: rows_evolve_update rows_evolve_refl
        simp: uncaptured_def reservation_evolves_def capture_marks_def lot_evolves_def
          capturedLot_def closed_status_def)
  then show ?thesis using moveCredits_evolves [OF captured(8)] by (rule evolves_trans)
qed

lemma holdCreditTx_evolves:
  assumes run: "holdCreditTx rid org s now existing lotId db = Inr (a, db')"
    and "\<And>e. existing = Some e \<Longrightarrow> uncaptured (cr_id e) db"
  shows "evolves db db'"
proof -
  define g :: "ReservationRow \<Rightarrow> ReservationRow" where "g = (\<lambda>r. r\<lparr>cr_lotId := lotId,
      cr_status := Known Held, cr_heldAt := now, cr_expiresAt := now + RESERVATION_TTL_HOURS * HOUR_MS,
      cr_resolvedAt := None\<rparr>)"
  obtain ul db1 n ur db2 e u db3 w where steps:
    "updateLot lotId (\<lambda>l. l\<lparr>cl_creditsReserved := cl_creditsReserved l + 1\<rparr>) db = Inr (ul, db1)"
    "(case existing of Some e \<Rightarrow> updateReservation (cr_id e) g | None \<Rightarrow> createReservation n) db1
       = Inr (ur, db2)"
    "createEntry e db2 = Inr (u, db3)" "moveCredits org (-1) 1 db3 = Inr (w, db')"
    using run unfolding holdCreditTx_def g_def by (auto simp: tx_Inr Let_def)
  have "evolves db db1"
    by (rule updateLot_evolves [OF steps(1)]) (simp add: lot_evolves_def)
  moreover have "evolves db1 db2"
  proof (cases existing)
    case None
    with steps(2) create_evolves(3) show ?thesis by simp
  next
    case (Some x)
    then have "updateReservation (cr_id x) g db1 = Inr (ur, db2)" using steps(2) by simp
    then show ?thesis
      by (rule updateReservation_evolves)
         (use assms(2) [OF Some] steps(1) in
           \<open>auto simp: reservation_evolves_def g_def uncaptured_def updateLot_Inr\<close>)
  qed
  ultimately show ?thesis
    using evolves_trans evolves_entry_move [OF _ steps(3,4)] by blast
qed

lemma reserveTx_evolves:
  assumes run: "reserveTx rid org s now db = Inr (a, db')" and inv: "ledger_inv db"
  shows "evolves db db'"
  using run inv
proof (cases rule: reserveTx_cases)
  case (same e)
  then show ?thesis by (simp add: evolves_refl)
next
  case (extended e)
  have wf: "wf db" using inv by (simp add: ledger_inv_def)
  have "uncaptured (cr_id e) db"
    using extended(1,3) wf_find_reservation [OF wf] by (intro held_uncaptured [OF wf]) auto
  then show ?thesis
    unfolding extended(5) evolves_def
    by (auto intro!: rows_evolve_update rows_evolve_refl simp: uncaptured_def reservation_evolves_def)
next
  case (acquired n db1 ids db2 snaps)
  have wf: "wf db" "wf db1" "wf db2" using inv acquired(3,5) by (simp_all add: ledger_inv_def)
  have "evolves db db2"
    using evolves_trans releaseExpiredReservationsInTx_evolves [OF acquired(2) wf(1)]
      expireDueLotsInTx_evolves [OF acquired(4) wf(2)] by blast
  moreover have "evolves db2 db'"
  proof (cases "selectLotForReservation snaps now")
    case None
    with acquired(7) show ?thesis by (simp add: tx_Inr evolves_refl)
  next
    case (Some lot)
    then have "holdCreditTx rid org s now (findReservation s db) (lot_id lot) db2 = Inr (a, db')"
      using acquired(7) by simp
    then show ?thesis
      by (rule holdCreditTx_evolves) (use acquired(1) held_uncaptured [OF wf(3)] in blast)
  qed
  ultimately show ?thesis by (rule evolves_trans)
qed

lemma releaseTx_evolves:
  assumes run: "releaseTx org s now reason db = Inr (a, db')" and inv: "ledger_inv db"
  shows "evolves db db'"
  using run inv
proof (cases rule: releaseTx_cases)
  case same
  then show ?thesis by (simp add: evolves_refl)
next
  case (released r d db1 w db2 ids)
  have wf: "wf db" "wf db2" using inv released(7) by (simp_all add: ledger_inv_def)
  have "r \<in> set (reservations db)" using released(1) wf_find_reservation [OF wf(1)] by simp
  then have "evolves db db1"
    using releaseReservationRow_evolves [OF released(5)] held_uncaptured [OF wf(1)] released(3)
    by (simp add: is_held_def)
  then show ?thesis
    using evolves_trans moveCredits_evolves [OF released(6)]
      expireDueLotsInTx_evolves [OF released(8) wf(2)] by blast
qed

lemma releaseExpiredTx_evolves:
  assumes run: "releaseExpiredTx org now db = Inr (a, db')" and inv: "ledger_inv db"
  shows "evolves db db'"
proof -
  obtain n db1 ids where steps: "releaseExpiredReservationsInTx org now db = Inr (n, db1)"
      "expireDueLotsInTx org now db1 = Inr (ids, db')"
    using run by (auto simp: releaseExpiredTx_def tx_Inr)
  have "ledger_inv db1"
    using hoareD [OF releaseExpiredReservationsInTx_inv [of "{}"] _ steps(1)] inv
    by (simp add: keeps_rows_def)
  then show ?thesis
    using evolves_trans releaseExpiredReservationsInTx_evolves [OF steps(1)]
      expireDueLotsInTx_evolves [OF steps(2)] inv by (auto simp: ledger_inv_def)
qed

lemma ensureWalletTx_evolves:
  assumes "ensureWalletTx wid lid org now days db = Inr (a, db')"
  shows "evolves db db'"
proof -
  consider "db' = db" | w rw db1 l rl db2 e u where "createWallet w db = Inr (rw, db1)"
      "createLot l db1 = Inr (rl, db2)" "createEntry e db2 = Inr (u, db')"
    using assms by (auto simp: ensureWalletTx_def tryLockWallet_def tx_Inr split: option.splits)
  then show ?thesis
    by cases (blast intro: evolves_refl evolves_trans create_evolves createEntry_evolves)+
qed

lemma grantWritesTx_evolves:
  assumes "grantWritesTx lid i db = Inr (a, db')"
  shows "evolves db db'"
proof -
  obtain rl db1 e u db2 w where "createLot (purchasedLot lid i) db = Inr (rl, db1)"
      and rest: "createEntry e db1 = Inr (u, db2)"
      "moveCredits (gi_organizationId i) (gi_creditsGranted i) 0 db2 = Inr (w, db')"
    using assms by (auto simp: grantWritesTx_def tx_Inr)
  then have "evolves db db1" by (blast intro: create_evolves)
  then show ?thesis by (rule evolves_entry_move [OF _ rest])
qed

lemma currencyGateTx_evolves:
  assumes run: "currencyGateTx org cur db = Inr (g, db')" and wf: "wf db"
  shows "evolves db db'"
proof -
  obtain w where w: "findWallet org db = Some w"
    using run by (auto simp: currencyGateTx_def tx_Inr db_Inr)
  show ?thesis
  proof (cases "db' = db")
    case False
    then have unlocked: "cw_settlementCurrency w = None"
      and upd: "\<exists>u. updateWallet org (\<lambda>w. w\<lparr>cw_settlementCurrency := Some cur\<rparr>) db = Inr (u, db')"
      using run w by (auto simp: currencyGateTx_def tx_Inr or_throw_Inr split: option.splits if_splits)
    obtain u where "updateWallet org (\<lambda>w. w\<lparr>cw_settlementCurrency := Some cur\<rparr>) db = Inr (u, db')"
      using upd by blast
    moreover have "v = w" if "v \<in> set (wallets db)" "cw_organizationId v = org" for v
    proof -
      have "findWallet org db = Some v" using that wf_find_wallet [OF wf] by simp
      with w show ?thesis by simp
    qed
    ultimately show ?thesis
      using unlocked by (elim updateWallet_evolves) (simp add: wallet_evolves_def)
  qed (simp add: evolves_refl)
qed

lemma grantTx_evolves:
  assumes run: "grantTx lid i db = Inr (a, db')" and wf: "wf db"
  shows "evolves db db'"
  using run
proof (cases rule: grantTx_cases)
  case (granted d)
  show ?thesis
    by (rule evolves_trans [OF currencyGateTx_evolves [OF granted(2) wf] grantWritesTx_evolves [OF granted(3)]])
qed (simp_all add: evolves_refl)

section \<open>Every step, every interleaving\<close>

lemma ledger_step_evolves:
  assumes "ledger_step db db'" and inv: "ledger_inv db"
  shows "evolves db db'"
  using assms(1)
proof (cases rule: ledger_step.cases)
  case (step_wallet wid lid org now days r)
  then show ?thesis by (rule ensureWalletTx_evolves)
next
  case (step_grant i lid r)
  then show ?thesis using inv by (auto intro: grantTx_evolves simp: ledger_inv_def)
next
  case (step_freeze lid ev now r)
  then show ?thesis
    by (rule locked_lot_evolves [rotated]) (use inv in \<open>auto intro: freezeLotTx_evolves simp: ledger_inv_def\<close>)
next
  case (step_resolve lid disp ev now r)
  then show ?thesis
    by (rule locked_lot_evolves [rotated]) (use inv in \<open>auto intro: resolveDisputeTx_evolves\<close>)
next
  case (step_revoke lid refunded charged ev r)
  then show ?thesis
    by (rule locked_lot_evolves [rotated]) (use inv in \<open>auto intro: revokeLotTx_evolves simp: ledger_inv_def\<close>)
next
  case (step_reserve rid org s now r)
  then show ?thesis by (rule reserveTx_evolves [OF _ inv])
next
  case (step_capture org s now r)
  then show ?thesis by (rule captureTx_evolves) (use inv in \<open>simp add: ledger_inv_def\<close>)
next
  case (step_release org s now reason r)
  then show ?thesis by (rule releaseTx_evolves [OF _ inv])
next
  case (step_release_expired org now r)
  then show ?thesis by (rule releaseExpiredTx_evolves [OF _ inv])
next
  case (step_expire org now r)
  then show ?thesis by (rule expireDueLotsInTx_evolves) (use inv in \<open>simp add: ledger_inv_def\<close>)
next
  case (step_customer wid cid r)
  then show ?thesis
    by (auto simp: evolves_def rows_evolve_refl wallet_evolves_def dest!: setStripeCustomer_Inr intro!: rows_evolve_update)
qed

lemma ledger_steps_evolve:
  assumes "ledger_step\<^sup>*\<^sup>* db db'" and "ledger_inv db"
  shows "ledger_inv db' \<and> evolves db db'"
  using assms
  by (induction rule: rtranclp_induct)
     (auto intro: evolves_refl evolves_trans ledger_step_evolves ledger_step_inv)

lemma evolved_lot:
  assumes "evolves db db'" and "wf db'" and "findLot k db = Some l"
  obtains m where "findLot k db' = Some m" "lot_evolves l m"
proof -
  have "l \<in> set (lots db)" "cl_id l = k" using assms(3) by (auto simp: findLot_def dest: find_row_SomeD)
  then obtain m where "m \<in> set (lots db')" "lot_evolves l m"
    using assms(1) by (auto simp: evolves_def rows_evolve_def)
  then show thesis
    using that wf_find_lot [OF assms(2)] \<open>cl_id l = k\<close> by (auto simp: lot_evolves_def)
qed

lemma evolved_reservation:
  assumes "evolves db db'" and "wf db'" and "findReservation s db = Some r"
  obtains q where "findReservation s db' = Some q" "reservation_evolves r q"
proof -
  have "r \<in> set (reservations db)" "cr_candidateSessionId r = s"
    using assms(3) by (auto simp: findReservation_def dest: find_row_SomeD)
  then obtain q where "q \<in> set (reservations db')" "reservation_evolves r q"
    using assms(1) by (auto simp: evolves_def rows_evolve_def)
  then show thesis
    using that wf_find_reservation [OF assms(2)] \<open>cr_candidateSessionId r = s\<close>
    by (auto simp: reservation_evolves_def)
qed

lemma evolved_wallet:
  assumes "evolves db db'" and "wf db'" and "findWallet org db = Some w"
  obtains v where "findWallet org db' = Some v" "wallet_evolves w v"
proof -
  have "w \<in> set (wallets db)" "cw_organizationId w = org"
    using assms(3) by (auto simp: findWallet_def dest: find_row_SomeD)
  then obtain v where "v \<in> set (wallets db')" "wallet_evolves w v"
    using assms(1) by (auto simp: evolves_def rows_evolve_def)
  then show thesis
    using that wf_find_wallet [OF assms(2)] \<open>cw_organizationId w = org\<close> by (auto simp: wallet_evolves_def)
qed
end
