(* ===== verification/LedgerProps.thy ===== *)
theory LedgerProps
  imports LedgerHistory
begin

text \<open>
  The properties of the credit ledger: its books balance in every reachable state, a
  transaction commits once or not at all, a payment is granted once, a session is billed
  once, a currency is never mixed, and the audit reports exactly the lots whose expiry no
  sweep has written off yet.
\<close>

section \<open>The books\<close>

lemma reserved_is_held:
  assumes inv: "ledger_inv db" and w: "findWallet org db = Some w"
  shows "cw_reservedCredits w =
    int (length (filter (\<lambda>r. cr_organizationId r = org \<and> is_held r) (reservations db)))"
proof -
  have wf: "wf db" using inv by (simp add: ledger_inv_def)
  have wm: "w \<in> set (wallets db)" "cw_organizationId w = org" using w wf_find_wallet [OF wf] by auto
  let ?g = "\<lambda>l r. if cl_id l = cr_lotId r then
      (if is_held r \<and> cl_organizationId l = org then 1 else 0) else (0::int)"
  have "cw_reservedCredits w = sum_by (reservedOf org) (lots db)"
    using inv wm by (auto simp: ledger_inv_def wallet_balanced_def)
  also have "\<dots> = sum_by (\<lambda>l. sum_by (?g l) (reservations db)) (lots db)"
  proof (rule sum_by_cong)
    fix l
    assume "l \<in> set (lots db)"
    then have "cl_creditsReserved l = holds (cl_id l) (reservations db)"
      using wf by (simp add: wf_def lots_ok_def)
    then show "reservedOf org l = sum_by (?g l) (reservations db)"
      by (auto simp: reservedOf_def holds_def intro!: sum_by_cong sum_by_zero)
  qed
  also have "\<dots> = sum_by (\<lambda>r. sum_by (\<lambda>l. ?g l r) (lots db)) (reservations db)"
    by (rule sum_by_swap)
  also have "\<dots> = sum_by (\<lambda>r. if cr_organizationId r = org \<and> is_held r then 1 else 0) (reservations db)"
  proof (rule sum_by_cong)
    fix r
    assume "r \<in> set (reservations db)"
    then obtain l where l: "findLot (cr_lotId r) db = Some l" "cl_organizationId l = cr_organizationId r"
      using wf_reservation_lot [OF wf] by metis
    have "sum_by (\<lambda>l. ?g l r) (lots db) = (if is_held r \<and> cl_organizationId l = org then 1 else 0)"
      using wf l(1) by (intro sum_by_key) (simp_all add: wf_def keys_ok_def findLot_def)
    with l(2) show "sum_by (\<lambda>l. ?g l r) (lots db) = (if cr_organizationId r = org \<and> is_held r then 1 else 0)"
      by auto
  qed
  finally show ?thesis by (simp add: sum_by_count)
qed

lemma wallet_equations:
  assumes inv: "ledger_inv db" and w: "findWallet org db = Some w"
  shows "cw_availableCredits w = ledgerSum org db"
    and "cw_availableCredits w = sum_by lotAvailable
      (filter (\<lambda>l. cl_organizationId l = org \<and> cl_status l = Known Active) (lots db))"
    and "cw_availableCredits w = sum_by (activeAvailable org) (lots db)"
    and "cw_reservedCredits w = sum_by (reservedOf org) (lots db)"
proof -
  have wf: "wf db" using inv by (simp add: ledger_inv_def)
  have "w \<in> set (wallets db)" "cw_organizationId w = org" using w wf_find_wallet [OF wf] by auto
  then have eqs: "wallet_balanced db w 0 0" using inv by (simp add: ledger_inv_def)
  with \<open>cw_organizationId w = org\<close>
  show "cw_availableCredits w = ledgerSum org db" "cw_availableCredits w = sum_by (activeAvailable org) (lots db)"
    "cw_reservedCredits w = sum_by (reservedOf org) (lots db)"
    by (simp_all add: wallet_balanced_def ledgerSum_deltaOf)
  then show "cw_availableCredits w = sum_by lotAvailable
      (filter (\<lambda>l. cl_organizationId l = org \<and> cl_status l = Known Active) (lots db))"
    unfolding sum_by_filter by (simp add: activeAvailable_def [abs_def])
qed

lemma wallet_nonneg:
  assumes inv: "ledger_inv db" and w: "findWallet org db = Some w"
  shows "0 \<le> cw_availableCredits w" "0 \<le> cw_reservedCredits w"
proof -
  have "0 \<le> sum_by (activeAvailable org) (lots db)"
    using inv by (intro sum_by_nonneg)
      (auto simp: activeAvailable_def lotAvailable_def lot_ok_def ledger_inv_def wf_def lots_ok_def)
  then show "0 \<le> cw_availableCredits w" using wallet_equations(3) [OF inv w] by simp
  show "0 \<le> cw_reservedCredits w" by (simp add: reserved_is_held [OF inv w])
qed

text \<open>A small concrete history: one organization, its free grant, one credit on hold.\<close>

definition demo_ids :: fresh_ids where
  "demo_ids = \<lparr>fresh_walletId = ''w1'', fresh_freeLotId = ''lot0'', fresh_lotId = ''lot1'',
     fresh_reservationId = ''res1''\<rparr>"

definition demo_held :: credit_db where
  "demo_held = snd (reserveCreditForSession (no_faults, no_faults) demo_ids ''org'' ''s1'' 0 empty_db)"

lemma demo_held_reachable: "ledger_reachable demo_held"
  unfolding ledger_reachable_def demo_held_def
  by (rule reserve_steps [where r = "fst (reserveCreditForSession (no_faults, no_faults) demo_ids ''org'' ''s1'' 0 empty_db)"
        and flt = "(no_faults, no_faults)" and ids = demo_ids]) simp

text \<open>
  C1: in every state that any interleaving of ledger transactions reaches, a wallet's
  available counter is at once the sum of the ledger entries of its organization and what
  is left in its active lots, its reserved counter is the number of its live holds, and
  neither is ever negative.
\<close>
theorem ledger_books_balance:
  assumes "ledger_reachable db" and "findWallet org db = Some w"
  shows "cw_availableCredits w = ledgerSum org db \<and>
    cw_availableCredits w = sum_by lotAvailable
      (filter (\<lambda>l. cl_organizationId l = org \<and> cl_status l = Known Active) (lots db)) \<and>
    cw_reservedCredits w =
      int (length (filter (\<lambda>r. cr_organizationId r = org \<and> is_held r) (reservations db))) \<and>
    0 \<le> cw_availableCredits w \<and> 0 \<le> cw_reservedCredits w"
  using wallet_equations [OF reachable_inv [OF assms(1)] assms(2)]
    reserved_is_held [OF reachable_inv [OF assms(1)] assms(2)]
    wallet_nonneg [OF reachable_inv [OF assms(1)] assms(2)] by simp

theorem ledger_books_balance_witness:
  "cw_availableCredits (the (findWallet ''org'' demo_held)) = 4 \<and>
   ledgerSum ''org'' demo_held = 4 \<and> cw_reservedCredits (the (findWallet ''org'' demo_held)) = 1"
proof -
  have "findWallet ''org'' demo_held = Some (the (findWallet ''org'' demo_held))"
    "cw_availableCredits (the (findWallet ''org'' demo_held)) = 4"
    "cw_reservedCredits (the (findWallet ''org'' demo_held)) = 1" by code_simp+
  then show ?thesis using ledger_books_balance [OF demo_held_reachable] by metis
qed

text \<open>
  C9: a wallet transaction takes effect once or not at all: it answers an error and leaves
  the database as it found it, or one attempt, at most the third and preceded only by
  attempts that hit the transaction timeout (P2028), ran the body to its end and committed
  exactly what the body computed.
\<close>
theorem wallet_transaction_once:
  assumes "runInWalletTransaction flt org work db = (r, db')"
  shows "(\<exists>e. r = Inl e \<and> db' = db) \<or>
    (\<exists>a j. 1 \<le> j \<and> j \<le> 3 \<and> r = Inr a \<and> findWallet org db \<noteq> None \<and> work db = Inr (a, db') \<and>
       flt j = None \<and> (\<forall>i. 1 \<le> i \<longrightarrow> i < j \<longrightarrow> flt i = Some TransactionExpired))"
proof -
  have locked: "findWallet org db \<noteq> None \<and> work db = Inr (a, d)"
    if "tx_then (lockWallet org) work db = Inr (a, d)" for a d
    using that by (auto simp: tx_Inr lockWallet_def tryLockWallet_def split: option.splits)
  show ?thesis
    using runAttempts_cases [OF assms [unfolded runInWalletTransaction_def runTransaction_def]]
  proof (elim disjE exE conjE)
    fix a j
    assume j: "1 \<le> j" "j < 1 + TRANSACTION_RETRY_ATTEMPTS" "r = Inr a" "flt j = None"
      "tx_then (lockWallet org) work db = Inr (a, db')"
      "\<forall>i. 1 \<le> i \<longrightarrow> i < j \<longrightarrow> flt i = Some TransactionExpired"
    then show ?thesis
      by (intro disjI2 exI [of _ a] exI [of _ j]) (use locked [OF j(5)] in \<open>simp add: TRANSACTION_RETRY_ATTEMPTS_def\<close>)
  qed blast
qed

definition demo_timeout :: faults where
  "demo_timeout n = (if n = 1 then Some TransactionExpired else None)"

theorem wallet_transaction_once_witness:
  "\<exists>r db'. runInWalletTransaction demo_timeout ''org'' (captureTx ''org'' ''s1'' 1) demo_held = (r, db') \<and>
     ((\<exists>e. r = Inl e \<and> db' = demo_held) \<or>
      (\<exists>a j. 1 \<le> j \<and> j \<le> 3 \<and> r = Inr a \<and> findWallet ''org'' demo_held \<noteq> None \<and>
         captureTx ''org'' ''s1'' 1 demo_held = Inr (a, db') \<and> demo_timeout j = None \<and>
         (\<forall>i. 1 \<le> i \<longrightarrow> i < j \<longrightarrow> demo_timeout i = Some TransactionExpired)))"
  using wallet_transaction_once [of demo_timeout "''org''" "captureTx ''org'' ''s1'' 1" demo_held] by (metis surj_pair)

text \<open>
  C2: no credit of a lot is spent twice: in every reachable state the consumed counter of a
  lot is the number of sessions captured on it, its reserved counter the number of live
  holds on it, the two never exceed what was granted, and a session has at most one
  reservation row.
\<close>
theorem lot_credits_back_sessions:
  assumes "ledger_reachable db" and "l \<in> set (lots db)"
  shows "cl_creditsConsumed l = int (length (filter
      (\<lambda>r. cr_lotId r = cl_id l \<and> cr_status r = Known Captured) (reservations db))) \<and>
    cl_creditsReserved l = int (length (filter
      (\<lambda>r. cr_lotId r = cl_id l \<and> cr_status r = Known Held) (reservations db))) \<and>
    cl_creditsConsumed l + cl_creditsReserved l \<le> cl_creditsGranted l \<and>
    distinct (map cr_candidateSessionId (reservations db))"
  using reachable_inv [OF assms(1)] assms(2)
  by (auto simp: ledger_inv_def wf_def lots_ok_def keys_ok_def lot_ok_def captures_def holds_def
      sum_by_count is_held_def)

theorem lot_credits_back_sessions_witness:
  "length (lots demo_held) = 1 \<and>
   cl_creditsConsumed (hd (lots demo_held)) + cl_creditsReserved (hd (lots demo_held))
     \<le> cl_creditsGranted (hd (lots demo_held))"
proof -
  have "length (lots demo_held) = 1" by code_simp
  then have "lots demo_held \<noteq> []" "length (lots demo_held) = 1" by auto
  then show ?thesis using lot_credits_back_sessions [OF demo_held_reachable] hd_in_set by blast
qed

section \<open>Captures\<close>

lemma find_update_reservation:
  assumes wf: "wf db" and r: "findReservation s db = Some r"
    and g: "\<And>x. cr_candidateSessionId (g x) = cr_candidateSessionId x"
  shows "find_row cr_candidateSessionId s (update_row cr_id (cr_id r) g (reservations db)) = Some (g r)"
proof -
  have "r \<in> set (reservations db)" "cr_candidateSessionId r = s"
    using r wf_find_reservation [OF wf] by auto
  then have "g r \<in> set (update_row cr_id (cr_id r) g (reservations db))" "cr_candidateSessionId (g r) = s"
      "distinct (map cr_candidateSessionId (update_row cr_id (cr_id r) g (reservations db)))"
    using wf g by (auto simp: set_update_row wf_def keys_ok_def row_simps)
  then show ?thesis by (metis find_row_mem)
qed

lemma captureTx_done:
  assumes run: "captureTx org s now db = Inr (CaptureDone, db')" and wf: "wf db"
  shows "\<exists>r. findReservation s db = Some r \<and> cr_organizationId r = org \<and> cr_status r = Known Held \<and>
    findReservation s db' = Some (capture_marks now r)"
  using run wf
proof (cases rule: captureTx_cases)
  case same
  then show ?thesis by (simp split: option.splits if_splits)
next
  case (captured r l w)
  have "reservations db' = update_row cr_id (cr_id r) (capture_marks now) (reservations db)"
    using captured(8) by (auto simp: moveCredits_def updateWallet_Inr)
  then have "findReservation s db' = Some (capture_marks now r)"
    using find_update_reservation [OF wf captured(1)] by (simp add: findReservation_def capture_marks_def)
  with captured show ?thesis by simp
qed

lemma reservation_wallet:
  assumes inv: "ledger_inv db" and r: "findReservation s db = Some r"
  obtains w where "findWallet (cr_organizationId r) db = Some w"
proof -
  have wf: "wf db" using inv by (simp add: ledger_inv_def)
  have "r \<in> set (reservations db)" using r wf_find_reservation [OF wf] by simp
  then obtain l where "l \<in> set (lots db)" "cl_organizationId l = cr_organizationId r"
    using wf by (auto simp: wf_def refs_ok_def)
  then show thesis using that wf_lot_wallet [OF wf] by metis
qed

text \<open>
  C5: a session is billed at most once, and for good: after one capture has answered
  \<open>captured\<close>, then in whatever state later transactions of anybody lead to, a second capture
  answers \<open>already_captured\<close> and a release answers \<open>already_resolved\<close>, and neither writes.
\<close>
theorem captured_session_is_final:
  assumes "ledger_reachable db"
    and "captureReservationForSession flt org s now db = (Inr CaptureDone, db1)"
    and "ledger_step\<^sup>*\<^sup>* db1 db2"
  shows "captureReservationForSession no_faults org s later db2 = (Inr AlreadyCaptured, db2) \<and>
    releaseReservationForSession no_faults org s later reason db2 = (Inr AlreadyResolved, db2)"
proof -
  have inv: "ledger_inv db" by (rule reachable_inv [OF assms(1)])
  have wf: "wf db" using inv by (simp add: ledger_inv_def)
  have tx: "captureTx org s now db = Inr (CaptureDone, db1)"
    using assms(2) by (auto simp: captureReservationForSession_def elim!: runInWallet_cases)
  have inv1: "ledger_inv db1" using hoareD [OF captureTx_inv inv tx] .
  obtain r where r: "findReservation s db1 = Some (capture_marks now r)" "cr_organizationId r = org"
    using captureTx_done [OF tx wf] by auto
  note later = ledger_steps_evolve [OF assms(3) inv1]
  have wf2: "wf db2" using later by (simp add: ledger_inv_def)
  obtain q where q: "findReservation s db2 = Some q" "reservation_evolves (capture_marks now r) q"
    using evolved_reservation [OF conjunct2 [OF later] wf2 r(1)] by metis
  have qs: "cr_organizationId q = org" "cr_status q = Known Captured"
    using q(2) r(2) by (auto simp: reservation_evolves_def capture_marks_def)
  obtain w where w: "findWallet org db2 = Some w"
    using reservation_wallet [OF conjunct1 [OF later] q(1)] qs(1) by metis
  have "captureTx org s later db2 = Inr (AlreadyCaptured, db2)"
    and "releaseTx org s later reason db2 = Inr (AlreadyResolved, db2)"
    using q(1) qs by (simp_all add: captureTx_def releaseTx_def tx_bind_def tx_get_def tx_return_def)
  then show ?thesis
    by (simp add: captureReservationForSession_def releaseReservationForSession_def
        runInWallet_no_faults [OF w])
qed

definition demo_captured :: credit_db where
  "demo_captured = snd (captureReservationForSession no_faults ''org'' ''s1'' 1 demo_held)"

theorem captured_session_is_final_witness:
  "captureReservationForSession no_faults ''org'' ''s1'' 2 demo_captured = (Inr AlreadyCaptured, demo_captured)"
proof -
  have "captureReservationForSession no_faults ''org'' ''s1'' 1 demo_held = (Inr CaptureDone, demo_captured)"
    by code_simp
  from captured_session_is_final [OF demo_held_reachable this rtranclp.rtrancl_refl]
  show ?thesis by blast
qed

text \<open>
  a capture moves exactly one credit and creates or destroys none: the wallet's reserved
  counter goes down by one and its available counter stays, the lot of the hold has one
  credit more consumed and one fewer reserved and is closed as exhausted exactly when it was
  active and this was its last credit, every other lot and every other wallet is untouched.
\<close>
theorem capture_moves_one_credit:
  assumes "ledger_reachable db" and "captureReservationForSession flt org s now db = (Inr CaptureDone, db')"
  shows "\<exists>r l w. findReservation s db = Some r \<and> findLot (cr_lotId r) db = Some l \<and>
      findWallet org db = Some w \<and>
      findWallet org db' = Some (w\<lparr>cw_reservedCredits := cw_reservedCredits w - 1\<rparr>) \<and>
      (\<forall>m. findLot (cl_id m) db = Some m \<longrightarrow> findLot (cl_id m) db' =
         Some (if cl_id m \<noteq> cl_id l then m else
           l\<lparr>cl_creditsReserved := cl_creditsReserved l - 1, cl_creditsConsumed := cl_creditsConsumed l + 1,
             cl_status := if cl_status l = Known Active \<and> cl_creditsConsumed l + 1 = cl_creditsGranted l
                          then Known Exhausted else cl_status l\<rparr>)) \<and>
      (\<forall>o'. o' \<noteq> org \<longrightarrow> findWallet o' db' = findWallet o' db)"
proof -
  have inv: "ledger_inv db" by (rule reachable_inv [OF assms(1)])
  have wf: "wf db" using inv by (simp add: ledger_inv_def)
  have tx: "captureTx org s now db = Inr (CaptureDone, db')"
    using assms(2) by (auto simp: captureReservationForSession_def elim!: runInWallet_cases)
  from tx wf show ?thesis
  proof (cases rule: captureTx_cases)
    case same
    then show ?thesis by (simp split: option.splits if_splits)
  next
    case (captured r l w)
    obtain v where v: "findWallet org db = Some v" and db': "wallets db' = update_row cw_organizationId org
        (\<lambda>w. w\<lparr>cw_availableCredits := cw_availableCredits w + 0,
               cw_reservedCredits := cw_reservedCredits w + -1\<rparr>) (wallets db)"
      "lots db' = update_row cl_id (cr_lotId r) capturedLot (lots db)"
      using captured(8) by (auto simp: moveCredits_def updateWallet_Inr findWallet_def)
    have lm: "l \<in> set (lots db)" "cl_id l = cr_lotId r" using captured(6) wf_find_lot [OF wf] by auto
    have "is_held r" using captured(4) by (simp add: is_held_def)
    then have "1 \<le> cl_creditsReserved l" by (rule held_reserved [OF wf captured(2) _ captured(6)])
    then have bound: "cl_creditsConsumed l + 1 \<le> cl_creditsGranted l"
      using wf_lot_ok [OF wf lm(1)] by (simp add: lot_ok_def)
    have "findLot (cl_id m) db' = Some (if cl_id m \<noteq> cl_id l then m else capturedLot l)"
      if "findLot (cl_id m) db = Some m" for m
      using that captured(6) lm(2)
      by (auto simp: findLot_def db'(2) row_simps)
    moreover have "capturedLot l = l\<lparr>cl_creditsReserved := cl_creditsReserved l - 1,
        cl_creditsConsumed := cl_creditsConsumed l + 1,
        cl_status := if cl_status l = Known Active \<and> cl_creditsConsumed l + 1 = cl_creditsGranted l
                     then Known Exhausted else cl_status l\<rparr>"
      using bound by (simp add: capturedLot_def)
    ultimately show ?thesis
      using captured(1,6) v by (auto simp: findWallet_def db'(1) row_simps)
  qed
qed

theorem capture_moves_one_credit_witness:
  "\<exists>r l w. findReservation ''s1'' demo_held = Some r \<and> findLot (cr_lotId r) demo_held = Some l \<and>
     findWallet ''org'' demo_held = Some w \<and>
     findWallet ''org'' demo_captured = Some (w\<lparr>cw_reservedCredits := cw_reservedCredits w - 1\<rparr>)"
proof -
  have "captureReservationForSession no_faults ''org'' ''s1'' 1 demo_held = (Inr CaptureDone, demo_captured)"
    by code_simp
  from capture_moves_one_credit [OF demo_held_reachable this] show ?thesis by blast
qed

section \<open>Purchases\<close>

lemma find_payment:
  assumes "wf db" and "l \<in> set (lots db)" and "cl_stripePaymentIntentId l = Some p"
  shows "findLotByPayment p db = Some l"
proof (cases "findLotByPayment p db")
  case None
  then have "Some p \<notin> cl_stripePaymentIntentId ` set (lots db)"
    by (simp add: findLotByPayment_def find_row_None_iff)
  with assms(2,3) show ?thesis by (metis image_eqI)
next
  case (Some m)
  then have m: "m \<in> set (lots db)" "cl_stripePaymentIntentId m = Some p"
    by (auto simp: findLotByPayment_def dest: find_row_SomeD)
  have "payments_unique (lots db)" using assms(1) by (simp add: wf_def keys_ok_def)
  from this [unfolded payments_unique_def, rule_format, OF m(1) assms(2)]
  have "cl_id m = cl_id l" using m(2) assms(3) by simp
  then have "m = l" using m(1) assms(1,2) wf_find_lot [OF assms(1)] by (metis option.inject)
  with Some show ?thesis by simp
qed

text \<open>What a committed grant leaves: the purchased lot itself.\<close>

lemma grantTx_granted:
  assumes run: "grantTx lid i db = Inr (Granted k, db')" and inv: "ledger_inv db"
  shows "k = lid \<and> findLotByPayment (gi_stripePaymentIntentId i) db = None \<and>
    purchasedLot lid i \<in> set (lots db') \<and> lots db' = lots db @ [purchasedLot lid i]"
proof -
  have written: "k = lid \<and> lots db' = lots d @ [purchasedLot lid i]"
    if "grantWritesTx lid i d = Inr (Granted k, db')" for d
    using that by (auto simp: grantWritesTx_def tx_Inr db_Inr moveCredits_def purchasedLot_def
        dest!: createLot_Inr)
  from run show ?thesis
  proof (cases rule: grantTx_cases)
    case (granted d)
    then show ?thesis using written [OF granted(3)] currencyGateTx_inv [OF inv granted(2)] by simp
  qed simp_all
qed

lemma grant_commits_ensured:
  assumes "grantPurchasedCreditLot flt ids i db = (Inr (Granted lid), db')"
  obtains q db1 where
    "ensureWallet (fst flt) ids (gi_organizationId i) (gi_now i) (Some PAID_CREDIT_EXPIRY_DAYS) db = (q, db1)"
    "grantTx (fresh_lotId ids) i db1 = Inr (Granted lid, db')"
    "0 < gi_creditsGranted i" "0 \<le> gi_unitAmountCents i"
proof -
  have ok: "\<not> (gi_creditsGranted i \<le> 0 \<or> gi_unitAmountCents i < 0)"
    using assms by (auto simp: grantPurchasedCreditLot_def split: if_splits)
  obtain q db1 where ens: "ensureWallet (fst flt) ids (gi_organizationId i) (gi_now i)
      (Some PAID_CREDIT_EXPIRY_DAYS) db = (q, db1)"
    by (metis surj_pair)
  obtain g db2 where run: "runInWalletTransaction (snd flt) (gi_organizationId i)
      (grantTx (fresh_lotId ids) i) db1 = (g, db2)"
    by (metis surj_pair)
  have "g = Inr (Granted lid)" "db2 = db'"
    using assms ok ens run
    by (auto simp: grantPurchasedCreditLot_def split: sum.splits option.splits if_splits)
  then have "grantTx (fresh_lotId ids) i db1 = Inr (Granted lid, db')"
    using run by (auto elim: runInWallet_cases)
  then show thesis using that ens ok by simp
qed

lemma grant_commits:
  assumes "grantPurchasedCreditLot flt ids i db = (Inr (Granted lid), db')"
  obtains db1 where "ledger_step\<^sup>*\<^sup>* db db1" "grantTx (fresh_lotId ids) i db1 = Inr (Granted lid, db')"
    "0 < gi_creditsGranted i" "0 \<le> gi_unitAmountCents i"
proof (rule grant_commits_ensured [OF assms])
  fix q db1
  assume ens: "ensureWallet (fst flt) ids (gi_organizationId i) (gi_now i) (Some PAID_CREDIT_EXPIRY_DAYS) db = (q, db1)"
    and rest: "grantTx (fresh_lotId ids) i db1 = Inr (Granted lid, db')"
      "0 < gi_creditsGranted i" "0 \<le> gi_unitAmountCents i"
  from ensureWallet_steps [OF ens] have "ledger_step\<^sup>*\<^sup>* db db1" by auto
  then show thesis using rest by (rule that)
qed

lemma granted_lot_stays:
  assumes "ledger_reachable db"
    and "grantPurchasedCreditLot flt ids i db = (Inr (Granted lid), db1)"
    and "ledger_step\<^sup>*\<^sup>* db1 db2"
  shows "\<exists>l. findLotByPayment (gi_stripePaymentIntentId i) db2 = Some l \<and> cl_id l = lid \<and>
    lot_evolves (purchasedLot lid i) l \<and> ledger_inv db2"
proof -
  obtain d where d: "ledger_step\<^sup>*\<^sup>* db d" "grantTx (fresh_lotId ids) i d = Inr (Granted lid, db1)"
      "0 < gi_creditsGranted i" "0 \<le> gi_unitAmountCents i"
    by (rule grant_commits [OF assms(2)])
  have inv: "ledger_inv d" using ledger_steps_evolve [OF d(1) reachable_inv [OF assms(1)]] by simp
  have granted: "lid = fresh_lotId ids" "purchasedLot lid i \<in> set (lots db1)"
    using grantTx_granted [OF d(2) inv] by auto
  have inv1: "ledger_inv db1" using hoareD [OF grantTx_inv inv d(2)] d(3) by simp
  note later = ledger_steps_evolve [OF assms(3) inv1]
  obtain l where l: "l \<in> set (lots db2)" "lot_evolves (purchasedLot lid i) l"
    using later granted(2) by (auto simp: evolves_def rows_evolve_def)
  then have "cl_stripePaymentIntentId l = Some (gi_stripePaymentIntentId i)" "cl_id l = lid"
    by (auto simp: lot_evolves_def purchasedLot_def)
  then show ?thesis using find_payment l later by (auto simp: ledger_inv_def)
qed

text \<open>
  a payment is granted exactly once. Once a purchase has been granted, every later
  delivery of the same payment for the same organization, in whatever state other
  transactions have led to, answers \<open>already_granted\<close> and writes nothing; the lot it was
  granted is still the only lot of that payment, with the terms it was bought at.
\<close>
theorem purchase_granted_once:
  assumes "ledger_reachable db"
    and "grantPurchasedCreditLot flt ids i db = (Inr (Granted lid), db1)"
    and "ledger_step\<^sup>*\<^sup>* db1 db2"
    and "gi_organizationId j = gi_organizationId i"
    and "gi_stripePaymentIntentId j = gi_stripePaymentIntentId i"
    and "0 < gi_creditsGranted j" and "0 \<le> gi_unitAmountCents j"
  shows "grantPurchasedCreditLot (no_faults, no_faults) ids' j db2 = (Inr AlreadyGranted, db2) \<and>
    (\<exists>l. filter (\<lambda>l. cl_stripePaymentIntentId l = Some (gi_stripePaymentIntentId i)) (lots db2) = [l] \<and>
       lot_evolves (purchasedLot lid i) l)"
proof -
  let ?p = "gi_stripePaymentIntentId i"
  obtain l where l: "findLotByPayment ?p db2 = Some l" "lot_evolves (purchasedLot lid i) l"
      and inv: "ledger_inv db2"
    using granted_lot_stays [OF assms(1-3)] by auto
  have wf: "wf db2" using inv by (simp add: ledger_inv_def)
  have lm: "l \<in> set (lots db2)" "cl_stripePaymentIntentId l = Some ?p"
    using l(1) by (auto simp: findLotByPayment_def dest: find_row_SomeD)
  have org: "cl_organizationId l = gi_organizationId j"
    using l(2) assms(4) by (simp add: lot_evolves_def purchasedLot_def)
  obtain w where w: "findWallet (gi_organizationId j) db2 = Some w"
    using wf_lot_wallet [OF wf lm(1)] org by metis
  have "ensureWallet no_faults ids' (gi_organizationId j) (gi_now j) (Some PAID_CREDIT_EXPIRY_DAYS) db2
      = (Inr (cw_id w), db2)"
    using w by (simp add: ensureWallet_def)
  moreover have "grantTx (fresh_lotId ids') j db2 = Inr (AlreadyGranted, db2)"
    using l(1) org assms(5) by (simp add: grantTx_def tx_bind_def tx_get_def tx_return_def)
  ultimately have "grantPurchasedCreditLot (no_faults, no_faults) ids' j db2 = (Inr AlreadyGranted, db2)"
    using assms(6,7) by (simp add: grantPurchasedCreditLot_def runInWallet_no_faults [OF w])
  moreover have "filter (\<lambda>l. cl_stripePaymentIntentId l = Some ?p) (lots db2) = [l]"
  proof (rule filter_unique)
    show "distinct (lots db2)" using wf by (auto simp: wf_def keys_ok_def distinct_map)
    show "m = l" if "m \<in> set (lots db2)" "cl_stripePaymentIntentId m = Some ?p" for m
      using find_payment [OF wf that] l(1) by simp
  qed (use lm in auto)
  ultimately show ?thesis using l(2) by blast
qed

definition demo_purchase :: GrantPurchasedCreditLotInput where
  "demo_purchase = \<lparr>gi_organizationId = ''org'', gi_packId = ''pack_25'', gi_creditsGranted = 25,
     gi_unitAmountCents = 49900, gi_currency = ''eur'', gi_billingCountry = Some ''FR'',
     gi_stripePaymentIntentId = ''pi_1'', gi_stripeCheckoutSessionId = Some ''cs_1'',
     gi_stripeInvoiceId = None, gi_stripeEventId = Some ''evt_1'', gi_now = 5\<rparr>"

definition demo_paid :: credit_db where
  "demo_paid = snd (grantPurchasedCreditLot (no_faults, no_faults) demo_ids demo_purchase empty_db)"

lemma demo_paid_reachable: "ledger_reachable demo_paid"
  unfolding ledger_reachable_def demo_paid_def
  by (rule grant_steps [where flt = "(no_faults, no_faults)" and ids = demo_ids and i = demo_purchase
        and r = "fst (grantPurchasedCreditLot (no_faults, no_faults) demo_ids demo_purchase empty_db)"]) simp

lemma empty_reachable: "ledger_reachable empty_db"
  by (simp add: ledger_reachable_def)

lemma demo_grant:
  "grantPurchasedCreditLot (no_faults, no_faults) demo_ids demo_purchase empty_db = (Inr (Granted ''lot1''), demo_paid)"
  by code_simp

theorem purchase_granted_once_witness:
  "grantPurchasedCreditLot (no_faults, no_faults) demo_ids
     (demo_purchase\<lparr>gi_stripeEventId := Some ''evt_2'', gi_now := 9\<rparr>) demo_paid = (Inr AlreadyGranted, demo_paid)"
  using purchase_granted_once [OF empty_reachable demo_grant rtranclp.rtrancl_refl,
      of "demo_purchase\<lparr>gi_stripeEventId := Some ''evt_2'', gi_now := 9\<rparr>" demo_ids]
  by (simp add: demo_purchase_def)

lemma ensureWallet_writes:
  assumes "ensureWallet flt ids org now days db = (r, db')"
  shows "db' = db \<or> findWallet org db = None \<and>
    (\<exists>d. lots db' = lots db @ [firstFiveLot (fresh_freeLotId ids) org now d])"
proof (cases "findWallet org db")
  case (Some w)
  with assms show ?thesis by (simp add: ensureWallet_def)
next
  case None
  let ?days = "case days of None \<Rightarrow> FIRST_FIVE_EXPIRY_DAYS | Some d \<Rightarrow> d"
  obtain q db1 where run: "runTransaction flt (ensureWalletTx (fresh_walletId ids) (fresh_freeLotId ids)
      org now ?days) db = (q, db1)"
    by (metis surj_pair)
  have "db' = db1"
    using assms run None by (auto simp: ensureWallet_def Let_def split: sum.splits option.splits if_splits)
  show ?thesis
  proof (rule runTransaction_cases [OF run])
    fix a
    assume "ensureWalletTx (fresh_walletId ids) (fresh_freeLotId ids) org now ?days db = Inr (a, db1)"
    then show ?thesis using None \<open>db' = db1\<close>
      by (auto simp: ensureWalletTx_def tryLockWallet_def tx_Inr createEntry_Inr
          dest!: createWallet_Inr createLot_Inr)
  qed (use \<open>db' = db1\<close> in simp)
qed

text \<open>
  a payment that another organization's lot already carries is never credited a second
  time: the grant fails with an error, whatever the database does, and no purchased lot is
  added; the most the call leaves behind is the buyer's own wallet with its free grant.
\<close>
theorem foreign_payment_never_granted:
  assumes "ledger_reachable db"
    and "findLotByPayment (gi_stripePaymentIntentId i) db = Some l"
    and "cl_organizationId l \<noteq> gi_organizationId i"
    and "grantPurchasedCreditLot flt ids i db = (r, db')"
  shows "(\<exists>e. r = Inl e) \<and> (lots db' = lots db \<or>
    (\<exists>d. lots db' = lots db @ [firstFiveLot (fresh_freeLotId ids) (gi_organizationId i) (gi_now i) d]))"
proof (cases "gi_creditsGranted i \<le> 0 \<or> gi_unitAmountCents i < 0")
  case True
  with assms(4) show ?thesis by (auto simp: grantPurchasedCreditLot_def)
next
  case False
  let ?p = "gi_stripePaymentIntentId i" and ?org = "gi_organizationId i"
  obtain q db1 where ens: "ensureWallet (fst flt) ids ?org (gi_now i)
      (Some PAID_CREDIT_EXPIRY_DAYS) db = (q, db1)"
    by (metis surj_pair)
  have lots1: "lots db1 = lots db \<or>
      (\<exists>d. lots db1 = lots db @ [firstFiveLot (fresh_freeLotId ids) ?org (gi_now i) d])"
    using ensureWallet_writes [OF ens] by auto
  have found: "findLotByPayment ?p db1 = Some l"
    using assms(2) lots1 by (auto simp: findLotByPayment_def find_row_append)
  obtain g db2 where run: "runInWalletTransaction (snd flt) ?org (grantTx (fresh_lotId ids) i) db1 = (g, db2)"
    by (metis surj_pair)
  have "grantTx (fresh_lotId ids) i db1 = Inl UniqueViolation"
    using found assms(3) grantWritesTx_tripwire [of i db1]
    by (simp add: grantTx_def tx_bind_def tx_get_def)
  then have "(\<exists>e. g = Inl e) \<and> db2 = db1" using run by (auto elim!: runInWallet_cases)
  then show ?thesis
    using assms(3,4) False ens run found lots1
    by (auto simp: grantPurchasedCreditLot_def split: sum.splits option.splits if_splits)
qed

theorem foreign_payment_never_granted_witness:
  "\<exists>e. fst (grantPurchasedCreditLot (no_faults, no_faults)
      \<lparr>fresh_walletId = ''w2'', fresh_freeLotId = ''lot2'', fresh_lotId = ''lot3'', fresh_reservationId = ''r2''\<rparr>
      (demo_purchase\<lparr>gi_organizationId := ''other''\<rparr>) demo_paid) = Inl e"
proof -
  have "findLotByPayment ''pi_1'' demo_paid = Some (purchasedLot ''lot1'' demo_purchase)" by code_simp
  then show ?thesis
    using foreign_payment_never_granted [OF demo_paid_reachable,
        of "demo_purchase\<lparr>gi_organizationId := ''other''\<rparr>" "purchasedLot ''lot1'' demo_purchase"
           "(no_faults, no_faults)"]
    by (auto simp: demo_purchase_def purchasedLot_def prod_eq_iff)
qed

lemma grantTx_locks:
  assumes run: "grantTx lid i db = Inr (Granted k, db')" and inv: "ledger_inv db"
    and amount: "0 \<le> gi_creditsGranted i"
  shows "\<exists>w. findWallet (gi_organizationId i) db' = Some w \<and>
    cw_settlementCurrency w = Some (js_toUpperCase (gi_currency i))"
  using run
proof (cases rule: grantTx_cases)
  case (granted d)
  obtain w where w: "findWallet (gi_organizationId i) d = Some w"
      "cw_settlementCurrency w = Some (js_toUpperCase (gi_currency i))"
    using currencyGateTx_inv [OF inv granted(2)] by auto
  have "wf db'" using hoareD [OF grantTx_inv [OF amount] inv run] by (simp add: ledger_inv_def)
  then obtain v where "findWallet (gi_organizationId i) db' = Some v" "wallet_evolves w v"
    using evolved_wallet [OF grantWritesTx_evolves [OF granted(3)] _ w(1)] by metis
  with w(2) show ?thesis by (auto simp: wallet_evolves_def)
qed simp_all

text \<open>
  an organization never holds credits bought in two currencies: if two purchases of one
  organization are both granted, whatever runs between them, their currencies are the same
  once upper-cased. The first grant locks the wallet, and nothing unlocks it.
\<close>
theorem purchases_share_currency:
  assumes "ledger_reachable db"
    and "grantPurchasedCreditLot flt ids i db = (Inr (Granted k), db1)"
    and "ledger_step\<^sup>*\<^sup>* db1 db2"
    and "grantPurchasedCreditLot flt' ids' j db2 = (Inr (Granted m), db3)"
    and "gi_organizationId j = gi_organizationId i"
  shows "js_toUpperCase (gi_currency j) = js_toUpperCase (gi_currency i)"
proof -
  obtain d where d: "ledger_step\<^sup>*\<^sup>* db d" "grantTx (fresh_lotId ids) i d = Inr (Granted k, db1)"
      "0 < gi_creditsGranted i" by (rule grant_commits [OF assms(2)])
  obtain e where e: "ledger_step\<^sup>*\<^sup>* db2 e" "grantTx (fresh_lotId ids') j e = Inr (Granted m, db3)"
      "0 < gi_creditsGranted j" by (rule grant_commits [OF assms(4)])
  have inv_d: "ledger_inv d" using ledger_steps_evolve [OF d(1) reachable_inv [OF assms(1)]] by simp
  have inv1: "ledger_inv db1" using hoareD [OF grantTx_inv inv_d d(2)] d(3) by simp
  have "ledger_step\<^sup>*\<^sup>* db1 e" using assms(3) e(1) by simp
  note mid = ledger_steps_evolve [OF this inv1]
  have inv3: "ledger_inv db3" using hoareD [OF grantTx_inv conjunct1 [OF mid] e(2)] e(3) by simp
  have "evolves e db3" using grantTx_evolves [OF e(2)] mid by (simp add: ledger_inv_def)
  with mid have ev: "evolves db1 db3" by (blast intro: evolves_trans)
  obtain w where w: "findWallet (gi_organizationId i) db1 = Some w"
      "cw_settlementCurrency w = Some (js_toUpperCase (gi_currency i))"
    using grantTx_locks [OF d(2) inv_d] d(3) by auto
  obtain v where v: "findWallet (gi_organizationId i) db3 = Some v" "wallet_evolves w v"
    using evolved_wallet [OF ev _ w(1)] inv3 by (auto simp: ledger_inv_def)
  show ?thesis
    using grantTx_locks [OF e(2) conjunct1 [OF mid]] e(3) v w(2) assms(5)
    by (auto simp: wallet_evolves_def)
qed

definition demo_purchase2 :: GrantPurchasedCreditLotInput where
  "demo_purchase2 = demo_purchase\<lparr>gi_currency := ''EUR'', gi_stripePaymentIntentId := ''pi_2'',
     gi_stripeCheckoutSessionId := Some ''cs_2''\<rparr>"

theorem purchases_share_currency_witness:
  "js_toUpperCase (gi_currency demo_purchase2) = js_toUpperCase (gi_currency demo_purchase)"
proof -
  have "\<exists>db3. grantPurchasedCreditLot (no_faults, no_faults) (demo_ids\<lparr>fresh_lotId := ''lot2''\<rparr>) demo_purchase2
      demo_paid = (Inr (Granted ''lot2''), db3)"
    by (rule exI [of _ "snd (grantPurchasedCreditLot (no_faults, no_faults)
          (demo_ids\<lparr>fresh_lotId := ''lot2''\<rparr>) demo_purchase2 demo_paid)"]) code_simp
  moreover have "gi_organizationId demo_purchase2 = gi_organizationId demo_purchase"
    by (simp add: demo_purchase2_def)
  ultimately show ?thesis
    using purchases_share_currency [OF empty_reachable demo_grant rtranclp.rtrancl_refl] by blast
qed
end
