(* ===== verification/LedgerFlows.thy ===== *)
theory LedgerFlows
  imports LedgerProps
begin

text \<open>
  Reservation, release, audit, dispute and refund flows: what each answers and writes, that
  the sweeps cannot fail on a sound ledger, and that the audit agrees with the counters
  exactly when no sweep is outstanding.
\<close>

section \<open>The sweeps never fail on a sound ledger\<close>

lemma updateLot_total: "k \<in> cl_id ` set (lots db) \<Longrightarrow> \<exists>l. findLot k db = Some l"
  by (cases "findLot k db") (auto simp: findLot_def find_row_None_iff)

lemma expireRows_total:
  "\<forall>row\<in>set rows. lot_ok row \<and> cl_id row \<in> cl_id ` set (lots db) \<Longrightarrow>
   \<exists>r db'. expireRows org rows ids w db = Inr (r, db') \<and> wallets db' = wallets db"
proof (induction rows arbitrary: ids w db)
  case Nil
  then show ?case by (simp add: tx_return_def)
next
  case (Cons row rows)
  define f :: "LotRow \<Rightarrow> LotRow" where "f = (\<lambda>l. l\<lparr>cl_status := Known Expired\<rparr>)"
  obtain l where l: "findLot (cl_id row) db = Some l" using Cons.prems updateLot_total
    by (metis list.set_intros(1))
  have snap: "toLotSnapshot row = Inr (snapshot_of row)" using Cons.prems by (simp add: snapshot_total)
  have keep: "cl_id ` set (update_row cl_id k f ls) = cl_id ` set ls" for k ls
    by (intro keys_update_row) (simp add: f_def)
  have "\<exists>r db'. expireRows org rows ids' w'
      (db\<lparr>lots := update_row cl_id (cl_id row) f (lots db), entries := entries db @ [e]\<rparr>) = Inr (r, db') \<and>
      wallets db' = wallets db" for ids' w' e
    using Cons.IH [of "db\<lparr>lots := update_row cl_id (cl_id row) f (lots db), entries := entries db @ [e]\<rparr>"]
      Cons.prems by (simp add: keep)
  then show ?case
    using l by (simp add: snap tx_lift_def tx_bind_def tx_then_def updateLot_def createEntry_def
        tx_modify_def Let_def flip: f_def)
qed

lemma moveCredits_total:
  "findWallet org db = Some w \<Longrightarrow> \<exists>r db'. moveCredits org a b db = Inr (r, db')"
  by (simp add: moveCredits_def updateWallet_def)

lemma expireDueLotsInTx_total:
  assumes inv: "ledger_inv db" and w: "findWallet org db = Some w"
  shows "\<exists>ids db'. expireDueLotsInTx org now db = Inr (ids, db')"
proof -
  define rows where "rows = filter (\<lambda>l. cl_organizationId l = org \<and> cl_status l = Known Active \<and>
      cl_expiresAt l \<le> now) (lots db)"
  have "\<forall>row\<in>set rows. lot_ok row \<and> cl_id row \<in> cl_id ` set (lots db)"
    using inv wf_lot_ok by (auto simp: rows_def ledger_inv_def)
  then obtain ids k db1 where run: "expireRows org rows [] 0 db = Inr ((ids, k), db1)"
      "wallets db1 = wallets db"
    using expireRows_total by (metis surj_pair)
  have "findWallet org db1 = Some w" using w run(2) by (simp add: findWallet_def)
  then obtain r db2 where "moveCredits org (- k) 0 db1 = Inr (r, db2)" using moveCredits_total by metis
  note move = this
  have eq: "expireDueLotsInTx org now db = (if rows = [] then tx_return []
      else tx_bind (expireRows org rows [] 0) (\<lambda>(expiredLotIds, writtenOff).
        if writtenOff > 0 then tx_then (moveCredits org (- writtenOff) 0) (tx_return expiredLotIds)
        else tx_return expiredLotIds)) db"
    by (simp add: expireDueLotsInTx_def tx_bind_def tx_get_def rows_def)
  show ?thesis
  proof (cases "rows = []")
    case True
    then show ?thesis unfolding eq by (simp add: tx_return_def)
  next
    case False
    then show ?thesis
      unfolding eq using run(1) move by (auto simp: tx_bind_def tx_then_def tx_return_def)
  qed
qed

lemma releaseReservationRow_total:
  assumes "cr_lotId x \<in> cl_id ` set (lots db)" and "cr_id x \<in> cr_id ` set (reservations db)"
  shows "\<exists>d db'. releaseReservationRow x now reason db = Inr (d, db') \<and> wallets db' = wallets db \<and>
    cl_id ` set (lots db') = cl_id ` set (lots db) \<and>
    cr_id ` set (reservations db') = cr_id ` set (reservations db)"
proof -
  obtain l where l: "findLot (cr_lotId x) db = Some l" using updateLot_total [OF assms(1)] by blast
  obtain r where r: "find_row cr_id (cr_id x) (reservations db) = Some r"
    using assms(2) by (cases "find_row cr_id (cr_id x) (reservations db)") (auto simp: find_row_None_iff)
  have k1: "cl_id ` set (update_row cl_id k (\<lambda>l. l\<lparr>cl_creditsReserved := cl_creditsReserved l - 1\<rparr>) ls)
      = cl_id ` set ls" for k ls
    by (intro keys_update_row) simp
  have k2: "cr_id ` set (update_row cr_id k
      (\<lambda>r. r\<lparr>cr_status := Known Released, cr_resolvedAt := Some now\<rparr>) rs) = cr_id ` set rs" for k rs
    by (intro keys_update_row) simp
  show ?thesis
    using l r by (simp add: releaseReservationRow_def tx_bind_def tx_then_def tx_return_def updateLot_def
        updateReservation_def createEntry_def tx_modify_def k1 k2)
qed

lemma releaseRows_total:
  "\<forall>x\<in>set due. cr_lotId x \<in> cl_id ` set (lots db) \<and> cr_id x \<in> cr_id ` set (reservations db) \<Longrightarrow>
   \<exists>r db'. releaseRows due now d db = Inr (r, db') \<and> wallets db' = wallets db"
proof (induction due arbitrary: d db)
  case Nil
  then show ?case by (simp add: tx_return_def)
next
  case (Cons x due)
  obtain b db1 where row: "releaseReservationRow x now ''reservation_ttl_expired'' db = Inr (b, db1)"
      "wallets db1 = wallets db" "cl_id ` set (lots db1) = cl_id ` set (lots db)"
      "cr_id ` set (reservations db1) = cr_id ` set (reservations db)"
    using releaseReservationRow_total [of x db now "''reservation_ttl_expired''"] Cons.prems by auto
  have "\<exists>r db'. releaseRows due now (d + b) db1 = Inr (r, db') \<and> wallets db' = wallets db1"
    by (rule Cons.IH) (use Cons.prems row in simp)
  with row show ?case by (simp add: tx_bind_def)
qed

lemma releaseExpiredReservationsInTx_total:
  assumes inv: "ledger_inv db" and w: "findWallet org db = Some w"
  shows "\<exists>n db'. releaseExpiredReservationsInTx org now db = Inr (n, db')"
proof -
  have wf: "wf db" using inv by (simp add: ledger_inv_def)
  define due where "due = filter (\<lambda>r. cr_organizationId r = org \<and> cr_status r = Known Held \<and>
      cr_expiresAt r \<le> now) (reservations db)"
  have "cr_lotId x \<in> cl_id ` set (lots db) \<and> cr_id x \<in> cr_id ` set (reservations db)" if "x \<in> set due" for x
    using that wf by (auto simp: due_def wf_def refs_ok_def) (metis image_eqI)
  then obtain d db1 where run: "releaseRows due now 0 db = Inr (d, db1)" "wallets db1 = wallets db"
    using releaseRows_total by metis
  have "findWallet org db1 = Some w" using w run(2) by (simp add: findWallet_def)
  then obtain r db2 where "moveCredits org d (- int (length due)) db1 = Inr (r, db2)"
    using moveCredits_total by metis
  note move = this
  have eq: "releaseExpiredReservationsInTx org now db = (if due = [] then tx_return 0
      else tx_bind (releaseRows due now 0) (\<lambda>availableDelta.
        tx_then (moveCredits org availableDelta (- int (length due))) (tx_return (int (length due))))) db"
    by (simp add: releaseExpiredReservationsInTx_def tx_bind_def tx_get_def due_def)
  show ?thesis
  proof (cases "due = []")
    case True
    then show ?thesis unfolding eq by (simp add: tx_return_def)
  next
    case False
    then show ?thesis
      unfolding eq using run(1) move by (auto simp: tx_bind_def tx_then_def tx_return_def)
  qed
qed

section \<open>The audit\<close>

definition stranded :: "string \<Rightarrow> int \<Rightarrow> LotRow \<Rightarrow> int" where
  "stranded org now l = (if cl_organizationId l = org \<and> cl_status l = Known Active \<and>
     cl_expiresAt l \<le> now then lotAvailable l else 0)"

lemma snapshot_of_fields:
  assumes "lot_ok row"
  shows "availableInLot (snapshot_of row) = lotAvailable row"
    "lot_status (snapshot_of row) = toLotStatus (cl_status row)"
    "creditsReserved (snapshot_of row) = cl_creditsReserved row"
    "expiresAt (snapshot_of row) = cl_expiresAt row"
  using snapshot_Inr [OF snapshot_total [OF assms]] by simp_all

lemma clock_available:
  assumes "\<forall>l\<in>set ls. lot_ok l"
  shows "sum_by (activeAvailable org) ls = sum_by (stranded org now) ls +
    tot_available (computeWalletTotals (map snapshot_of (filter (\<lambda>l. cl_organizationId l = org) ls)) now)"
  using assms
proof (induction ls)
  case (Cons l ls)
  have "tot_available (computeWalletTotals (map snapshot_of (filter (\<lambda>l. cl_organizationId l = org) (l # ls))) now)
    = (if cl_organizationId l = org \<and> isLotClockActive (snapshot_of l) now then lotAvailable l else 0)
      + tot_available (computeWalletTotals (map snapshot_of (filter (\<lambda>l. cl_organizationId l = org) ls)) now)"
    using Cons.prems by (simp add: computeWalletTotals_def Let_def snapshot_of_fields)
  moreover have "isLotClockActive (snapshot_of l) now \<longleftrightarrow> cl_status l = Known Active \<and> cl_expiresAt l > now"
    using Cons.prems by (simp add: isLotClockActive_def snapshot_of_fields toLotStatus_Active)
  ultimately show ?case
    using Cons by (cases "cl_expiresAt l \<le> now") (simp_all add: activeAvailable_def stranded_def)
qed (simp add: computeWalletTotals_def Let_def)

lemma reserved_total:
  "\<forall>l\<in>set ls. lot_ok l \<Longrightarrow> sum_by creditsReserved
     (map snapshot_of (filter (\<lambda>l. cl_organizationId l = org) ls)) = sum_by (reservedOf org) ls"
  by (induction ls) (simp_all add: reservedOf_def snapshot_of_fields)

lemma audit_exact:
  assumes "ledger_reachable db" and "findWallet org db = Some w"
  shows "\<exists>audit. reconcileWallet no_faults org now db = (Inr audit, db) \<and>
    (rec_consistent audit \<longleftrightarrow> \<not> (\<exists>l\<in>set (lots db). cl_organizationId l = org \<and>
       cl_status l = Known Active \<and> cl_expiresAt l \<le> now \<and> 0 < lotAvailable l)) \<and>
    fst (rec_actual audit) - fst (rec_expected audit) = sum_by (stranded org now) (lots db) \<and>
    snd (rec_actual audit) = snd (rec_expected audit)"
proof -
  have inv: "ledger_inv db" by (rule reachable_inv [OF assms(1)])
  have ok: "\<forall>l\<in>set (lots db). lot_ok l" using inv wf_lot_ok by (auto simp: ledger_inv_def)
  define rows where "rows = filter (\<lambda>l. cl_organizationId l = org) (lots db)"
  have snaps: "traverse toLotSnapshot rows = Inr (map snapshot_of rows)"
    using ok by (intro traverse_map) (simp add: rows_def snapshot_total)
  define T where "T = computeWalletTotals (map snapshot_of rows) now"
  define audit where "audit = \<lparr>rec_consistent = (tot_available T = cw_availableCredits w \<and>
      tot_reserved T = cw_reservedCredits w \<and> ledgerSum org db = cw_availableCredits w),
      rec_expected = (tot_available T, tot_reserved T),
      rec_actual = (cw_availableCredits w, cw_reservedCredits w)\<rparr>"
  have "reconcileTx org now db = Inr (audit, db)"
    using assms(2) snaps
    by (simp add: reconcileTx_def tx_bind_def or_throw_def tx_get_def tx_lift_def tx_return_def
        rows_def T_def audit_def Let_def)
  then have run: "reconcileWallet no_faults org now db = (Inr audit, db)"
    unfolding reconcileWallet_def by (rule runInWallet_no_faults [OF assms(2)])
  have avail: "cw_availableCredits w = sum_by (stranded org now) (lots db) + tot_available T"
    using wallet_equations(3) [OF inv assms(2)] clock_available [OF ok] by (simp add: T_def rows_def)
  have res: "tot_reserved T = cw_reservedCredits w"
    using wallet_equations(4) [OF inv assms(2)] reserved_total [OF ok]
    by (simp add: T_def rows_def totals_reserved)
  have nonneg: "0 \<le> stranded org now l" if "l \<in> set (lots db)" for l
    using ok that by (auto simp: stranded_def lot_ok_def lotAvailable_def)
  have "sum_by (stranded org now) (lots db) = 0 \<longleftrightarrow> \<not> (\<exists>l\<in>set (lots db). cl_organizationId l = org \<and>
       cl_status l = Known Active \<and> cl_expiresAt l \<le> now \<and> 0 < lotAvailable l)"
  proof
    assume zero: "sum_by (stranded org now) (lots db) = 0"
    have "stranded org now l \<le> 0" if "l \<in> set (lots db)" for l
      using sum_by_mem_le [of "lots db" "stranded org now", OF nonneg that] zero by simp
    then show "\<not> (\<exists>l\<in>set (lots db). cl_organizationId l = org \<and>
       cl_status l = Known Active \<and> cl_expiresAt l \<le> now \<and> 0 < lotAvailable l)"
      by (force simp: stranded_def)
  next
    assume "\<not> (\<exists>l\<in>set (lots db). cl_organizationId l = org \<and>
       cl_status l = Known Active \<and> cl_expiresAt l \<le> now \<and> 0 < lotAvailable l)"
    then show "sum_by (stranded org now) (lots db) = 0"
      using nonneg by (intro sum_by_zero) (fastforce simp: stranded_def)
  qed
  with avail res run show ?thesis
    using wallet_equations(1) [OF inv assms(2)] by (intro exI [of _ audit]) (auto simp: audit_def)
qed

text \<open>
  the audit never cries wolf and never misses: in a reachable state \<open>reconcileWallet\<close>
  writes nothing and reports a wallet consistent exactly when no active lot of the
  organization that still has a free credit has passed its expiry; the gap between the
  stored and the expected available counter is the credits of those lots, and the reserved
  counter always agrees.
\<close>
theorem audit_flags_exactly_due_lots:
  assumes "ledger_reachable db" and "findWallet org db = Some w"
  shows "\<exists>audit. reconcileWallet no_faults org now db = (Inr audit, db) \<and>
    (rec_consistent audit \<longleftrightarrow> \<not> (\<exists>l\<in>set (lots db). cl_organizationId l = org \<and>
       cl_status l = Known Active \<and> cl_expiresAt l \<le> now \<and> 0 < lotAvailable l)) \<and>
    fst (rec_actual audit) - fst (rec_expected audit) = sum_by (stranded org now) (lots db) \<and>
    snd (rec_actual audit) = snd (rec_expected audit)"
  by (rule audit_exact [OF assms])

theorem audit_flags_exactly_due_lots_witness:
  "rec_consistent (case fst (reconcileWallet no_faults ''org'' 7 demo_held) of Inr a \<Rightarrow> a)"
proof -
  have "findWallet ''org'' demo_held = Some (the (findWallet ''org'' demo_held))"
    "\<not> (\<exists>l\<in>set (lots demo_held). cl_organizationId l = ''org'' \<and> cl_status l = Known Active \<and>
       cl_expiresAt l \<le> 7 \<and> 0 < lotAvailable l)" by code_simp+
  with audit_flags_exactly_due_lots [OF demo_held_reachable, of "''org''" _ 7] show ?thesis by fastforce
qed

section \<open>Expiry leaves nothing due\<close>

lemma expireRows_lots:
  "expireRows org rows ids w db = Inr (r, db') \<Longrightarrow>
   lots db' = map (\<lambda>l. if cl_id l \<in> cl_id ` set rows then l\<lparr>cl_status := Known Expired\<rparr> else l) (lots db)"
proof (induction rows arbitrary: ids w db)
  case Nil
  then show ?case by (simp add: tx_Inr)
next
  case (Cons row rows)
  obtain ul db1 e u db2 ids' w' where steps:
      "updateLot (cl_id row) (\<lambda>l. l\<lparr>cl_status := Known Expired\<rparr>) db = Inr (ul, db1)"
      "createEntry e db1 = Inr (u, db2)" "expireRows org rows ids' w' db2 = Inr (r, db')"
    using Cons.prems by (auto simp: tx_Inr Let_def)
  have "lots db2 = update_row cl_id (cl_id row) (\<lambda>l. l\<lparr>cl_status := Known Expired\<rparr>) (lots db)"
    using steps(1,2) by (auto simp: updateLot_Inr createEntry_Inr)
  with Cons.IH [OF steps(3)] show ?case by (auto simp: update_row_def)
qed

lemma expireDueLotsInTx_none_due:
  assumes run: "expireDueLotsInTx org now db = Inr (ids, db')"
    and "l \<in> set (lots db')" "cl_organizationId l = org" "cl_status l = Known Active"
  shows "now < cl_expiresAt l"
proof -
  define rows where "rows = filter (\<lambda>l. cl_organizationId l = org \<and> cl_status l = Known Active \<and>
      cl_expiresAt l \<le> now) (lots db)"
  consider (none) "rows = []" "db' = db" | (some) ids' w db1 where
      "expireRows org rows [] 0 db = Inr ((ids', w), db1)" "lots db' = lots db1"
    using run by (auto simp: expireDueLotsInTx_def tx_Inr moveCredits_def updateWallet_Inr
        split: if_splits simp flip: rows_def)
  then show ?thesis
  proof cases
    case none
    then show ?thesis using assms(2-4) by (auto simp: rows_def filter_empty_conv)
  next
    case some
    then obtain m where "m \<in> set (lots db)" "cl_id m \<notin> cl_id ` set rows" "l = m"
      using assms(2,4) expireRows_lots [OF some(1)] by (auto split: if_splits)
    then show ?thesis using assms(3,4) by (force simp: rows_def)
  qed
qed

lemma sweep_clean:
  assumes "ledger_reachable db" and "findWallet org db = Some w"
  shows "\<exists>ids db' audit. expireDueLots no_faults org now db = (Inr ids, db') \<and>
    (\<forall>l\<in>set (lots db'). cl_organizationId l = org \<longrightarrow> cl_status l = Known Active \<longrightarrow> now < cl_expiresAt l) \<and>
    reconcileWallet no_faults org now db' = (Inr audit, db') \<and> rec_consistent audit"
proof -
  have inv: "ledger_inv db" by (rule reachable_inv [OF assms(1)])
  obtain ids db' where tx: "expireDueLotsInTx org now db = Inr (ids, db')"
    using expireDueLotsInTx_total [OF inv assms(2)] by blast
  have run: "expireDueLots no_faults org now db = (Inr ids, db')"
    by (simp add: expireDueLots_def runInWallet_no_faults [OF assms(2)] tx)
  have step: "ledger_step db db'" by (rule step_expire [OF tx])
  have reach: "ledger_reachable db'"
    using assms(1) step unfolding ledger_reachable_def by simp
  obtain v where v: "findWallet org db' = Some v"
    using evolved_wallet [OF ledger_step_evolves [OF step inv] _ assms(2)] reachable_inv [OF reach]
    by (auto simp: ledger_inv_def)
  have clean: "\<forall>l\<in>set (lots db'). cl_organizationId l = org \<longrightarrow> cl_status l = Known Active \<longrightarrow> now < cl_expiresAt l"
    using expireDueLotsInTx_none_due [OF tx] by blast
  obtain audit where "reconcileWallet no_faults org now db' = (Inr audit, db')" "rec_consistent audit"
    using audit_exact [OF reach v, of now] clean by fastforce
  with run clean show ?thesis by blast
qed

text \<open>
  a sweep makes the audit clean: from a reachable state with a wallet, \<open>expireDueLots\<close>
  succeeds when the database does, afterwards no active lot of the organization is past its
  expiry, and the audit of the same moment reports the wallet consistent.
\<close>
theorem sweep_cleans_audit:
  assumes "ledger_reachable db" and "findWallet org db = Some w"
  shows "\<exists>ids db' audit. expireDueLots no_faults org now db = (Inr ids, db') \<and>
    (\<forall>l\<in>set (lots db'). cl_organizationId l = org \<longrightarrow> cl_status l = Known Active \<longrightarrow> now < cl_expiresAt l) \<and>
    reconcileWallet no_faults org now db' = (Inr audit, db') \<and> rec_consistent audit"
  by (rule sweep_clean [OF assms])

theorem sweep_cleans_audit_witness:
  "\<exists>ids db' audit. expireDueLots no_faults ''org'' (40 * DAY_MS) demo_held = (Inr ids, db') \<and>
     reconcileWallet no_faults ''org'' (40 * DAY_MS) db' = (Inr audit, db') \<and> rec_consistent audit"
proof -
  have "findWallet ''org'' demo_held = Some (the (findWallet ''org'' demo_held))" by code_simp
  from sweep_cleans_audit [OF demo_held_reachable this] show ?thesis by blast
qed

section \<open>Reserving a credit\<close>

lemma loadLots_covers:
  assumes "loadLots org db = Inr (snaps, db')" and "l \<in> set (lots db)" "cl_organizationId l = org"
    "cl_status l = Known Active"
  shows "\<exists>s\<in>set snaps. availableInLot s = lotAvailable l \<and> lot_status s = Active \<and> expiresAt s = cl_expiresAt l"
proof -
  have "traverse toLotSnapshot (filter (\<lambda>l. cl_organizationId l = org \<and> cl_status l = Known Active) (lots db))
      = Inr snaps"
    using assms(1) by (auto simp: loadLots_def tx_Inr)
  then obtain s where "s \<in> set snaps" "toLotSnapshot l = Inr s"
    using traverse_covers assms(2-4) by fastforce
  then show ?thesis using snapshot_Inr assms(4) by (metis toLotStatus_Active)
qed

lemma reserve_commits:
  assumes "reserveCreditForSession flt ids org s now db = (Inr a, db')" and "ledger_inv db"
  obtains db1 where "ledger_step\<^sup>*\<^sup>* db db1" "ledger_inv db1"
    "reserveTx (fresh_reservationId ids) org s now db1 = Inr (a, db')"
proof -
  obtain q db1 where ens: "ensureWallet (fst flt) ids org now None db = (q, db1)"
    by (metis surj_pair)
  obtain g db2 where run: "runInWalletTransaction (snd flt) org
      (reserveTx (fresh_reservationId ids) org s now) db1 = (g, db2)"
    by (metis surj_pair)
  have "g = Inr a" "db2 = db'"
    using assms(1) ens run by (auto simp: reserveCreditForSession_def split: sum.splits)
  then have "reserveTx (fresh_reservationId ids) org s now db1 = Inr (a, db')"
    using run by (auto elim: runInWallet_cases)
  moreover have steps: "ledger_step\<^sup>*\<^sup>* db db1" using ensureWallet_steps [OF ens] by auto
  ultimately show thesis using that ledger_steps_evolve [OF steps assms(2)] by blast
qed

lemma releaseRows_sessions:
  "releaseRows due now d db = Inr (r, db') \<Longrightarrow>
   map cr_candidateSessionId (reservations db') = map cr_candidateSessionId (reservations db)"
proof (induction due arbitrary: d db)
  case (Cons x due)
  obtain b db1 where row: "releaseReservationRow x now ''reservation_ttl_expired'' db = Inr (b, db1)"
      and rest: "releaseRows due now (d + b) db1 = Inr (r, db')"
    using Cons.prems by (auto simp: tx_Inr)
  have "map cr_candidateSessionId (reservations db1) = map cr_candidateSessionId (reservations db)"
    using row by (auto simp: releaseReservationRow_def tx_Inr db_Inr row_simps split: if_splits)
  with Cons.IH [OF rest] show ?case by simp
qed (simp add: tx_Inr)

lemma sweeps_keep_sessions:
  assumes "releaseExpiredReservationsInTx org now db = Inr (n, db')"
  shows "map cr_candidateSessionId (reservations db') = map cr_candidateSessionId (reservations db)"
proof -
  define due where "due = filter (\<lambda>r. cr_organizationId r = org \<and> cr_status r = Known Held \<and>
      cr_expiresAt r \<le> now) (reservations db)"
  consider "db' = db" | d db1 where "releaseRows due now 0 db = Inr (d, db1)"
      "reservations db' = reservations db1"
    using assms by (auto simp: releaseExpiredReservationsInTx_def tx_Inr moveCredits_def updateWallet_Inr
        split: if_splits simp flip: due_def)
  then show ?thesis by cases (auto dest: releaseRows_sessions)
qed

text \<open>The row a committed hold leaves.\<close>

lemma holdCreditTx_row:
  assumes run: "holdCreditTx rid org s now existing lotId db = Inr (a, db')" and wf: "wf db"
    and old: "existing = findReservation s db" "\<And>e. existing = Some e \<Longrightarrow> cr_organizationId e = org"
  shows "\<exists>row. findReservation s db' = Some row \<and> a = ReserveOk (cr_id row) \<and> cr_organizationId row = org \<and>
    cr_lotId row = lotId \<and> cr_status row = Known Held \<and> cr_expiresAt row = now + RESERVATION_TTL_HOURS * HOUR_MS"
proof -
  define g :: "ReservationRow \<Rightarrow> ReservationRow" where "g = (\<lambda>r. r\<lparr>cr_lotId := lotId,
      cr_status := Known Held, cr_heldAt := now, cr_expiresAt := now + RESERVATION_TTL_HOURS * HOUR_MS,
      cr_resolvedAt := None\<rparr>)"
  define n where "n = \<lparr>cr_id = rid, cr_organizationId = org, cr_candidateSessionId = s,
      cr_lotId = lotId, cr_status = Known Held, cr_heldAt = now,
      cr_expiresAt = now + RESERVATION_TTL_HOURS * HOUR_MS, cr_resolvedAt = None\<rparr>"
  obtain ul db1 ur db2 e u db3 w where steps:
    "updateLot lotId (\<lambda>l. l\<lparr>cl_creditsReserved := cl_creditsReserved l + 1\<rparr>) db = Inr (ul, db1)"
    "(case existing of Some e \<Rightarrow> updateReservation (cr_id e) g | None \<Rightarrow> createReservation n) db1
       = Inr (ur, db2)"
    "createEntry e db2 = Inr (u, db3)" "moveCredits org (-1) 1 db3 = Inr (w, db')" "a = ReserveOk (cr_id ur)"
    using run unfolding holdCreditTx_def g_def n_def by (auto simp: tx_Inr Let_def)
  have same: "reservations db1 = reservations db" "reservations db' = reservations db2"
    using steps(1,3,4) by (auto simp: updateLot_Inr createEntry_Inr moveCredits_def updateWallet_Inr)
  show ?thesis
  proof (cases existing)
    case None
    then have "ur = n" "reservations db2 = reservations db @ [n]"
      using steps(2) same(1) by (auto dest: createReservation_Inr)
    then show ?thesis
      using None old(1) steps(5) same(2)
      by (auto simp: findReservation_def find_row_append n_def split: option.splits)
  next
    case (Some x)
    then have "findReservation s db = Some x" using old(1) by simp
    moreover have "reservations db2 = update_row cr_id (cr_id x) g (reservations db)" "ur = g x"
      using steps(2) Some same(1) wf_reservation_by_id [OF wf] old(1) wf_find_reservation [OF wf]
      by (auto simp: updateReservation_Inr)
    ultimately have "findReservation s db' = Some (g x)"
      using find_update_reservation [OF wf] same(2) by (simp add: findReservation_def g_def)
    then show ?thesis using steps(5) \<open>ur = g x\<close> old(2) [OF Some] by (simp add: g_def)
  qed
qed

lemma reserve_truth:
  assumes "ledger_reachable db"
    and "reserveCreditForSession flt ids org s now db = (Inr answer, db')"
  shows "case answer of
      ReserveOk k \<Rightarrow> \<exists>row. findReservation s db' = Some row \<and> cr_id row = k \<and> cr_organizationId row = org \<and>
        (cr_status row = Known Captured \<or>
         cr_status row = Known Held \<and> cr_expiresAt row = now + RESERVATION_TTL_HOURS * HOUR_MS)
    | NoCreditsAvailable \<Rightarrow> \<forall>l\<in>set (lots db'). cl_organizationId l = org \<longrightarrow> cl_status l = Known Active \<longrightarrow>
        now < cl_expiresAt l \<longrightarrow> lotAvailable l \<le> 0"
proof -
  obtain db1 where inv: "ledger_inv db1"
      and tx: "reserveTx (fresh_reservationId ids) org s now db1 = Inr (answer, db')"
    by (rule reserve_commits [OF assms(2) reachable_inv [OF assms(1)]])
  have wf: "wf db1" using inv by (simp add: ledger_inv_def)
  from tx inv show ?thesis
  proof (cases rule: reserveTx_cases)
    case (same e)
    then show ?thesis by simp
  next
    case (extended e)
    have "findReservation s db' = Some (e\<lparr>cr_expiresAt := now + RESERVATION_TTL_HOURS * HOUR_MS\<rparr>)"
      using find_update_reservation [OF wf extended(1)] by (simp add: findReservation_def extended(5))
    then show ?thesis using extended by simp
  next
    case (acquired n d1 lotIds d2 snaps)
    have wf2: "wf d2" using acquired(5) by (simp add: ledger_inv_def)
    show ?thesis
    proof (cases "selectLotForReservation snaps now")
      case None
      then have res: "answer = NoCreditsAvailable" "db' = d2" using acquired(7) by (simp_all add: tx_Inr)
      have "lotAvailable l \<le> 0" if l: "l \<in> set (lots d2)" "cl_organizationId l = org"
        "cl_status l = Known Active" "now < cl_expiresAt l" for l
        using loadLots_covers [OF acquired(6) l(1-3)] None l(4)
        by (fastforce simp: select_None isLotEligible_def)
      then show ?thesis using res by simp
    next
      case (Some lot)
      then have hold: "holdCreditTx (fresh_reservationId ids) org s now (findReservation s db1) (lot_id lot) d2
          = Inr (answer, db')" using acquired(7) by simp
      have old: "findReservation s db1 = findReservation s d2"
      proof (cases "findReservation s db1")
        case None
        have "map cr_candidateSessionId (reservations d2) = map cr_candidateSessionId (reservations db1)"
          using sweeps_keep_sessions [OF acquired(2)] hoareD [OF expireDueLotsInTx_inv _ acquired(4)]
            acquired(3) by simp
        then have "cr_candidateSessionId ` set (reservations d2) = cr_candidateSessionId ` set (reservations db1)"
          by (metis list.set_map)
        with None show ?thesis by (metis findReservation_def find_row_None_iff)
      next
        case (Some e)
        then have "cr_candidateSessionId e = s" using wf_find_reservation [OF wf] by simp
        with Some acquired(1) show ?thesis using wf_find_reservation [OF wf2, of s e] by simp
      qed
      show ?thesis
        using holdCreditTx_row [OF hold wf2 old] acquired(1) by auto
    qed
  qed
qed

text \<open>
  a reservation answers the truth. \<open>ok\<close> with an id means that very row now is the
  session's, belongs to the organization, and is captured already or held for the full TTL
  from now; \<open>no_credits_available\<close> means that no lot of the organization has a spendable
  credit left, even after every stale hold was released.
\<close>
theorem reserve_answers_truth:
  assumes "ledger_reachable db"
    and "reserveCreditForSession flt ids org s now db = (Inr answer, db')"
  shows "case answer of
      ReserveOk k \<Rightarrow> \<exists>row. findReservation s db' = Some row \<and> cr_id row = k \<and> cr_organizationId row = org \<and>
        (cr_status row = Known Captured \<or>
         cr_status row = Known Held \<and> cr_expiresAt row = now + RESERVATION_TTL_HOURS * HOUR_MS)
    | NoCreditsAvailable \<Rightarrow> \<forall>l\<in>set (lots db'). cl_organizationId l = org \<longrightarrow> cl_status l = Known Active \<longrightarrow>
        now < cl_expiresAt l \<longrightarrow> lotAvailable l \<le> 0"
  by (rule reserve_truth [OF assms])

lemma demo_reserve:
  "reserveCreditForSession (no_faults, no_faults) demo_ids ''org'' ''s1'' 0 empty_db = (Inr (ReserveOk ''res1''), demo_held)"
  by code_simp

theorem reserve_answers_truth_witness:
  "\<exists>row. findReservation ''s1'' demo_held = Some row \<and> cr_id row = ''res1'' \<and> cr_organizationId row = ''org'' \<and>
     (cr_status row = Known Captured \<or>
      cr_status row = Known Held \<and> cr_expiresAt row = 0 + RESERVATION_TTL_HOURS * HOUR_MS)"
  using reserve_answers_truth [OF empty_reachable demo_reserve] by simp

text \<open>
  reserving twice takes one credit. A second reservation of a session that holds or has
  spent its credit, made right after the first answered \<open>ok\<close>, answers the same id and moves
  nothing: lots, wallets and ledger entries are as they were.
\<close>
theorem reserve_takes_one_credit:
  assumes "ledger_reachable db"
    and "reserveCreditForSession flt ids org s now db = (Inr (ReserveOk k), db1)"
  shows "\<exists>db2. reserveCreditForSession (no_faults, no_faults) ids' org s later db1 = (Inr (ReserveOk k), db2) \<and>
    lots db2 = lots db1 \<and> wallets db2 = wallets db1 \<and> entries db2 = entries db1"
proof -
  have inv1: "ledger_inv db1"
    using ledger_steps_evolve [OF reserve_steps [OF assms(2)] reachable_inv [OF assms(1)]] by simp
  have wf1: "wf db1" using inv1 by (simp add: ledger_inv_def)
  obtain row where row: "findReservation s db1 = Some row" "cr_id row = k" "cr_organizationId row = org"
      "cr_status row = Known Captured \<or> cr_status row = Known Held"
    using reserve_truth [OF assms] by auto
  obtain w where w: "findWallet org db1 = Some w" using reservation_wallet [OF inv1 row(1)] row(3) by metis
  have ens: "ensureWallet no_faults ids' org later None db1 = (Inr (cw_id w), db1)"
    using w by (simp add: ensureWallet_def)
  have found: "find_row cr_id k (reservations db1) = Some row"
    using wf_reservation_by_id [OF wf1] wf_find_reservation [OF wf1] row(1,2) by blast
  have "\<exists>db2. reserveTx (fresh_reservationId ids') org s later db1 = Inr (ReserveOk k, db2) \<and>
      lots db2 = lots db1 \<and> wallets db2 = wallets db1 \<and> entries db2 = entries db1"
    using row found
    by (auto simp: reserveTx_def tx_bind_def tx_get_def tx_return_def tx_then_def updateReservation_def)
  then obtain db2 where tx: "reserveTx (fresh_reservationId ids') org s later db1 = Inr (ReserveOk k, db2)"
      and same: "lots db2 = lots db1" "wallets db2 = wallets db1" "entries db2 = entries db1" by blast
  have "reserveCreditForSession (no_faults, no_faults) ids' org s later db1 = (Inr (ReserveOk k), db2)"
    by (simp add: reserveCreditForSession_def ens runInWallet_no_faults [OF w] tx)
  with same show ?thesis by blast
qed

theorem reserve_takes_one_credit_witness:
  "\<exists>db2. reserveCreditForSession (no_faults, no_faults) demo_ids ''org'' ''s1'' 60000 demo_held
       = (Inr (ReserveOk ''res1''), db2) \<and>
     lots db2 = lots demo_held \<and> wallets db2 = wallets demo_held \<and> entries db2 = entries demo_held"
  using reserve_takes_one_credit [OF empty_reachable demo_reserve] by blast

section \<open>Disputes and refunds\<close>

lemma locked_lot_run:
  assumes inv: "ledger_inv db" and l: "findLotByPayment p db = Some l"
    and tx: "work l db = Inr (a, db')"
  shows "withLockedLotForPayment no_faults p work db = (Inr a, db')"
proof -
  have wf: "wf db" using inv by (simp add: ledger_inv_def)
  have "l \<in> set (lots db)" using l by (auto simp: findLotByPayment_def dest: find_row_SomeD)
  then have "findLot (cl_id l) db = Some l" and w: "\<exists>w. findWallet (cl_organizationId l) db = Some w"
    using wf_find_lot [OF wf] wf_lot_wallet [OF wf] by (auto, metis)
  then have "lockedLotTx (cl_id l) work db = Inr (a, db')"
    using tx by (simp add: lockedLotTx_def tx_bind_def or_throw_def)
  with w l show ?thesis
    by (auto simp: withLockedLotForPayment_def runInWallet_no_faults)
qed

text \<open>A lot and its wallet after a status change that moves \<open>d\<close> credits.\<close>

definition adjusted :: "credit_db \<Rightarrow> LotRow \<Rightarrow> (LotRow \<Rightarrow> LotRow) \<Rightarrow> LedgerEntry \<Rightarrow> int \<Rightarrow> credit_db" where
  "adjusted db l f e d = db\<lparr>lots := update_row cl_id (cl_id l) f (lots db), entries := entries db @ [e],
     wallets := update_row cw_organizationId (cl_organizationId l)
       (\<lambda>w. w\<lparr>cw_availableCredits := cw_availableCredits w + d,
              cw_reservedCredits := cw_reservedCredits w + 0\<rparr>) (wallets db)\<rparr>"

lemma adjusted_run:
  assumes "findLot (cl_id l) db = Some l" and "findWallet (cl_organizationId l) db = Some w"
  shows "tx_then (updateLot (cl_id l) f) (tx_then (createEntry e)
      (tx_then (moveCredits (cl_organizationId l) d 0) m)) db = m (adjusted db l f e d)"
  using assms
  by (simp add: tx_then_def tx_bind_def updateLot_def createEntry_def tx_modify_def moveCredits_def
      updateWallet_def findWallet_def adjusted_def)

lemma freezeLotTx_active:
  assumes "findLot (cl_id l) db = Some l" and "findWallet (cl_organizationId l) db = Some w"
    and "cl_status l = Known Active" and "lot_ok l"
  shows "freezeLotTx ev now l db = Inr (Applied (cl_organizationId l) (cl_id l) (lotAvailable l),
    adjusted db l (\<lambda>l. l\<lparr>cl_status := Known Frozen, cl_frozenAt := Some now\<rparr>)
      (adjustmentEntry l dispute_freeze (- lotAvailable l) ev ''dispute_created'') (- lotAvailable l))"
  using assms(3,4)
  by (simp add: freezeLotTx_def tx_bind_def tx_lift_def snapshot_total snapshot_of_fields Let_def
      adjusted_run [OF assms(1,2)] tx_return_def)

lemma revokeLotTx_applied:
  assumes "findLot (cl_id l) db = Some l" and "findWallet (cl_organizationId l) db = Some w"
    and "lot_ok l" and "revokeLotTx refunded charged ev l db = Inr (Applied o' k n, db')"
  shows "cl_status l = Known Active \<and> o' = cl_organizationId l \<and> k = cl_id l \<and> n = lotAvailable l \<and>
    (if refunded \<ge> charged then cl_creditsConsumed l \<le> 0
     else matchesUnconsumedProrata (cl_unitAmountCents l) (cl_creditsGranted l) n refunded) \<and>
    (\<exists>reason. db' = adjusted db l (\<lambda>l. l\<lparr>cl_status := Known Revoked\<rparr>)
       (adjustmentEntry l refund_reversal (- n) ev reason) (- n))"
  using assms(3,4)
  by (auto simp: revokeLotTx_def tx_bind_def tx_lift_def snapshot_total snapshot_of_fields Let_def
      adjusted_run [OF assms(1,2)] tx_return_def split: if_splits)

lemma revokeLotTx_refused:
  assumes "revokeLotTx refunded charged ev l db = Inr (a, db')" and "\<nexists>o' k n. a = Applied o' k n"
  shows "db' = db"
  using assms by (auto simp: revokeLotTx_def tx_Inr Let_def split: if_splits)

lemma adjusted_wallet:
  "findWallet (cl_organizationId l) db = Some w \<Longrightarrow> findWallet (cl_organizationId l) (adjusted db l f e d) =
     Some (w\<lparr>cw_availableCredits := cw_availableCredits w + d\<rparr>)"
  by (simp add: findWallet_def adjusted_def row_simps)

lemma adjusted_lot:
  "findLot (cl_id l) db = Some l \<Longrightarrow> (\<And>l. cl_id (f l) = cl_id l) \<Longrightarrow>
   findLot (cl_id l) (adjusted db l f e d) = Some (f l)"
  by (simp add: findLot_def adjusted_def row_simps)

lemma prorata_bound:
  assumes "matchesUnconsumedProrata unit granted revocable refunded"
  shows "\<exists>price. unit = Some price \<and> 0 < price \<and> 0 < granted \<and> 0 < revocable \<and>
    \<bar>of_int refunded - of_int revocable * (of_int price / of_int granted)\<bar> \<le> (1 :: rat)"
  using assms
  by (auto simp: matchesUnconsumedProrata_def Let_def not_le not_less split: option.splits if_splits)

lemma payment_lot:
  assumes inv: "ledger_inv db" and l: "findLotByPayment p db = Some l"
  obtains w where "findLot (cl_id l) db = Some l" "lot_ok l" "findWallet (cl_organizationId l) db = Some w"
proof -
  have wf: "wf db" using inv by (simp add: ledger_inv_def)
  have lm: "l \<in> set (lots db)" using l by (auto simp: findLotByPayment_def dest: find_row_SomeD)
  obtain w where "findWallet (cl_organizationId l) db = Some w" using wf_lot_wallet [OF wf lm] by metis
  then show thesis using that wf_find_lot [OF wf] wf_lot_ok [OF wf lm] lm by blast
qed

text \<open>
  C32: a refund takes back exactly the unspent credits, and only when the money says so. When
  \<open>revokeUnconsumedLot\<close> answers \<open>applied\<close>, the lot was active and is now revoked, the
  credits are all it had free, the wallet's available counter fell by exactly that many, and
  the refund was either the whole charge with nothing consumed or within one cent of the
  pro-rata price of those credits. Every other answer leaves the database untouched.
\<close>
theorem refund_takes_back_unspent:
  assumes "ledger_reachable db" and "findLotByPayment p db = Some l"
    and "findWallet (cl_organizationId l) db = Some w"
    and "revokeUnconsumedLot flt p refunded charged ev db = (r, db')"
  shows "(case r of
      Inr (Applied o' k n) \<Rightarrow> cl_status l = Known Active \<and> k = cl_id l \<and> n = lotAvailable l \<and>
        findLot k db' = Some (l\<lparr>cl_status := Known Revoked\<rparr>) \<and>
        findWallet (cl_organizationId l) db' = Some (w\<lparr>cw_availableCredits := cw_availableCredits w - n\<rparr>) \<and>
        (if refunded \<ge> charged then cl_creditsConsumed l = 0
         else \<exists>price. cl_unitAmountCents l = Some price \<and>
           \<bar>of_int refunded - of_int n * (of_int price / of_int (cl_creditsGranted l))\<bar> \<le> (1 :: rat))
    | _ \<Rightarrow> db' = db)"
proof -
  have inv: "ledger_inv db" by (rule reachable_inv [OF assms(1)])
  obtain lot: "findLot (cl_id l) db = Some l" and ok: "lot_ok l" using payment_lot [OF inv assms(2)] by metis
  have run: "runInWalletTransaction flt (cl_organizationId l) (lockedLotTx (cl_id l) (revokeLotTx refunded charged ev)) db
      = (r, db')"
    using assms(2,4) by (simp add: revokeUnconsumedLot_def withLockedLotForPayment_def)
  show ?thesis
  proof (rule runInWallet_cases [OF run])
    fix a v
    assume a: "r = Inr a" "lockedLotTx (cl_id l) (revokeLotTx refunded charged ev) db = Inr (a, db')"
    then have tx: "revokeLotTx refunded charged ev l db = Inr (a, db')"
      using lot by (auto simp: lockedLotTx_def tx_Inr or_throw_Inr)
    show ?thesis
    proof (cases a)
      case (Applied o' k n)
      note facts = revokeLotTx_applied [OF lot assms(3) ok tx [unfolded Applied]]
      have "0 \<le> cl_creditsConsumed l" using ok by (simp add: lot_ok_def)
      with facts a Applied show ?thesis
        using adjusted_wallet [OF assms(3)] adjusted_lot [OF lot] prorata_bound by fastforce
    qed (use revokeLotTx_refused [OF tx] a in simp_all)
  qed simp
qed

text \<open>Half of a 25-credit pack is used; the refund asks for the price of the other half.\<close>

definition demo_refund :: "(ledger_error + CreditLotAdjustmentResult) \<times> credit_db" where
  "demo_refund = revokeUnconsumedLot no_faults ''pi_1'' 49900 49900 (Some ''evt_r'') demo_paid"

theorem refund_takes_back_unspent_witness:
  "fst demo_refund = Inr (Applied ''org'' ''lot1'' 25) \<and>
   findLot ''lot1'' (snd demo_refund) = Some (purchasedLot ''lot1'' demo_purchase\<lparr>cl_status := Known Revoked\<rparr>)"
proof -
  have pay: "findLotByPayment ''pi_1'' demo_paid = Some (purchasedLot ''lot1'' demo_purchase)"
    and w: "findWallet ''org'' demo_paid = Some (the (findWallet ''org'' demo_paid))"
    and res: "fst demo_refund = Inr (Applied ''org'' ''lot1'' 25)" by code_simp+
  have org: "cl_organizationId (purchasedLot ''lot1'' demo_purchase) = ''org''"
    by (simp add: purchasedLot_def demo_purchase_def)
  have "revokeUnconsumedLot no_faults ''pi_1'' 49900 49900 (Some ''evt_r'') demo_paid
      = (fst demo_refund, snd demo_refund)" by (simp add: demo_refund_def)
  from refund_takes_back_unspent [OF demo_paid_reachable pay _ this] w org res show ?thesis by simp
qed

lemma resolve_lost:
  assumes "findLot (cl_id l) db = Some l" and "cl_status l = Known Frozen"
  shows "resolveDisputeTx Lost ev now l db = Inr (Applied (cl_organizationId l) (cl_id l) 0,
    db\<lparr>lots := update_row cl_id (cl_id l) (\<lambda>l. l\<lparr>cl_status := Known Revoked\<rparr>) (lots db)\<rparr>)"
  using assms by (simp add: resolveDisputeTx_def tx_then_def tx_bind_def updateLot_def tx_return_def)

lemma expireDueLotsInTx_nothing:
  "\<forall>l\<in>set (lots db). cl_organizationId l = org \<longrightarrow> cl_status l = Known Active \<longrightarrow> now < cl_expiresAt l \<Longrightarrow>
   expireDueLotsInTx org now db = Inr ([], db)"
  by (auto simp: expireDueLotsInTx_def tx_bind_def tx_get_def tx_return_def filter_empty_conv not_le)

lemma resolve_won:
  assumes "findLot (cl_id l) db = Some l" and "findWallet (cl_organizationId l) db = Some w"
    and "cl_status l = Known Frozen" and "lot_ok l" and wf: "wf db"
    and "\<forall>m\<in>set (lots db). cl_organizationId m = cl_organizationId l \<longrightarrow>
      cl_status m = Known Active \<or> m = l \<longrightarrow> now < cl_expiresAt m"
  shows "resolveDisputeTx Won ev now l db = Inr (Applied (cl_organizationId l) (cl_id l) (lotAvailable l),
    adjusted db l (\<lambda>l. l\<lparr>cl_status := Known Active\<rparr>)
      (adjustmentEntry l dispute_release (lotAvailable l) ev ''dispute_won'') (lotAvailable l))"
proof -
  have lm: "l \<in> set (lots db)" using assms(1) by (auto simp: findLot_def dest: find_row_SomeD)
  let ?db = "adjusted db l (\<lambda>l. l\<lparr>cl_status := Known Active\<rparr>)
      (adjustmentEntry l dispute_release (lotAvailable l) ev ''dispute_won'') (lotAvailable l)"
  have "now < cl_expiresAt m" if "m \<in> set (lots ?db)" "cl_organizationId m = cl_organizationId l"
    "cl_status m = Known Active" for m
  proof -
    note mem = that(1)
    obtain m' where m': "m' \<in> set (lots db)"
        "m = (if cl_id m' = cl_id l then m'\<lparr>cl_status := Known Active\<rparr> else m')"
      using mem by (auto simp: adjusted_def set_update_row simp del: if_image_distrib)
    have "cl_id m' = cl_id l \<Longrightarrow> m' = l"
      using m'(1) assms(1) wf_find_lot [OF wf] by (metis option.inject)
    with m' that(2,3) assms(6) lm show ?thesis by (auto split: if_splits)
  qed
  then have "expireDueLotsInTx (cl_organizationId l) now ?db = Inr ([], ?db)"
    by (intro expireDueLotsInTx_nothing) blast
  note expire = tx_then_run [of "expireDueLotsInTx (cl_organizationId l) now", OF this]
  show ?thesis
    using assms(3,4)
    by (simp add: resolveDisputeTx_def tx_bind_def tx_lift_def snapshot_total snapshot_of_fields Let_def
        adjusted_run [OF assms(1,2)] tx_return_def expire)
qed

text \<open>The payment of a lot keeps finding it through an adjustment.\<close>

lemma adjusted_payment:
  assumes inv: "ledger_inv (adjusted db l f e d)" and l: "findLot (cl_id l) db = Some l"
    and p: "cl_stripePaymentIntentId l = Some p"
    and f: "\<And>l. cl_id (f l) = cl_id l \<and> cl_stripePaymentIntentId (f l) = cl_stripePaymentIntentId l"
  shows "findLotByPayment p (adjusted db l f e d) = Some (f l)"
proof -
  have wf: "wf (adjusted db l f e d)" using inv by (simp add: ledger_inv_def)
  have "findLot (cl_id l) (adjusted db l f e d) = Some (f l)" by (rule adjusted_lot [OF l]) (simp add: f)
  then have "f l \<in> set (lots (adjusted db l f e d))" using wf_find_lot [OF wf] by simp
  then show ?thesis by (rule find_payment [OF wf]) (simp add: f p)
qed

lemma lookup_payment:
  "findLotByPayment p db = Some l \<Longrightarrow> cl_stripePaymentIntentId l = Some p"
  by (auto simp: findLotByPayment_def dest: find_row_SomeD)



section \<open>History and the free grant\<close>



definition shape :: "credit_db \<Rightarrow> string list \<times> (string \<times> lot_kind column) list" where
  "shape db = (map cw_organizationId (wallets db), map (\<lambda>l. (cl_organizationId l, cl_kind l)) (lots db))"

interpretation shaped: state_preorder "\<lambda>s t. shape t = shape s"
  by unfold_locales simp_all

interpretation history: state_preorder evolves
  by unfold_locales (auto intro: evolves_refl evolves_trans)

lemma shape_calls [intro]:
  "keeps_identity f \<Longrightarrow> moves (\<lambda>s t. shape t = shape s) (updateLot k f)"
  "moves (\<lambda>s t. shape t = shape s) (updateReservation rk g)"
  "moves (\<lambda>s t. shape t = shape s) (createReservation r)"
  "moves (\<lambda>s t. shape t = shape s) (createEntry e)"
  "moves (\<lambda>s t. shape t = shape s) (moveCredits org a b)"
  "moves (\<lambda>s t. shape t = shape s) (updateWallet org (\<lambda>w. w\<lparr>cw_settlementCurrency := c\<rparr>))"
  by (auto simp: moves_def shape_def db_Inr moveCredits_def keeps_identity_def row_simps
      dest!: createReservation_Inr)

lemma shape_or_throw: "moves (\<lambda>s t. shape t = shape s) (or_throw q)"
  by (auto simp: moves_def db_Inr)

lemma keeps_shape_expireRows: "moves (\<lambda>s t. shape t = shape s) (expireRows org rows ids w)"
  by (induction rows arbitrary: ids w)
     (auto intro!: shaped.structural shape_calls simp: Let_def keeps_identity_def)

lemma keeps_shape_releaseRows: "moves (\<lambda>s t. shape t = shape s) (releaseRows due now d)"
  by (induction due arbitrary: d)
     (auto intro!: shaped.structural shape_calls simp: releaseReservationRow_def keeps_identity_def)

lemma keeps_shape_sweeps:
  "moves (\<lambda>s t. shape t = shape s) (expireDueLotsInTx org now)"
  "moves (\<lambda>s t. shape t = shape s) (releaseExpiredReservationsInTx org now)"
  unfolding expireDueLotsInTx_def releaseExpiredReservationsInTx_def
  by (auto intro!: shaped.structural shape_calls keeps_shape_expireRows keeps_shape_releaseRows)

lemma keeps_shape_sessions:
  "moves (\<lambda>s t. shape t = shape s) (reserveTx rid org s now)"
  "moves (\<lambda>s t. shape t = shape s) (captureTx org s now)"
  "moves (\<lambda>s t. shape t = shape s) (releaseTx org s now reason)"
  "moves (\<lambda>s t. shape t = shape s) (releaseExpiredTx org now)"
  unfolding reserveTx_def captureTx_def releaseTx_def releaseExpiredTx_def holdCreditTx_def
    releaseReservationRow_def loadLots_def Let_def
  by (auto intro!: shaped.structural shape_calls keeps_shape_sweeps simp: keeps_identity_def)

lemma keeps_shape_adjustments:
  "moves (\<lambda>s t. shape t = shape s) (lockedLotTx lid (freezeLotTx ev now))"
  "moves (\<lambda>s t. shape t = shape s) (lockedLotTx lid (resolveDisputeTx disp ev now))"
  "moves (\<lambda>s t. shape t = shape s) (lockedLotTx lid (revokeLotTx refunded charged ev))"
  unfolding lockedLotTx_def freezeLotTx_def resolveDisputeTx_def revokeLotTx_def Let_def
  by (auto intro!: shaped.structural shape_calls shape_or_throw keeps_shape_sweeps simp: keeps_identity_def)

lemma keeps_shape_customer: "setStripeCustomer wid cid db = Inr (r, db') \<Longrightarrow> shape db' = shape db"
  by (auto simp: shape_def row_simps dest!: setStripeCustomer_Inr)

lemma keeps_shape_gate: "moves (\<lambda>s t. shape t = shape s) (currencyGateTx org cur)"
  unfolding currencyGateTx_def by (auto intro!: shaped.structural shape_calls shape_or_throw)

definition free_lots :: "string \<Rightarrow> credit_db \<Rightarrow> LotRow list" where
  "free_lots org db = filter (\<lambda>l. cl_organizationId l = org \<and> cl_kind l = Known Free) (lots db)"

lemma free_lots_shape:
  "length (free_lots org db) = length (filter (\<lambda>x. x = (org, Known Free)) (snd (shape db)))"
proof -
  have "length (filter (\<lambda>l. cl_organizationId l = org \<and> cl_kind l = Known Free) ls) =
      length (filter (\<lambda>x. x = (org, Known Free)) (map (\<lambda>l. (cl_organizationId l, cl_kind l)) ls))" for ls
    by (induction ls) auto
  then show ?thesis by (simp add: free_lots_def shape_def)
qed

text \<open>A step leaves the shape alone, adds a paid lot, or opens a wallet with one free lot.\<close>

lemma step_shape:
  assumes "ledger_step db db'"
  obtains (same) "shape db' = shape db"
    | (paid) org where "shape db' = (fst (shape db), snd (shape db) @ [(org, Known Paid)])"
    | (opened) org where "org \<notin> set (fst (shape db))"
        "shape db' = (fst (shape db) @ [org], snd (shape db) @ [(org, Known Free)])"
  using assms
proof (cases rule: ledger_step.cases)
  case (step_wallet wid lid org now days r)
  show thesis
  proof (cases "findWallet org db")
    case None
    then have "org \<notin> set (fst (shape db))"
      by (simp add: shape_def findWallet_def find_row_None_iff)
    moreover have "shape db' = (fst (shape db) @ [org], snd (shape db) @ [(org, Known Free)])"
      using step_wallet None
      by (auto simp: ensureWalletTx_def tryLockWallet_def tx_Inr createEntry_Inr shape_def
          firstFiveLot_def dest!: createWallet_Inr createLot_Inr)
    ultimately show thesis by (rule opened)
  next
    case (Some w)
    with step_wallet have "db' = db" by (auto simp: ensureWalletTx_def tryLockWallet_def tx_Inr)
    then show thesis using same by simp
  qed
next
  case (step_grant i lid r)
  from step_grant(3) show thesis
  proof (cases rule: grantTx_cases)
    case (granted d)
    have "shape d = shape db" by (rule movesD [OF keeps_shape_gate granted(2)])
    moreover have "shape db' = (fst (shape d), snd (shape d) @ [(gi_organizationId i, Known Paid)])"
      using granted(3)
      by (auto simp: grantWritesTx_def tx_Inr db_Inr moveCredits_def shape_def row_simps
          purchasedLot_def dest!: createLot_Inr)
    ultimately show thesis using paid by simp
  qed (use same in simp_all)
qed (simp_all add: same movesD [OF keeps_shape_sessions(1)] movesD [OF keeps_shape_sessions(2)]
       movesD [OF keeps_shape_sessions(3)] movesD [OF keeps_shape_sessions(4)]
       movesD [OF keeps_shape_adjustments(1)] movesD [OF keeps_shape_adjustments(2)]
       movesD [OF keeps_shape_adjustments(3)] movesD [OF keeps_shape_sweeps(1)] keeps_shape_customer)

text \<open>
  the free credits are granted once per organization: in every reachable state an
  organization has one free lot if it has a wallet and none if it has not, however many
  requests raced to open the wallet.
\<close>
theorem first_five_granted_once:
  assumes "ledger_reachable db"
  shows "length (free_lots org db) = (if findWallet org db = None then 0 else 1)"
proof -
  have "length (filter (\<lambda>x. x = (org, Known Free)) (snd (shape db)))
      = (if org \<in> set (fst (shape db)) then 1 else 0)"
    using assms unfolding ledger_reachable_def
  proof (induction rule: rtranclp_induct)
    case base
    then show ?case by (simp add: shape_def empty_db_def)
  next
    case (step y z)
    from step.hyps(2) show ?case by (cases rule: step_shape) (use step.IH in auto)
  qed
  moreover have "org \<in> set (fst (shape db)) \<longleftrightarrow> findWallet org db \<noteq> None"
    by (auto simp: shape_def findWallet_def find_row_None_iff)
  ultimately show ?thesis by (simp add: free_lots_shape)
qed

theorem first_five_granted_once_witness: "length (free_lots ''org'' demo_paid) = 1"
proof -
  have "findWallet ''org'' demo_paid \<noteq> None" by code_simp
  then show ?thesis using first_five_granted_once [OF demo_paid_reachable] by simp
qed

text \<open>
  a freeze is answered \<open>applied\<close> even when it blocks nothing: an active lot whose credits
  are all held or spent is frozen with zero credits, the wallet does not move, and the answer
  is the one that triggers the notification of blocked credits.
\<close>
theorem freeze_of_empty_lot_is_applied:
  assumes "ledger_reachable db" and "findLotByPayment p db = Some l" and "cl_status l = Known Active"
    and "lotAvailable l = 0"
  shows "\<exists>db'. freezeLotForDispute no_faults p ev now db =
      (Inr (Applied (cl_organizationId l) (cl_id l) 0), db') \<and>
    findWallet (cl_organizationId l) db' = findWallet (cl_organizationId l) db"
proof -
  have inv: "ledger_inv db" by (rule reachable_inv [OF assms(1)])
  obtain w where lot: "findLot (cl_id l) db = Some l" and ok: "lot_ok l"
      and w: "findWallet (cl_organizationId l) db = Some w"
    using payment_lot [OF inv assms(2)] by metis
  note tx = freezeLotTx_active [OF lot w assms(3) ok, of ev now, unfolded assms(4)]
  have "freezeLotForDispute no_faults p ev now db = (Inr (Applied (cl_organizationId l) (cl_id l) 0),
      adjusted db l (\<lambda>l. l\<lparr>cl_status := Known Frozen, cl_frozenAt := Some now\<rparr>)
        (adjustmentEntry l dispute_freeze (- 0) ev ''dispute_created'') (- 0))"
    unfolding freezeLotForDispute_def
    by (rule locked_lot_run [where work = "freezeLotTx ev now", OF inv assms(2) tx])
  then show ?thesis using adjusted_wallet [OF w] w by simp
qed

definition demo_one :: credit_db where
  "demo_one = snd (grantPurchasedCreditLot (no_faults, no_faults) demo_ids
     (demo_purchase\<lparr>gi_creditsGranted := 1\<rparr>) empty_db)"

definition reserve_six :: "credit_db \<Rightarrow> credit_db" where
  "reserve_six db = fold (\<lambda>s d. snd (reserveCreditForSession (no_faults, no_faults)
     (demo_ids\<lparr>fresh_reservationId := s\<rparr>) ''org'' s 6 d)) [''a'', ''b'', ''c'', ''d'', ''e'', ''f''] db"

lemma reserve_six_reachable: "ledger_reachable db \<Longrightarrow> ledger_reachable (reserve_six db)"
proof -
  have "ledger_reachable (snd (reserveCreditForSession flt ids org s now d))" if "ledger_reachable d"
    for flt ids org s now d
    using that reserve_steps [of flt ids org s now d] unfolding ledger_reachable_def
    by (metis prod.collapse rtranclp_trans)
  then show "ledger_reachable db \<Longrightarrow> ledger_reachable (reserve_six db)" by (simp add: reserve_six_def)
qed

theorem freeze_of_empty_lot_is_applied_witness:
  "\<exists>db'. freezeLotForDispute no_faults ''pi_1'' None 7 (reserve_six demo_one) =
     (Inr (Applied ''org'' ''lot1'' 0), db')"
proof -
  define l where "l = the (findLotByPayment ''pi_1'' (reserve_six demo_one))"
  have "findLotByPayment ''pi_1'' (reserve_six demo_one) = Some l" "cl_status l = Known Active"
    "lotAvailable l = 0" "cl_organizationId l = ''org''" "cl_id l = ''lot1''"
    unfolding l_def by code_simp+
  moreover have "ledger_reachable demo_one"
    using grant_steps unfolding ledger_reachable_def demo_one_def by (metis prod.collapse)
  ultimately show ?thesis
    using freeze_of_empty_lot_is_applied [OF reserve_six_reachable, where ev = None and now = 7] by metis
qed

section \<open>A live hold can always be settled\<close>

lemma held_capture:
  assumes inv: "ledger_inv db" and r: "findReservation s db = Some r" "cr_organizationId r = org" "cr_status r = Known Held"
  shows "\<exists>db'. captureReservationForSession no_faults org s now db = (Inr CaptureDone, db') \<and>
    findReservation s db' = Some (capture_marks now r)"
proof -
  have wf: "wf db" using inv by (simp add: ledger_inv_def)
  have mem: "r \<in> set (reservations db)" using r(1) wf_find_reservation [OF wf] by simp
  obtain l where l: "findLot (cr_lotId r) db = Some l" using wf_reservation_lot [OF wf mem] by metis
  obtain w where w: "findWallet org db = Some w" using reservation_wallet [OF inv r(1)] r(2) by metis
  have row: "find_row cr_id (cr_id r) (reservations db) = Some r" by (rule wf_reservation_by_id [OF wf mem])
  let ?f = "\<lambda>l. l\<lparr>cl_creditsReserved := cl_creditsReserved l - 1, cl_creditsConsumed := cl_creditsConsumed l + 1\<rparr>"
  have lid: "cl_id l = cr_lotId r" using wf_find_lot [OF wf] l by auto
  have l2: "findLot (cr_lotId r) (db\<lparr>lots := update_row cl_id (cr_lotId r) ?f (lots db)\<rparr>) = Some (?f l)"
    using l by (simp add: findLot_def find_row_update)
  have "\<exists>db'. captureTx org s now db = Inr (CaptureDone, db')"
    using r l l2 lid w row
    by (simp add: captureTx_def tx_bind_def tx_then_def tx_get_def tx_return_def updateLot_def updateReservation_def
        createEntry_def tx_modify_def moveCredits_def updateWallet_def findWallet_def)
  then obtain db' where tx: "captureTx org s now db = Inr (CaptureDone, db')" by blast
  have "findReservation s db' = Some (capture_marks now r)" using captureTx_done [OF tx wf] r(1) by auto
  moreover have "captureReservationForSession no_faults org s now db = (Inr CaptureDone, db')"
    unfolding captureReservationForSession_def by (rule runInWallet_no_faults [where work = "captureTx org s now", OF w tx])
  ultimately show ?thesis by blast
qed

lemma held_release:
  assumes inv: "ledger_inv db" and r: "findReservation s db = Some r" "cr_organizationId r = org" "cr_status r = Known Held"
  shows "\<exists>db'. releaseReservationForSession no_faults org s now reason db = (Inr ReleaseDone, db') \<and>
    findReservation s db' = Some (r\<lparr>cr_status := Known Released, cr_resolvedAt := Some now\<rparr>)"
proof -
  have wf: "wf db" using inv by (simp add: ledger_inv_def)
  have mem: "r \<in> set (reservations db)" "is_held r"
    using r wf_find_reservation [OF wf] by (simp_all add: is_held_def)
  obtain l where l: "findLot (cr_lotId r) db = Some l" using wf_reservation_lot [OF wf mem(1)] by metis
  obtain w where w: "findWallet org db = Some w" using reservation_wallet [OF inv r(1)] r(2) by metis
  have "cr_lotId r \<in> cl_id ` set (lots db)" using l wf_find_lot [OF wf] by (metis image_eqI)
  then obtain d db1 where row: "releaseReservationRow r now reason db = Inr (d, db1)" "wallets db1 = wallets db"
    using releaseReservationRow_total mem(1) by (metis image_eqI)
  note rel = release_row_inv [OF _ mem(1,2) r(2) row(1), of 0 0]
  have w1: "findWallet org db1 = Some w" using w row(2) by (simp add: findWallet_def)
  obtain u db2 where move: "moveCredits org d (-1) db1 = Inr (u, db2)" using moveCredits_total [OF w1] by metis
  have off: "inv_off org d (-1) db1" using rel inv by (simp add: inv_off_0)
  have step: "ledger_inv db2" "reservations db2 = reservations db1"
    using hoareD [OF moveCredits_inv' _ move, of "reservations db1"] off by simp_all
  obtain w2 where w2: "findWallet org db2 = Some w2"
    using move w1 by (auto simp: moveCredits_def updateWallet_Inr findWallet_def find_row_update)
  obtain ids db' where sweep: "expireDueLotsInTx org now db2 = Inr (ids, db')"
    using expireDueLotsInTx_total [OF step(1) w2] by metis
  have "reservations db' = reservations db2"
    using hoareD [OF expireDueLotsInTx_inv _ sweep, of "reservations db2"] step(1) by simp
  then have "reservations db' =
      update_row cr_id (cr_id r) (\<lambda>y. y\<lparr>cr_status := Known Released, cr_resolvedAt := Some now\<rparr>) (reservations db)"
    using step(2) rel inv by (simp add: inv_off_0)
  then have "findReservation s db' = Some (r\<lparr>cr_status := Known Released, cr_resolvedAt := Some now\<rparr>)"
    using find_update_reservation [OF wf r(1)] by (simp add: findReservation_def)
  moreover have "releaseTx org s now reason db = Inr (ReleaseDone, db')"
    using r row(1) move sweep by (simp add: releaseTx_def tx_bind_def tx_then_def tx_get_def tx_return_def)
  then have "releaseReservationForSession no_faults org s now reason db = (Inr ReleaseDone, db')"
    unfolding releaseReservationForSession_def by (rule runInWallet_no_faults [where work = "releaseTx org s now reason", OF w])
  ultimately show ?thesis by blast
qed

text \<open>
  C28: the rows of the ledger are well typed. In every state this code can reach, organizations,
  lots, reservations and reserved sessions are unique, at most one lot carries a Stripe payment,
  every lot and every entry belongs to an organization with a wallet, every reservation to a lot of
  its own organization, and every lot row reads as a snapshot, so no reader
  of the ledger ever fails on a lot of an unknown kind.
\<close>
theorem ledger_rows_are_well_typed:
  assumes "ledger_reachable db"
  shows "keys_ok db \<and> refs_ok db \<and>
    traverse toLotSnapshot (lots db) = Inr (map snapshot_of (lots db))"
proof -
  have wf: "wf db" using reachable_inv [OF assms] by (simp add: ledger_inv_def)
  then have "\<forall>l\<in>set (lots db). toLotSnapshot l = Inr (snapshot_of l)"
    using wf_lot_ok snapshot_total by blast
  then show ?thesis using wf by (auto simp: wf_def intro!: traverse_map)
qed

theorem ledger_rows_are_well_typed_witness:
  "distinct (map cl_id (lots demo_held)) \<and> (\<exists>snaps. traverse toLotSnapshot (lots demo_held) = Inr snaps \<and> length snaps = 1)"
proof -
  have "length (lots demo_held) = 1" by code_simp
  then show ?thesis
    using ledger_rows_are_well_typed [OF demo_held_reachable] by (simp add: keys_ok_def)
qed

end
