(* ===== verification/BillableCompletion.thy ===== *)
theory BillableCompletion
  imports Prelude
begin

text \<open>
  The billing event of \<open>packages/core/src/domain/billable-completion.ts\<close>: an interview is
  billable when enough planned questions were answered. Ratios are exact rationals; the
  default one half is exact in binary floating point as well.
\<close>

definition BILLABLE_THRESHOLD_RATIO :: rat where
  "BILLABLE_THRESHOLD_RATIO = 1 / 2"

definition BILLABLE_MINIMUM_ANSWERS :: int where
  "BILLABLE_MINIMUM_ANSWERS = 3"

record QuestionOutcome = completionReason :: string

record billable_decision =
  billable :: bool
  answeredCount :: int
  requiredCount :: int

definition evaluateBillableCompletion ::
  "int \<Rightarrow> QuestionOutcome list \<Rightarrow> rat option \<Rightarrow> billable_decision" where
  "evaluateBillableCompletion plannedQuestionCount outcomes thresholdRatio =
     (let ratio = (case thresholdRatio of None \<Rightarrow> BILLABLE_THRESHOLD_RATIO | Some r \<Rightarrow> r)
      in if plannedQuestionCount \<le> 0
         then \<lparr>billable = False, answeredCount = 0, requiredCount = 0\<rparr>
         else
           let answered = int (length (filter (\<lambda>q. completionReason q = ''answered'') outcomes));
               required = max BILLABLE_MINIMUM_ANSWERS \<lceil>of_int plannedQuestionCount * ratio\<rceil>
           in \<lparr>billable = (answered \<ge> required), answeredCount = answered,
               requiredCount = required\<rparr>)"

lemma ceiling_half: "\<lceil>of_int n * (1 / 2 :: rat)\<rceil> = (n + 1) div 2"
proof (cases "even n")
  case True
  then obtain k where "n = 2 * k" by blast
  then show ?thesis by simp
next
  case False
  then obtain k where k: "n = 2 * k + 1" using oddE by blast
  have "\<lceil>of_int n * (1 / 2 :: rat)\<rceil> = k + 1"
    by (rule ceiling_unique) (simp_all add: k)
  with k show ?thesis by simp
qed

lemma required_default:
  "0 < planned \<Longrightarrow> requiredCount (evaluateBillableCompletion planned outcomes None) =
     max 3 ((planned + 1) div 2)"
  by (simp add: evaluateBillableCompletion_def BILLABLE_THRESHOLD_RATIO_def
      BILLABLE_MINIMUM_ANSWERS_def ceiling_half Let_def del: times_divide_eq_right)

lemma billable_half:
  "billable (evaluateBillableCompletion planned outcomes None) \<longleftrightarrow>
     0 < planned \<and>
     3 \<le> length (filter (\<lambda>q. completionReason q = ''answered'') outcomes) \<and>
     planned \<le> 2 * int (length (filter (\<lambda>q. completionReason q = ''answered'') outcomes))"
  by (auto simp: evaluateBillableCompletion_def BILLABLE_THRESHOLD_RATIO_def
      BILLABLE_MINIMUM_ANSWERS_def ceiling_half Let_def simp del: times_divide_eq_right)

text \<open>
  at the default ratio an interview is charged exactly when it was planned, at least three
  questions were answered, and the answers reach half of the plan: so a plan of one or two
  questions is only ever charged for answers it did not plan, and an empty plan never.
\<close>
theorem billable_default_iff:
  "billable (evaluateBillableCompletion planned outcomes None) \<longleftrightarrow>
     0 < planned \<and>
     3 \<le> length (filter (\<lambda>q. completionReason q = ''answered'') outcomes) \<and>
     planned \<le> 2 * int (length (filter (\<lambda>q. completionReason q = ''answered'') outcomes))"
  by (rule billable_half)

lemma billable_floor:
  "billable (evaluateBillableCompletion planned outcomes ratio) \<Longrightarrow>
     3 \<le> length (filter (\<lambda>q. completionReason q = ''answered'') outcomes)"
  by (simp add: evaluateBillableCompletion_def BILLABLE_MINIMUM_ANSWERS_def Let_def split: if_splits)

text \<open>
  a plan of one or two questions can never bill when every outcome belongs to a planned
  question, and a three-question plan bills only when all three were answered, whatever the
  ratio.
\<close>
theorem short_plan_never_bills:
  assumes "int (length outcomes) \<le> planned" and "planned \<le> 3"
    and "billable (evaluateBillableCompletion planned outcomes ratio)"
  shows "planned = 3 \<and> length outcomes = 3 \<and> (\<forall>q\<in>set outcomes. completionReason q = ''answered'')"
proof -
  let ?a = "filter (\<lambda>q. completionReason q = ''answered'') outcomes"
  have "3 \<le> length ?a" using assms(3) by (rule billable_floor)
  moreover have "length ?a \<le> length outcomes" by (rule length_filter_le)
  ultimately have lens: "length ?a = length outcomes" "length outcomes = 3" "planned = 3"
    using assms(1,2) by linarith+
  then have "?a = outcomes" by (metis length_filter_less less_irrefl filter_True)
  then show ?thesis using lens by (simp add: filter_id_conv)
qed

theorem short_plan_never_bills_witness:
  "\<not> billable (evaluateBillableCompletion 2
     [\<lparr>completionReason = ''answered''\<rparr>, \<lparr>completionReason = ''answered''\<rparr>] (Some (1 / 2)))"
  using short_plan_never_bills [of "[\<lparr>completionReason = ''answered''\<rparr>, \<lparr>completionReason = ''answered''\<rparr>]" 2 "Some (1 / 2)"]
  by auto

end
