(* ===== verification/JsNumber.thy ===== *)
theory JsNumber
  imports JsText
begin

text \<open>
  \<open>Number(text)\<close> and \<open>String(n)\<close> of JavaScript, as far as the program uses them: text the
  code wrote itself or Stripe handed back, compared with an integer. A number is an exact
  rational and \<open>None\<close> stands for \<open>NaN\<close> and for the infinities, neither of which equals an
  integer; the rounding of literals with more than seventeen digits is not modelled.
\<close>

definition is_digit :: "char \<Rightarrow> bool" where
  "is_digit c \<longleftrightarrow> 48 \<le> (of_char c :: nat) \<and> (of_char c :: nat) \<le> 57"

definition digit_value :: "char \<Rightarrow> nat option" where
  "digit_value c = (let n = (of_char c :: nat) in
     if 48 \<le> n \<and> n \<le> 57 then Some (n - 48)
     else if 97 \<le> n \<and> n \<le> 122 then Some (n - 87)
     else if 65 \<le> n \<and> n \<le> 90 then Some (n - 55) else None)"

definition digits_value :: "nat \<Rightarrow> string \<Rightarrow> nat" where
  "digits_value radix s = foldl (\<lambda>a c. radix * a + (case digit_value c of Some d \<Rightarrow> d | None \<Rightarrow> 0)) 0 s"

definition radix_literal :: "nat \<Rightarrow> string \<Rightarrow> rat option" where
  "radix_literal radix s =
     (if s \<noteq> [] \<and> list_all (\<lambda>c. case digit_value c of Some d \<Rightarrow> d < radix | None \<Rightarrow> False) s
      then Some (of_nat (digits_value radix s)) else None)"

definition exponent_literal :: "string \<Rightarrow> int option" where
  "exponent_literal s =
     (let (sign, ds) = (case s of c # r \<Rightarrow>
            if c = CHR ''-'' then (-1, r) else if c = CHR ''+'' then (1, r) else (1, s) | [] \<Rightarrow> (1, s))
      in if ds \<noteq> [] \<and> list_all is_digit ds then Some (sign * int (digits_value 10 ds)) else None)"

definition power_of_ten :: "int \<Rightarrow> rat" where
  "power_of_ten e = (if 0 \<le> e then 10 ^ nat e else 1 / 10 ^ nat (- e))"

definition unsigned_decimal :: "string \<Rightarrow> rat option" where
  "unsigned_decimal s =
     (let whole = takeWhile is_digit s; after = dropWhile is_digit s;
          (part, rest) = (case after of c # r \<Rightarrow>
             if c = CHR ''.'' then (takeWhile is_digit r, dropWhile is_digit r) else ([], after)
           | [] \<Rightarrow> ([], after));
          mantissa = of_nat (digits_value 10 (whole @ part)) * power_of_ten (- int (length part))
      in if whole = [] \<and> part = [] then None
         else case rest of [] \<Rightarrow> Some mantissa
         | c # r \<Rightarrow> if c = CHR ''e'' \<or> c = CHR ''E''
                    then map_option (\<lambda>e. mantissa * power_of_ten e) (exponent_literal r) else None)"

definition decimal_literal :: "string \<Rightarrow> rat option" where
  "decimal_literal s =
     (case s of c # r \<Rightarrow>
        if c = CHR ''-'' then map_option uminus (unsigned_decimal r)
        else if c = CHR ''+'' then unsigned_decimal r else unsigned_decimal s
      | [] \<Rightarrow> None)"

definition js_Number :: "string option \<Rightarrow> rat option" where
  "js_Number v =
     (case v of None \<Rightarrow> None
      | Some text \<Rightarrow>
          let s = js_trim text in
          if s = [] then Some 0
          else case s of
            z # x # r \<Rightarrow>
              if z = CHR ''0'' \<and> (x = CHR ''x'' \<or> x = CHR ''X'') then radix_literal 16 r
              else if z = CHR ''0'' \<and> (x = CHR ''o'' \<or> x = CHR ''O'') then radix_literal 8 r
              else if z = CHR ''0'' \<and> (x = CHR ''b'' \<or> x = CHR ''B'') then radix_literal 2 r
              else decimal_literal s
          | _ \<Rightarrow> decimal_literal s)"

fun nat_digits :: "nat \<Rightarrow> string" where
  "nat_digits n = (if n < 10 then [char_of (n + 48)] else nat_digits (n div 10) @ [char_of (n mod 10 + 48)])"

declare nat_digits.simps [simp del]

definition js_String :: "int \<Rightarrow> string" where
  "js_String n = (if n < 0 then CHR ''-'' # nat_digits (nat (- n)) else nat_digits (nat n))"

section \<open>Round trip\<close>

lemma digit_char: "d < 10 \<Longrightarrow> is_digit (char_of (d + 48 :: nat)) \<and> digit_value (char_of (d + 48 :: nat)) = Some d"
  by (simp add: is_digit_def digit_value_def Let_def)

lemma nat_digits_digit: "c \<in> set (nat_digits n) \<Longrightarrow> is_digit c"
proof (induction n rule: nat_digits.induct)
  case (1 n)
  then show ?case
    by (subst (asm) (2) nat_digits.simps) (auto split: if_splits simp: digit_char)
qed

lemma nat_digits_nonempty: "nat_digits n \<noteq> []"
  by (subst nat_digits.simps) simp

lemma digits_value_snoc:
  "digits_value r (s @ [c]) = r * digits_value r s + (case digit_value c of Some d \<Rightarrow> d | None \<Rightarrow> 0)"
  by (simp add: digits_value_def)

lemma digits_value_nat: "digits_value 10 (nat_digits n) = n"
proof (induction n rule: nat_digits.induct)
  case (1 n)
  show ?case
  proof (cases "n < 10")
    case True
    then show ?thesis by (subst nat_digits.simps) (simp add: digits_value_def digit_char)
  next
    case False
    then have "digits_value 10 (nat_digits n) = 10 * (n div 10) + n mod 10"
      using 1 by (subst nat_digits.simps) (simp add: digits_value_snoc digit_char)
    then show ?thesis by simp
  qed
qed

lemma digit_not_space: "is_digit c \<Longrightarrow> \<not> is_js_space c"
  by (auto simp: is_digit_def is_js_space_def Let_def)

lemma digit_neq: "is_digit c \<Longrightarrow> c \<noteq> CHR ''x'' \<and> c \<noteq> CHR ''X'' \<and> c \<noteq> CHR ''o'' \<and> c \<noteq> CHR ''O'' \<and>
    c \<noteq> CHR ''b'' \<and> c \<noteq> CHR ''B'' \<and> c \<noteq> CHR ''-'' \<and> c \<noteq> CHR ''+''"
  by (auto simp: is_digit_def)

lemma dropWhile_none: "(\<And>c. c \<in> set s \<Longrightarrow> \<not> P c) \<Longrightarrow> dropWhile P s = s"
  by (cases s) auto

lemma js_trim_none: "(\<And>c. c \<in> set s \<Longrightarrow> \<not> is_js_space c) \<Longrightarrow> js_trim s = s"
  using dropWhile_none [of s] dropWhile_none [of "rev s"] by (simp add: js_trim_def)

lemma decimal_digits:
  assumes "s \<noteq> []" and "\<And>c. c \<in> set s \<Longrightarrow> is_digit c"
  shows "decimal_literal s = Some (of_nat (digits_value 10 s))"
proof -
  have whole: "takeWhile is_digit s = s" "dropWhile is_digit s = []"
    using assms(2) by (auto simp: takeWhile_eq_all_conv)
  have "unsigned_decimal s = Some (of_nat (digits_value 10 s))"
    using assms(1) by (simp add: unsigned_decimal_def whole Let_def power_of_ten_def)
  then show ?thesis
    using assms digit_neq by (cases s) (auto simp: decimal_literal_def)
qed

lemma Number_digits:
  assumes "s \<noteq> []" and "\<And>c. c \<in> set s \<Longrightarrow> is_digit c"
  shows "js_Number (Some s) = Some (of_nat (digits_value 10 s))"
proof -
  have trim: "js_trim s = s" using assms(2) digit_not_space by (intro js_trim_none) blast
  note dec = decimal_digits [OF assms]
  show ?thesis
  proof (cases s)
    case Nil
    with assms(1) show ?thesis by simp
  next
    case (Cons z r)
    show ?thesis
    proof (cases r)
      case Nil
      with Cons dec trim show ?thesis by (simp add: js_Number_def)
    next
      case (Cons x r')
      with \<open>s = z # r\<close> assms(2) have "is_digit x" by simp
      then show ?thesis
        using digit_neq [of x] dec trim \<open>s = z # r\<close> Cons by (simp add: js_Number_def)
    qed
  qed
qed

lemma Number_list:
  "s \<noteq> [] \<and> list_all is_digit s \<Longrightarrow> js_Number (Some s) = Some (of_nat (digits_value 10 s))"
  by (rule Number_digits) (auto simp: list_all_iff)

text \<open>What the code writes with \<open>String\<close> it reads back with \<open>Number\<close>.\<close>

lemma Number_String: "0 \<le> n \<Longrightarrow> js_Number (Some (js_String n)) = Some (of_int n)"
  using Number_digits [OF nat_digits_nonempty nat_digits_digit, of "nat n"]
  by (simp add: js_String_def digits_value_nat)

end
