(* ===== verification/Programs.thy ===== *)
theory Programs
  imports JsText
begin

text \<open>
  Handlers. Unlike the body of a transaction, an async function keeps what it has done when
  it throws: a program maps a state to a result, which may be an error, and the state it
  leaves. Calls to another service are functions handed to the program; what they answer is
  a parameter of the model.
\<close>

section \<open>Programs\<close>

type_synonym ('e, 's, 'a) prog = "'s \<Rightarrow> ('e + 'a) \<times> 's"

definition prog_return :: "'a \<Rightarrow> ('e, 's, 'a) prog" where
  "prog_return a s = (Inr a, s)"

definition prog_throw :: "'e \<Rightarrow> ('e, 's, 'a) prog" where
  "prog_throw e s = (Inl e, s)"

definition prog_bind :: "('e, 's, 'a) prog \<Rightarrow> ('a \<Rightarrow> ('e, 's, 'b) prog) \<Rightarrow> ('e, 's, 'b) prog" where
  "prog_bind m f s = (case m s of (Inl e, t) \<Rightarrow> (Inl e, t) | (Inr a, t) \<Rightarrow> f a t)"

definition prog_then :: "('e, 's, 'a) prog \<Rightarrow> ('e, 's, 'b) prog \<Rightarrow> ('e, 's, 'b) prog" where
  "prog_then m n = prog_bind m (\<lambda>_. n)"

definition prog_get :: "('s \<Rightarrow> 'a) \<Rightarrow> ('e, 's, 'a) prog" where
  "prog_get q s = (Inr (q s), s)"

definition prog_modify :: "('s \<Rightarrow> 's) \<Rightarrow> ('e, 's, unit) prog" where
  "prog_modify f s = (Inr (), f s)"

definition prog_lift :: "'e + 'a \<Rightarrow> ('e, 's, 'a) prog" where
  "prog_lift x s = (x, s)"

text \<open>\<open>try m catch h\<close>: the handler starts from the state the failed program left.\<close>

definition prog_catch :: "('e, 's, 'a) prog \<Rightarrow> ('e \<Rightarrow> ('e, 's, 'a) prog) \<Rightarrow> ('e, 's, 'a) prog" where
  "prog_catch m h s = (case m s of (Inl e, t) \<Rightarrow> h e t | (Inr a, t) \<Rightarrow> (Inr a, t))"

text \<open>\<open>try x = await m\<close> whose handler is written out afterwards: the outcome, error or value.\<close>

definition prog_try :: "('e, 's, 'a) prog \<Rightarrow> ('e, 's, 'e + 'a) prog" where
  "prog_try m s = (case m s of (r, t) \<Rightarrow> (Inr r, t))"

lemmas prog_defs = prog_try_def prog_return_def prog_throw_def prog_bind_def prog_then_def prog_get_def
  prog_modify_def prog_lift_def prog_catch_def

text \<open>A preorder that every program call respects, errors included.\<close>

definition effects :: "('s \<Rightarrow> 's \<Rightarrow> bool) \<Rightarrow> ('e, 's, 'a) prog \<Rightarrow> bool" where
  "effects R m \<longleftrightarrow> (\<forall>s. R s (snd (m s)))"

lemma effectsD: "effects R m \<Longrightarrow> m s = (r, t) \<Longrightarrow> R s t"
  unfolding effects_def by (metis snd_conv)

locale effect_preorder =
  fixes R :: "'s \<Rightarrow> 's \<Rightarrow> bool"
  assumes R_refl: "R s s" and R_trans: "R s t \<Longrightarrow> R t u \<Longrightarrow> R s u"
begin

lemma pure:
  "effects R (prog_return a)" "effects R (prog_throw e)" "effects R (prog_get q)" "effects R (prog_lift x)"
  by (simp_all add: effects_def prog_defs R_refl)

lemma bind:
  assumes "effects R m" and "\<And>a. effects R (f a)"
  shows "effects R (prog_bind m f)"
  unfolding effects_def
proof
  fix s
  obtain r t where m: "m s = (r, t)" by (metis surj_pair)
  with assms(1) have "R s t" by (rule effectsD)
  then show "R s (snd (prog_bind m f s))"
    using assms(2) m R_trans by (cases r) (auto simp: prog_bind_def effects_def)
qed

lemma seq: "effects R m \<Longrightarrow> effects R n \<Longrightarrow> effects R (prog_then m n)"
  unfolding prog_then_def by (rule bind)

lemma attempt:
  assumes "effects R m" and "\<And>e. effects R (h e)"
  shows "effects R (prog_catch m h)"
  unfolding effects_def
proof
  fix s
  obtain r t where m: "m s = (r, t)" by (metis surj_pair)
  with assms(1) have "R s t" by (rule effectsD)
  then show "R s (snd (prog_catch m h s))"
    using assms(2) m R_trans by (cases r) (auto simp: prog_catch_def effects_def)
qed

lemma outcome: "effects R m \<Longrightarrow> effects R (prog_try m)"
  by (simp add: effects_def prog_try_def case_prod_beta)

lemma cond: "effects R m \<Longrightarrow> effects R n \<Longrightarrow> effects R (if b then m else n)"
  by simp

lemma choice: "effects R m \<Longrightarrow> (\<And>x. effects R (f x)) \<Longrightarrow> effects R (case v of None \<Rightarrow> m | Some x \<Rightarrow> f x)"
  by (cases v) simp_all

lemma alternative:
  "(\<And>e. effects R (f e)) \<Longrightarrow> (\<And>a. effects R (g a)) \<Longrightarrow> effects R (case v of Inl e \<Rightarrow> f e | Inr a \<Rightarrow> g a)"
  by (cases v) simp_all

lemmas structural = pure bind seq attempt outcome cond choice

end

text \<open>An id counts when it is present and not the empty string.\<close>

definition truthy_id :: "string option \<Rightarrow> string option" where
  "truthy_id v = (if truthy v then v else None)"

end
