(* ===== verification/Effects.thy ===== *)
theory Effects
  imports LedgerFlows JsNumber Programs
begin

text \<open>
  The billing database as the handlers see it: the ledger with the tables around it, and what a
  handler may do to them.
\<close>

section \<open>The billing database\<close>

text \<open>
  The tables around the ledger: the pack catalogue, the archive of Stripe events, and the
  freeze notices handed to the notification dispatcher. The columns no code here reads
  (\<open>visibility\<close>, \<open>displayOrder\<close>, timestamps) are left out; archive rows are in order of
  receipt.
\<close>

record CreditPack =
  cp_id :: string
  cp_creditsGranted :: int
  cp_unitAmountCents :: int
  cp_unitAmountCentsUsd :: "int option"
  cp_currency :: string
  cp_stripeProductId :: "string option"
  cp_stripePriceId :: "string option"
  cp_enabled :: bool

record StripeEvent =
  ev_id :: string
  ev_type :: string
  ev_objectId :: string   \<comment> \<open>\<open>event.data.object.id\<close>\<close>

record WebhookRow =
  wh_stripeEventId :: string
  wh_type :: string
  wh_payload :: "StripeEvent option"   \<comment> \<open>\<open>None\<close>: not an event any more\<close>
  wh_status :: string
  wh_firstError :: "string option"
  wh_attemptCount :: int
  wh_lastError :: "string option"
  wh_processedAt :: "int option"

record freeze_notice =
  fn_organizationId :: string
  fn_lotId :: string
  fn_frozenCredits :: int
  fn_stripeEventId :: string

record billing_db =
  ledger :: credit_db
  packs :: "CreditPack list"
  archive :: "WebhookRow list"
  notices :: "freeze_notice list"

datatype app_error =
    Ledger ledger_error
  | StripeApi string
  | MissingStripeConfigError
  | UnsupportedCreditCurrencyError string string
  | MissingCheckoutSessionUrlError string
  | OtherError string

type_synonym 'a billing_prog = "(app_error, billing_db, 'a) prog"

text \<open>A call of a ledger function.\<close>

definition on_ledger :: "(credit_db \<Rightarrow> (ledger_error + 'a) \<times> credit_db) \<Rightarrow> 'a billing_prog" where
  "on_ledger call s =
     (case call (ledger s) of
        (Inl e, d) \<Rightarrow> (Inl (Ledger e), s\<lparr>ledger := d\<rparr>)
      | (Inr a, d) \<Rightarrow> (Inr a, s\<lparr>ledger := d\<rparr>))"

lemma on_ledger_run: "call (ledger s) = (Inr a, d) \<Longrightarrow> on_ledger call s = (Inr a, s\<lparr>ledger := d\<rparr>)"
  by (simp add: on_ledger_def)

text \<open>
  What every handler does to the ledger: it runs ledger transactions and nothing else. From
  a reachable ledger, a handler leaves a reachable ledger.
\<close>

definition ledger_moves :: "billing_db \<Rightarrow> billing_db \<Rightarrow> bool" where
  "ledger_moves s t \<longleftrightarrow> ledger_step\<^sup>*\<^sup>* (ledger s) (ledger t)"

interpretation handlers: effect_preorder ledger_moves
  by unfold_locales (auto simp: ledger_moves_def)

text \<open>What a handler may do besides: nothing to the catalogue and nothing to the archive.\<close>

definition handler_rel :: "billing_db \<Rightarrow> billing_db \<Rightarrow> bool" where
  "handler_rel s t \<longleftrightarrow> ledger_moves s t \<and> archive t = archive s \<and> packs t = packs s"

interpretation handler: effect_preorder handler_rel
  by unfold_locales (auto simp: handler_rel_def intro: handlers.R_refl handlers.R_trans)

lemma on_ledger_rel:
  assumes "\<And>d r d'. call d = (r, d') \<Longrightarrow> ledger_step\<^sup>*\<^sup>* d d'"
  shows "effects handler_rel (on_ledger call)"
  unfolding effects_def
proof
  fix s :: billing_db
  obtain r d where run: "call (ledger s) = (r, d)" by (metis surj_pair)
  then show "handler_rel s (snd (on_ledger call s))"
    using assms [OF run] by (cases r) (simp_all add: on_ledger_def ledger_moves_def handler_rel_def)
qed

lemma moves_reachable:
  "ledger_moves s t \<Longrightarrow> ledger_reachable (ledger s) \<Longrightarrow> ledger_reachable (ledger t)"
  by (auto simp: ledger_moves_def ledger_reachable_def)

section \<open>Expandable Stripe fields\<close>

datatype expandable = Id string | Object string

definition idOf :: "expandable option \<Rightarrow> string option" where
  "idOf field = (case field of None \<Rightarrow> None | Some (Id i) \<Rightarrow> Some i | Some (Object i) \<Rightarrow> Some i)"

end
