(* ===== verification/StripeRefunds.thy ===== *)
theory StripeRefunds
  imports Effects
begin

text \<open>
  Money leaving: \<open>packages/billing/src/stripe-refunds.ts\<close>. A refund or dispute event names an
  object; the handler re-reads it from the Stripe API (a parameter) and hands the payment to
  the ledger.
\<close>

section \<open>The Stripe objects it reads\<close>

record StripeRefund =
  rf_id :: string
  rf_charge :: "expandable option"

record StripeCharge =
  ch_id :: string
  ch_amount :: int
  ch_amount_refunded :: int
  ch_payment_intent :: "expandable option"

record StripeDispute =
  dp_id :: string
  dp_status :: string
  dp_charge :: "expandable option"
  dp_payment_intent :: "expandable option"

record StripeRefundClient =
  refunds_retrieve :: "string \<Rightarrow> app_error + StripeRefund"
  charges_retrieve :: "string \<Rightarrow> app_error + StripeCharge"
  disputes_retrieve :: "string \<Rightarrow> app_error + StripeDispute"

datatype webhook_status = processed | ignored | needs_admin

text \<open>The notifier of a freeze may fail; the hook may also be absent.\<close>

type_synonym freeze_notifier = "(freeze_notice \<Rightarrow> app_error option) option"

section \<open>Handlers\<close>

definition archiveStatusFor :: "CreditLotAdjustmentResult \<Rightarrow> webhook_status" where
  "archiveStatusFor result =
     (case result of
        Applied _ _ _ \<Rightarrow> processed
      | AlreadyApplied _ _ _ \<Rightarrow> processed
      | NoLot \<Rightarrow> needs_admin
      | NeedsAdmin _ _ _ \<Rightarrow> needs_admin)"

definition toDisposition :: "string \<Rightarrow> disposition option" where
  "toDisposition status =
     (if status = ''won'' \<or> status = ''warning_closed'' then Some Won
      else if status = ''lost'' then Some Lost
      else None)"

definition refundedCharge :: "StripeRefundClient \<Rightarrow> StripeEvent \<Rightarrow> string option billing_prog" where
  "refundedCharge stripe event =
     (if ev_type event = ''refund.created''
      then prog_bind (prog_lift (refunds_retrieve stripe (ev_objectId event))) (\<lambda>refund.
             prog_return (truthy_id (idOf (rf_charge refund))))
      else prog_return (Some (ev_objectId event)))"

definition handleRefundEvent ::
  "StripeRefundClient \<Rightarrow> faults \<Rightarrow> StripeEvent \<Rightarrow> webhook_status billing_prog" where
  "handleRefundEvent stripe flt event =
     prog_bind (refundedCharge stripe event) (\<lambda>chargeId.
       case chargeId of
         None \<Rightarrow> prog_return needs_admin
       | Some charge_id \<Rightarrow>
           prog_bind (prog_lift (charges_retrieve stripe charge_id)) (\<lambda>charge.
             case truthy_id (idOf (ch_payment_intent charge)) of
               None \<Rightarrow> prog_return needs_admin
             | Some stripePaymentIntentId \<Rightarrow>
                 prog_bind (on_ledger (revokeUnconsumedLot flt stripePaymentIntentId
                     (ch_amount_refunded charge) (ch_amount charge) (Some (ev_id event)))) (\<lambda>result.
                 prog_return (archiveStatusFor result))))"

text \<open>
  The notice is sent after the freeze committed; an error of the notifier is swallowed.
  \<open>notices\<close> records the calls.
\<close>

definition notifyFreeze :: "freeze_notifier \<Rightarrow> freeze_notice \<Rightarrow> unit billing_prog" where
  "notifyFreeze notify notice =
     (case notify of
        None \<Rightarrow> prog_return ()
      | Some send \<Rightarrow>
          prog_catch
            (prog_then (prog_modify (\<lambda>s. s\<lparr>notices := notices s @ [notice]\<rparr>))
              (case send notice of None \<Rightarrow> prog_return () | Some e \<Rightarrow> prog_throw e))
            (\<lambda>_. prog_return ()))"

definition resolvePaymentIntentId ::
  "StripeRefundClient \<Rightarrow> StripeDispute \<Rightarrow> string option billing_prog" where
  "resolvePaymentIntentId stripe dispute =
     (case truthy_id (idOf (dp_payment_intent dispute)) of
        Some direct \<Rightarrow> prog_return (Some direct)
      | None \<Rightarrow>
          (case truthy_id (idOf (dp_charge dispute)) of
             None \<Rightarrow> prog_return None
           | Some chargeId \<Rightarrow>
               prog_bind (prog_lift (charges_retrieve stripe chargeId)) (\<lambda>charge.
               prog_return (idOf (ch_payment_intent charge)))))"

definition handleDisputeEvent ::
  "StripeRefundClient \<Rightarrow> faults \<Rightarrow> freeze_notifier \<Rightarrow> int \<Rightarrow> StripeEvent \<Rightarrow> webhook_status billing_prog" where
  "handleDisputeEvent stripe flt notify now event =
     prog_bind (prog_lift (disputes_retrieve stripe (ev_objectId event))) (\<lambda>dispute.
     prog_bind (resolvePaymentIntentId stripe dispute) (\<lambda>payment.
       case truthy_id payment of
         None \<Rightarrow> prog_return needs_admin
       | Some stripePaymentIntentId \<Rightarrow>
           if ev_type event = ''charge.dispute.created''
           then prog_bind (on_ledger (freezeLotForDispute flt stripePaymentIntentId
                    (Some (ev_id event)) now)) (\<lambda>frozen.
                prog_then
                  (case frozen of
                     Applied organizationId lotId credits \<Rightarrow>
                       notifyFreeze notify \<lparr>fn_organizationId = organizationId, fn_lotId = lotId,
                         fn_frozenCredits = credits, fn_stripeEventId = ev_id event\<rparr>
                   | _ \<Rightarrow> prog_return ())
                  (prog_return (archiveStatusFor frozen)))
           else
             (case toDisposition (dp_status dispute) of
                None \<Rightarrow> prog_return needs_admin
              | Some disposition \<Rightarrow>
                  prog_bind (on_ledger (resolveDisputeOnLot flt stripePaymentIntentId disposition
                      (Some (ev_id event)) now)) (\<lambda>resolved.
                  prog_return (archiveStatusFor resolved)))))"

section \<open>What the handlers do to the ledger\<close>

lemma handleRefundEvent_rel: "effects handler_rel (handleRefundEvent stripe flt event)"
  unfolding handleRefundEvent_def refundedCharge_def
  by (intro handler.structural on_ledger_rel) (rule adjustment_steps)

lemma notifyFreeze_rel: "effects handler_rel (notifyFreeze notify notice)"
proof -
  have "effects handler_rel (prog_modify (\<lambda>s. s\<lparr>notices := notices s @ [notice]\<rparr>))"
    by (simp add: effects_def prog_modify_def handler_rel_def ledger_moves_def)
  then show ?thesis unfolding notifyFreeze_def by (intro handler.structural)
qed

lemma handleDisputeEvent_rel: "effects handler_rel (handleDisputeEvent stripe flt notify now event)"
proof -
  have notice: "effects handler_rel (case frozen of
      Applied organizationId lotId credits \<Rightarrow> notifyFreeze notify (notice organizationId lotId credits)
    | _ \<Rightarrow> prog_return ())" for frozen notice
    by (cases frozen) (auto intro: notifyFreeze_rel handler.pure)
  show ?thesis
    unfolding handleDisputeEvent_def resolvePaymentIntentId_def
    by (intro handler.structural on_ledger_rel notice) (rule adjustment_steps, assumption)+
qed

text \<open>
  Stripe's two announcements of one refund converge: a \<open>refund.created\<close> event whose refund
  settles a charge does exactly what the \<open>charge.refunded\<close> event of that charge does, on the
  ledger, on the status and on errors.
\<close>
theorem refund_events_converge:
  assumes "ev_type created = ''refund.created''" and "ev_type refunded \<noteq> ''refund.created''"
    and "refunds_retrieve stripe (ev_objectId created) = Inr refund"
    and "truthy_id (idOf (rf_charge refund)) = Some (ev_objectId refunded)"
    and "ev_id created = ev_id refunded"
  shows "handleRefundEvent stripe flt created = handleRefundEvent stripe flt refunded"
proof
  fix s
  show "handleRefundEvent stripe flt created s = handleRefundEvent stripe flt refunded s"
    using assms by (simp add: handleRefundEvent_def refundedCharge_def prog_bind_def prog_lift_def
        prog_return_def split: sum.split option.split)
qed

definition demo_stripe :: StripeRefundClient where
  "demo_stripe = \<lparr>refunds_retrieve = (\<lambda>i. Inr \<lparr>rf_id = i, rf_charge = Some (Id ''ch_1'')\<rparr>),
     charges_retrieve = (\<lambda>i. Inr \<lparr>ch_id = i, ch_amount = 49900, ch_amount_refunded = 49900,
        ch_payment_intent = Some (Object ''pi_1'')\<rparr>),
     disputes_retrieve = (\<lambda>i. Inr \<lparr>dp_id = i, dp_status = ''under_review'', dp_charge = Some (Id ''ch_1''),
        dp_payment_intent = None\<rparr>)\<rparr>"

definition demo_world :: billing_db where
  "demo_world = \<lparr>ledger = demo_paid,
     packs = [\<lparr>cp_id = ''pack_25'', cp_creditsGranted = 25, cp_unitAmountCents = 49900,
        cp_unitAmountCentsUsd = Some 54900, cp_currency = ''eur'', cp_stripeProductId = Some ''prod_1'',
        cp_stripePriceId = Some ''price_1'', cp_enabled = True\<rparr>],
     archive = [], notices = []\<rparr>"

theorem refund_events_converge_witness:
  "handleRefundEvent demo_stripe no_faults \<lparr>ev_id = ''evt_r'', ev_type = ''refund.created'', ev_objectId = ''re_1''\<rparr>
   = handleRefundEvent demo_stripe no_faults \<lparr>ev_id = ''evt_r'', ev_type = ''charge.refunded'', ev_objectId = ''ch_1''\<rparr>"
  by (rule refund_events_converge [where refund = "\<lparr>rf_id = ''re_1'', rf_charge = Some (Id ''ch_1'')\<rparr>"])
     (simp_all add: demo_stripe_def truthy_id_def idOf_def)

lemma resolvePaymentIntentId_pure:
  obtains r where "\<And>s. resolvePaymentIntentId stripe dispute s = (r, s)"
proof -
  define m where "m = resolvePaymentIntentId stripe dispute"
  have "m s = (fst (m undefined), s)" for s
    by (auto simp: m_def resolvePaymentIntentId_def prog_defs split: option.split sum.split)
  then show thesis using that m_def by metis
qed

lemma notifyFreeze_result:
  "\<exists>ns. notifyFreeze notify notice s = (Inr (), s\<lparr>notices := notices s @ ns\<rparr>) \<and> (ns = [] \<or> ns = [notice])"
proof (cases notify)
  case None
  then show ?thesis by (intro exI [of _ "[]"]) (simp add: notifyFreeze_def prog_return_def)
next
  case (Some send)
  then show ?thesis
    by (intro exI [of _ "[notice]"])
       (auto simp: notifyFreeze_def prog_defs split: option.split)
qed

text \<open>
  a freeze notice goes out only when a freeze was applied, and its fate never changes
  the outcome: whatever the notifier does, the handler answers the same status and leaves the
  same ledger, and the notices it adds are none, or the one that names the lot and the credits
  that the ledger froze.
\<close>
theorem freeze_notice_never_changes_outcome:
  "(let (r, s') = handleDisputeEvent stripe flt notify now event s;
        (r0, s0) = handleDisputeEvent stripe flt None now event s
    in r = r0 \<and> ledger s' = ledger s0 \<and>
       (notices s' = notices s \<or>
        (\<exists>p org lot n. fst (freezeLotForDispute flt p (Some (ev_id event)) now (ledger s))
             = Inr (Applied org lot n) \<and>
           notices s' = notices s @ [\<lparr>fn_organizationId = org, fn_lotId = lot, fn_frozenCredits = n,
             fn_stripeEventId = ev_id event\<rparr>])))"
proof (cases "disputes_retrieve stripe (ev_objectId event)")
  case (Inl e)
  then show ?thesis by (simp add: handleDisputeEvent_def prog_defs)
next
  case (Inr dispute)
  obtain r where pay: "\<And>s. resolvePaymentIntentId stripe dispute s = (r, s)"
    by (rule resolvePaymentIntentId_pure [of stripe dispute]) blast
  show ?thesis
  proof (cases "\<exists>p. r = Inr p \<and> truthy_id p \<noteq> None \<and> ev_type event = ''charge.dispute.created''")
    case False
    then have same: "handleDisputeEvent stripe flt notify now event = handleDisputeEvent stripe flt None now event"
      by (intro ext) (auto simp: handleDisputeEvent_def prog_bind_def prog_lift_def Inr pay split: sum.split option.split)
    moreover have "notices (snd (handleDisputeEvent stripe flt None now event s)) = notices s"
      using False by (auto simp: handleDisputeEvent_def prog_defs on_ledger_def Inr pay split: sum.split option.split prod.split)
    ultimately show ?thesis unfolding same by (simp add: case_prod_beta Let_def)
  next
    case True
    then obtain p q where p: "r = Inr p" "truthy_id p = Some q" by auto
    obtain x d where run: "freezeLotForDispute flt q (Some (ev_id event)) now (ledger s) = (x, d)"
      by (metis surj_pair)
    have red: "handleDisputeEvent stripe flt n now event s =
        prog_bind (on_ledger (freezeLotForDispute flt q (Some (ev_id event)) now)) (\<lambda>frozen.
                prog_then
                  (case frozen of
                     Applied organizationId lotId credits \<Rightarrow>
                       notifyFreeze n \<lparr>fn_organizationId = organizationId, fn_lotId = lotId,
                         fn_frozenCredits = credits, fn_stripeEventId = ev_id event\<rparr>
                   | _ \<Rightarrow> prog_return ())
                  (prog_return (archiveStatusFor frozen))) s" for n
      using True p by (simp add: handleDisputeEvent_def prog_bind_def prog_lift_def Inr pay)
    show ?thesis
    proof (cases "\<exists>org lot k. x = Inr (Applied org lot k)")
      case False
      then show ?thesis
        using run by (auto simp: red prog_defs on_ledger_def split: sum.split CreditLotAdjustmentResult.split)
    next
      case True
      then obtain org lot k where x: "x = Inr (Applied org lot k)" by blast
      let ?n = "\<lparr>fn_organizationId = org, fn_lotId = lot, fn_frozenCredits = k, fn_stripeEventId = ev_id event\<rparr>"
      obtain ns where ns: "notifyFreeze notify ?n (s\<lparr>ledger := d\<rparr>)
          = (Inr (), s\<lparr>ledger := d, notices := notices s @ ns\<rparr>)" "ns = [] \<or> ns = [?n]"
        using notifyFreeze_result [of notify ?n "s\<lparr>ledger := d\<rparr>"] by auto
      have "\<exists>p. fst (freezeLotForDispute flt p (Some (ev_id event)) now (ledger s)) = Inr (Applied org lot k)"
        using run x by (metis fst_conv)
      then show ?thesis
        using run x ns by (auto simp: red prog_bind_def prog_then_def prog_return_def on_ledger_def
            notifyFreeze_def [of None])
    qed
  qed
qed

text \<open>
  a closed dispute is settled only on a final verdict: if the re-read status of a
  \<open>charge.dispute.closed\<close> event is neither won, lost nor a withdrawn warning, the handler parks
  the event for an operator, or fails at the API, and writes nothing.
\<close>
theorem open_dispute_never_settles:
  assumes "ev_type event \<noteq> ''charge.dispute.created''"
    and "disputes_retrieve stripe (ev_objectId event) = Inr dispute"
    and "dp_status dispute \<notin> {''won'', ''lost'', ''warning_closed''}"
  shows "snd (handleDisputeEvent stripe flt notify now event s) = s \<and>
    (\<forall>st. fst (handleDisputeEvent stripe flt notify now event s) = Inr st \<longrightarrow> st = needs_admin)"
  using assms
  by (auto simp: handleDisputeEvent_def resolvePaymentIntentId_def prog_defs toDisposition_def
      split: sum.splits option.splits prod.splits if_splits)

theorem open_dispute_never_settles_witness:
  "snd (handleDisputeEvent demo_stripe no_faults None 9
     \<lparr>ev_id = ''evt_d'', ev_type = ''charge.dispute.closed'', ev_objectId = ''dp_1''\<rparr> demo_world) = demo_world"
  using open_dispute_never_settles [of "\<lparr>ev_id = ''evt_d'', ev_type = ''charge.dispute.closed'', ev_objectId = ''dp_1''\<rparr>"
      demo_stripe] by (simp add: demo_stripe_def)

end
