(* ===== verification/StripeFulfilment.thy ===== *)
theory StripeFulfilment
  imports StripeRefunds
begin

text \<open>
  Money arriving: \<open>packages/billing/src/stripe-fulfilment.ts\<close>, the one function through which
  a paid Checkout session becomes credits, and the port its callers use (webhook, browser
  return, sweep).
\<close>

section \<open>The session it reads\<close>

type_synonym metadata = "string \<Rightarrow> string option"

record CheckoutSession =
  cs_id :: string
  cs_payment_status :: string
  cs_currency :: "string option"
  cs_amount_subtotal :: "int option"
  cs_metadata :: "metadata option"
  cs_payment_intent :: "expandable option"
  cs_invoice :: "expandable option"
  cs_customer_details :: "string option option option"   \<comment> \<open>details, address, country\<close>

type_synonym session_retrieve = "string \<Rightarrow> app_error + CheckoutSession"

datatype parked_reason = missing_metadata | no_payment_required

datatype CreditCheckoutFulfilment =
    FGranted string
  | FAlreadyGranted
  | FNotPaid
  | FUnknownPack
  | FNoPaymentIntent
  | FAmountMismatch
  | FForeignSession
  | FCurrencyMismatch
  | FNeedsAdmin parked_reason

definition FULFILLABLE_CURRENCIES :: "string list" where
  "FULFILLABLE_CURRENCIES = [''eur'', ''usd'']"

definition EXPECTED_AMOUNT_METADATA_KEY :: "string \<Rightarrow> string" where
  "EXPECTED_AMOUNT_METADATA_KEY currency = (if currency = ''usd'' then ''amountCentsUsd'' else ''amountCents'')"

section \<open>Readers\<close>

definition resolveExpectedPayment :: "string option \<Rightarrow> metadata \<Rightarrow> (string \<times> rat option) option" where
  "resolveExpectedPayment currency metadata =
     (case find (\<lambda>supported. Some supported = currency) FULFILLABLE_CURRENCIES of
        None \<Rightarrow> None
      | Some settled \<Rightarrow>
          (case metadata (EXPECTED_AMOUNT_METADATA_KEY settled) of
             None \<Rightarrow> None
           | Some raw \<Rightarrow> if js_trim raw = [] then None else Some (settled, js_Number (Some raw))))"

definition resolveObservedBillingCountry :: "string option option option \<Rightarrow> string option" where
  "resolveObservedBillingCountry customerDetails =
     (case customerDetails of
        Some (Some (Some country)) \<Rightarrow>
          if country = [] then None
          else let normalized = js_toUpperCase (js_trim country)
               in if normalized = [] then None else Some normalized
      | _ \<Rightarrow> None)"

definition findPack :: "string \<Rightarrow> CreditPack list \<Rightarrow> CreditPack option" where
  "findPack packId ps = find_row cp_id packId ps"

text \<open>\<open>metadata?.key?.trim()\<close>: absent metadata and an absent key are both \<open>undefined\<close>.\<close>

definition trimmed :: "metadata option \<Rightarrow> string \<Rightarrow> string option" where
  "trimmed m key = (case m of None \<Rightarrow> None | Some f \<Rightarrow> map_option js_trim (f key))"

section \<open>Fulfilment\<close>

definition fulfillPaidPaymentIntent ::
  "faults \<times> faults \<Rightarrow> fresh_ids \<Rightarrow> GrantPurchasedCreditLotInput \<Rightarrow> GrantPurchasedCreditLotResult billing_prog" where
  "fulfillPaidPaymentIntent flt ids input = on_ledger (grantPurchasedCreditLot flt ids input)"

record fulfilment_input =
  fi_checkoutSessionId :: string
  fi_expectedOrganizationId :: "string option"
  fi_stripeEventId :: "string option"
  fi_now :: int

definition grantInput :: "string \<Rightarrow> CreditPack \<Rightarrow> int \<Rightarrow> string \<Rightarrow> string \<Rightarrow> CheckoutSession \<Rightarrow> fulfilment_input \<Rightarrow>
  GrantPurchasedCreditLotInput" where
  "grantInput organizationId pack paidAmountCents currency payment session input =
     \<lparr>gi_organizationId = organizationId, gi_packId = cp_id pack,
      gi_creditsGranted = cp_creditsGranted pack, gi_unitAmountCents = paidAmountCents,
      gi_currency = currency,
      gi_billingCountry = resolveObservedBillingCountry (cs_customer_details session),
      gi_stripePaymentIntentId = payment, gi_stripeCheckoutSessionId = Some (cs_id session),
      gi_stripeInvoiceId = idOf (cs_invoice session), gi_stripeEventId = fi_stripeEventId input,
      gi_now = fi_now input\<rparr>"

text \<open>The verdict on a session the caller owns, before the ledger is asked: a refusal, or the grant.\<close>

definition sessionVerdict ::
  "CreditPack list \<Rightarrow> fulfilment_input \<Rightarrow> CheckoutSession \<Rightarrow>
   CreditCheckoutFulfilment + GrantPurchasedCreditLotInput" where
  "sessionVerdict ps input session =
     (if cs_payment_status session = ''unpaid'' then Inl FNotPaid
      else if cs_payment_status session \<noteq> ''paid'' then Inl (FNeedsAdmin no_payment_required)
      else
        let metadata = (case cs_metadata session of None \<Rightarrow> (\<lambda>_. None) | Some m \<Rightarrow> m) in
        case (truthy_id (trimmed (cs_metadata session) ''organizationId''),
              truthy_id (trimmed (cs_metadata session) ''packId'')) of
          (Some organizationId, Some packId) \<Rightarrow>
            (case findPack packId ps of
               None \<Rightarrow> Inl FUnknownPack
             | Some pack \<Rightarrow>
                 if \<not> cp_enabled pack \<or> cp_creditsGranted pack \<le> 0 then Inl FUnknownPack
                 else if js_Number (metadata ''credits'') \<noteq> Some (of_int (cp_creditsGranted pack))
                 then Inl FAmountMismatch
                 else
                   (case (resolveExpectedPayment (cs_currency session) metadata, cs_amount_subtotal session) of
                      (Some (currency, amount), Some paidAmountCents) \<Rightarrow>
                        if amount \<noteq> Some (of_int paidAmountCents) then Inl FAmountMismatch
                        else
                          (case truthy_id (idOf (cs_payment_intent session)) of
                             None \<Rightarrow> Inl FNoPaymentIntent
                           | Some payment \<Rightarrow>
                               Inr (grantInput organizationId pack paidAmountCents currency payment session input))
                    | _ \<Rightarrow> Inl FAmountMismatch))
        | _ \<Rightarrow> Inl (FNeedsAdmin missing_metadata))"

definition fulfilmentOf :: "GrantPurchasedCreditLotResult \<Rightarrow> CreditCheckoutFulfilment" where
  "fulfilmentOf grant =
     (case grant of
        Granted lotId \<Rightarrow> FGranted lotId
      | AlreadyGranted \<Rightarrow> FAlreadyGranted
      | CurrencyMismatch _ _ \<Rightarrow> FCurrencyMismatch)"

definition fulfillCreditCheckout ::
  "session_retrieve \<Rightarrow> faults \<times> faults \<Rightarrow> fresh_ids \<Rightarrow> fulfilment_input \<Rightarrow> CreditCheckoutFulfilment billing_prog" where
  "fulfillCreditCheckout retrieve flt ids input =
     prog_bind (prog_lift (retrieve (fi_checkoutSessionId input))) (\<lambda>session.
       if fi_expectedOrganizationId input \<noteq> None \<and>
          trimmed (cs_metadata session) ''organizationId'' \<noteq> fi_expectedOrganizationId input
       then prog_return FForeignSession
       else
         prog_bind (prog_get (\<lambda>s. sessionVerdict (packs s) input session)) (\<lambda>verdict.
           case verdict of
             Inl refusal \<Rightarrow> prog_return refusal
           | Inr grant \<Rightarrow>
               prog_bind (fulfillPaidPaymentIntent flt ids grant) (\<lambda>result.
               prog_return (fulfilmentOf result))))"

lemma fulfillCreditCheckout_rel: "effects handler_rel (fulfillCreditCheckout retrieve flt ids input)"
proof -
  have "effects handler_rel (case v of Inl r \<Rightarrow> prog_return r | Inr g \<Rightarrow>
      prog_bind (fulfillPaidPaymentIntent flt ids g) (\<lambda>r. prog_return (fulfilmentOf r)))" for v
    unfolding fulfillPaidPaymentIntent_def
    by (cases v) (auto intro!: handler.structural on_ledger_rel grant_steps)
  then show ?thesis
    unfolding fulfillCreditCheckout_def by (intro handler.structural)
qed

lemma fulfilmentOf_granted [simp]: "fulfilmentOf g = FGranted k \<longleftrightarrow> g = Granted k"
  by (cases g) (auto simp: fulfilmentOf_def)

lemma findPack_id: "findPack k ps = Some p \<Longrightarrow> cp_id p = k"
  unfolding findPack_def by (auto dest: find_row_SomeD)

text \<open>What a granting verdict has checked.\<close>

lemma truthy_id_Some: "truthy_id x = Some y \<longleftrightarrow> x = Some y \<and> y \<noteq> []"
  by (cases x) (auto simp: truthy_id_def)

lemma resolveExpectedPayment_Some:
  assumes "resolveExpectedPayment currency m = Some (settled, amount)"
  shows "currency = Some settled \<and> settled \<in> {''eur'', ''usd''} \<and>
    (\<exists>raw. m (EXPECTED_AMOUNT_METADATA_KEY settled) = Some raw \<and> amount = js_Number (Some raw))"
  using assms
  by (auto simp: resolveExpectedPayment_def FULFILLABLE_CURRENCIES_def split: option.splits if_splits)

lemma sessionVerdict_Inr:
  assumes "sessionVerdict ps input session = Inr g"
  obtains organizationId pack currency paid payment where
    "cs_payment_status session = ''paid''"
    "trimmed (cs_metadata session) ''organizationId'' = Some organizationId" "organizationId \<noteq> []"
    "trimmed (cs_metadata session) ''packId'' = Some (cp_id pack)"
    "findPack (cp_id pack) ps = Some pack" "cp_enabled pack" "0 < cp_creditsGranted pack"
    "js_Number (case cs_metadata session of None \<Rightarrow> None | Some m \<Rightarrow> m ''credits'') =
       Some (of_int (cp_creditsGranted pack))"
    "resolveExpectedPayment (cs_currency session)
       (case cs_metadata session of None \<Rightarrow> (\<lambda>_. None) | Some m \<Rightarrow> m) = Some (currency, Some (of_int paid))"
    "cs_amount_subtotal session = Some paid"
    "idOf (cs_payment_intent session) = Some payment"
    "g = grantInput organizationId pack paid currency payment session input"
proof -
  let ?m = "case cs_metadata session of None \<Rightarrow> (\<lambda>_. None) | Some m \<Rightarrow> m"
  from assms obtain organizationId packId where
    org: "truthy_id (trimmed (cs_metadata session) ''organizationId'') = Some organizationId" and
    pid: "truthy_id (trimmed (cs_metadata session) ''packId'') = Some packId" and
    paid: "cs_payment_status session = ''paid''"
    unfolding sessionVerdict_def Let_def by (auto split: if_splits option.splits)
  from assms org pid paid obtain pack where pack: "findPack packId ps = Some pack"
    unfolding sessionVerdict_def Let_def by (auto split: option.splits)
  from assms org pid paid pack obtain currency amount paidAmountCents where
    ok: "cp_enabled pack" "0 < cp_creditsGranted pack" "js_Number (?m ''credits'') = Some (of_int (cp_creditsGranted pack))"
    and expected: "resolveExpectedPayment (cs_currency session) ?m = Some (currency, amount)"
    and total: "cs_amount_subtotal session = Some paidAmountCents"
    unfolding sessionVerdict_def Let_def by (auto split: if_splits option.splits prod.splits)
  from assms org pid paid pack ok expected total obtain payment where
    amt: "amount = Some (of_int paidAmountCents)" and
    pay: "truthy_id (idOf (cs_payment_intent session)) = Some payment" and
    g: "g = grantInput organizationId pack paidAmountCents currency payment session input"
    unfolding sessionVerdict_def Let_def by (auto split: if_splits option.splits)
  show ?thesis
    by (rule that [of organizationId pack currency paidAmountCents payment])
      (use paid org pid pack ok expected total amt pay g findPack_id [OF pack] in
        \<open>auto simp: truthy_id_Some split: option.splits\<close>)
qed

lemma sessionVerdict_grants:
  assumes "sessionVerdict ps input session = Inr g"
  shows "cs_payment_status session = ''paid'' \<and>
    trimmed (cs_metadata session) ''organizationId'' = Some (gi_organizationId g) \<and> gi_organizationId g \<noteq> [] \<and>
    trimmed (cs_metadata session) ''packId'' = Some (gi_packId g) \<and>
    (\<exists>pack. findPack (gi_packId g) ps = Some pack \<and> cp_enabled pack \<and>
       gi_creditsGranted g = cp_creditsGranted pack \<and> 0 < cp_creditsGranted pack) \<and>
    cs_amount_subtotal session = Some (gi_unitAmountCents g) \<and>
    cs_currency session = Some (gi_currency g) \<and> gi_currency g \<in> {''eur'', ''usd''} \<and>
    idOf (cs_payment_intent session) = Some (gi_stripePaymentIntentId g) \<and>
    (\<exists>m raw. cs_metadata session = Some m \<and> m (EXPECTED_AMOUNT_METADATA_KEY (gi_currency g)) = Some raw \<and>
       js_Number (Some raw) = Some (of_int (gi_unitAmountCents g)) \<and>
       js_Number (m ''credits'') = Some (of_int (gi_creditsGranted g)))"
  using assms
proof (cases rule: sessionVerdict_Inr)
  case (1 organizationId pack currency paid payment)
  from 1(2) obtain m where m: "cs_metadata session = Some m"
    by (auto simp: trimmed_def split: option.splits)
  from resolveExpectedPayment_Some [OF 1(9)] obtain raw where
    "cs_currency session = Some currency" "currency \<in> {''eur'', ''usd''}"
    "m (EXPECTED_AMOUNT_METADATA_KEY currency) = Some raw" "js_Number (Some raw) = Some (of_int paid)"
    by (auto simp: m)
  with 1 m show ?thesis by (auto simp: grantInput_def)
qed

section \<open>Properties\<close>

lemma granted_lots:
  assumes "ledger_reachable db"
    and "grantPurchasedCreditLot flt ids i db = (Inr (Granted lid), db')"
  shows "\<exists>free. lots db' = lots db @ free @ [purchasedLot lid i] \<and>
    (free = [] \<or> (\<exists>d. free = [firstFiveLot (fresh_freeLotId ids) (gi_organizationId i) (gi_now i) d])) \<and>
    findLot lid db' = Some (purchasedLot lid i)"
proof (rule grant_commits_ensured [OF assms(2)])
  fix q db1
  assume ens: "ensureWallet (fst flt) ids (gi_organizationId i) (gi_now i) (Some PAID_CREDIT_EXPIRY_DAYS) db = (q, db1)"
    and run: "grantTx (fresh_lotId ids) i db1 = Inr (Granted lid, db')"
    and amounts: "0 < gi_creditsGranted i" "0 \<le> gi_unitAmountCents i"
  have inv: "ledger_inv db1"
    using ledger_steps_evolve [of db db1] ensureWallet_steps [OF ens] reachable_inv [OF assms(1)] by auto
  have lid: "lid = fresh_lotId ids" "lots db' = lots db1 @ [purchasedLot lid i]"
    using grantTx_granted [OF run inv] by auto
  have "ledger_inv db'" using hoareD [OF grantTx_inv inv run] amounts by simp
  then have "wf db'" by (simp add: ledger_inv_def)
  then have "findLot lid db' = Some (purchasedLot lid i)"
    using wf_find_lot [of db' _ "purchasedLot lid i"] lid by (simp add: purchasedLot_def)
  then show ?thesis using ensureWallet_writes [OF ens] lid by auto
qed

lemma sessionVerdict_refuses:
  "sessionVerdict ps input session \<noteq> Inl (FGranted k) \<and> sessionVerdict ps input session \<noteq> Inl FAlreadyGranted"
  by (auto simp: sessionVerdict_def Let_def split: option.split)

lemma fulfillCreditCheckout_granted:
  assumes "fulfillCreditCheckout retrieve flt ids input s = (Inr (FGranted k), s')"
  obtains session g where
    "retrieve (fi_checkoutSessionId input) = Inr session"
    "fi_expectedOrganizationId input = None \<or>
       trimmed (cs_metadata session) ''organizationId'' = fi_expectedOrganizationId input"
    "sessionVerdict (packs s) input session = Inr g"
    "grantPurchasedCreditLot flt ids g (ledger s) = (Inr (Granted k), ledger s')"
    "s' = s\<lparr>ledger := ledger s'\<rparr>"
  using assms sessionVerdict_refuses
  by (auto simp: fulfillCreditCheckout_def fulfillPaidPaymentIntent_def prog_defs on_ledger_def
      split: sum.splits if_splits prod.splits)

text \<open>
  C3: credits are granted only against money that arrived, and on the terms it was taken for.
  When fulfilment answers \<open>granted\<close>, Stripe's own session says paid; the buyer and the pack
  are those of its metadata, and the buyer is the caller's organization where one was
  expected; the pack is on sale and its credits are the ones the session was created with; the
  money collected, in the currency it was collected in, is what that metadata quotes. The new
  lot, the only one added besides the buyer's own free one, carries exactly these terms and
  has every credit unspent.
\<close>
theorem fulfilment_grants_what_was_paid:
  assumes "ledger_reachable (ledger s)"
    and "fulfillCreditCheckout retrieve flt ids input s = (Inr (FGranted k), s')"
  shows "\<exists>session m pack paid currency raw lot.
    retrieve (fi_checkoutSessionId input) = Inr session \<and> cs_payment_status session = ''paid'' \<and>
    cs_metadata session = Some m \<and>
    map_option js_trim (m ''organizationId'') = Some (cl_organizationId lot) \<and>
    (fi_expectedOrganizationId input = None \<or> fi_expectedOrganizationId input = Some (cl_organizationId lot)) \<and>
    map_option js_trim (m ''packId'') = Some (cp_id pack) \<and>
    findPack (cp_id pack) (packs s) = Some pack \<and> cp_enabled pack \<and>
    js_Number (m ''credits'') = Some (of_int (cp_creditsGranted pack)) \<and>
    cs_amount_subtotal session = Some paid \<and> cs_currency session = Some currency \<and>
    m (EXPECTED_AMOUNT_METADATA_KEY currency) = Some raw \<and> js_Number (Some raw) = Some (of_int paid) \<and>
    findLot k (ledger s') = Some lot \<and> cl_packId lot = Some (cp_id pack) \<and>
    cl_creditsGranted lot = cp_creditsGranted pack \<and> cl_creditsConsumed lot = 0 \<and> cl_creditsReserved lot = 0 \<and>
    cl_unitAmountCents lot = Some paid \<and> cl_currency lot = js_toUpperCase currency \<and>
    cl_stripePaymentIntentId lot = idOf (cs_payment_intent session) \<and>
    (\<exists>free. lots (ledger s') = lots (ledger s) @ free @ [lot] \<and>
       (free = [] \<or> (\<exists>d. free = [firstFiveLot (fresh_freeLotId ids) (cl_organizationId lot) (fi_now input) d])))"
proof (rule fulfillCreditCheckout_granted [OF assms(2)])
  fix session g
  assume session: "retrieve (fi_checkoutSessionId input) = Inr session"
    and own: "fi_expectedOrganizationId input = None \<or>
       trimmed (cs_metadata session) ''organizationId'' = fi_expectedOrganizationId input"
    and verdict: "sessionVerdict (packs s) input session = Inr g"
    and grant: "grantPurchasedCreditLot flt ids g (ledger s) = (Inr (Granted k), ledger s')"
  note terms = sessionVerdict_grants [OF verdict]
  then obtain m where m: "cs_metadata session = Some m" by blast
  obtain free where lots: "lots (ledger s') = lots (ledger s) @ free @ [purchasedLot k g]"
      "free = [] \<or> (\<exists>d. free = [firstFiveLot (fresh_freeLotId ids) (gi_organizationId g) (gi_now g) d])"
      "findLot k (ledger s') = Some (purchasedLot k g)"
    using granted_lots [OF assms(1) grant] by blast
  have now: "gi_now g = fi_now input"
    using verdict by (cases rule: sessionVerdict_Inr) (simp add: grantInput_def)
  obtain pack where "findPack (gi_packId g) (packs s) = Some pack" "cp_enabled pack"
      "gi_creditsGranted g = cp_creditsGranted pack" "cp_id pack = gi_packId g"
    using terms findPack_id by blast
  moreover obtain raw where "m (EXPECTED_AMOUNT_METADATA_KEY (gi_currency g)) = Some raw"
      "js_Number (Some raw) = Some (of_int (gi_unitAmountCents g))"
      "js_Number (m ''credits'') = Some (of_int (gi_creditsGranted g))"
    using terms m by auto
  moreover have "map_option js_trim (m ''organizationId'') = Some (gi_organizationId g)"
      "map_option js_trim (m ''packId'') = Some (gi_packId g)"
    using terms m by (auto simp: trimmed_def)
  ultimately show ?thesis
    using terms m session own lots now
    by (intro exI [of _ session] exI [of _ m] exI [of _ pack] exI [of _ "gi_unitAmountCents g"]
        exI [of _ "gi_currency g"] exI [of _ raw] exI [of _ "purchasedLot k g"])
      (auto simp: purchasedLot_def trimmed_def)
qed

definition demo_metadata :: metadata where
  "demo_metadata = [''organizationId'' \<mapsto> ''org'', ''packId'' \<mapsto> ''pack_25'', ''credits'' \<mapsto> ''25'',
     ''amountCents'' \<mapsto> ''49900'', ''amountCentsUsd'' \<mapsto> ''54900'']"

definition demo_paid_session :: "string \<Rightarrow> CheckoutSession" where
  "demo_paid_session i = \<lparr>cs_id = i, cs_payment_status = ''paid'', cs_currency = Some ''eur'',
     cs_amount_subtotal = Some 49900, cs_metadata = Some demo_metadata, cs_payment_intent = Some (Id ''pi_1''),
     cs_invoice = None, cs_customer_details = Some (Some (Some ''fr ''))\<rparr>"

definition demo_session :: session_retrieve where
  "demo_session i = Inr (demo_paid_session i)"

definition demo_return :: fulfilment_input where
  "demo_return = \<lparr>fi_checkoutSessionId = ''cs_1'', fi_expectedOrganizationId = Some ''org'',
     fi_stripeEventId = Some ''evt_1'', fi_now = 5\<rparr>"

definition demo_shop :: billing_db where
  "demo_shop = demo_world\<lparr>ledger := empty_db\<rparr>"

lemma demo_numbers:
  "js_Number (Some ''25'') = Some 25" "js_Number (Some ''49900'') = Some 49900"
proof -
  have "digits_value 10 ''25'' = 25" "digits_value 10 ''49900'' = 49900"
    by (simp_all add: digits_value_def digit_value_def Let_def)
  then show "js_Number (Some ''25'') = Some 25" "js_Number (Some ''49900'') = Some 49900"
    using Number_list [of "''25''"] Number_list [of "''49900''"] by (simp_all add: is_digit_def)
qed

lemma demo_verdict: "sessionVerdict (packs demo_shop) demo_return (demo_paid_session ''cs_1'') = Inr demo_purchase"
proof -
  have texts: "js_trim ''org'' = ''org''" "js_trim ''pack_25'' = ''pack_25''" "js_trim ''49900'' = ''49900''"
    "js_trim ''fr '' = ''fr''" "js_toUpperCase ''fr'' = ''FR''"
    by code_simp+
  show ?thesis
    by (simp add: sessionVerdict_def demo_paid_session_def demo_metadata_def demo_shop_def demo_world_def demo_return_def
        demo_purchase_def trimmed_def truthy_id_def truthy_def texts demo_numbers findPack_def find_row_def
        resolveExpectedPayment_def FULFILLABLE_CURRENCIES_def EXPECTED_AMOUNT_METADATA_KEY_def idOf_def
        grantInput_def resolveObservedBillingCountry_def)
qed

lemma demo_fulfilled:
  "fulfillCreditCheckout demo_session (no_faults, no_faults) demo_ids demo_return demo_shop =
     (Inr (FGranted ''lot1''), demo_shop\<lparr>ledger := demo_paid\<rparr>)"
proof -
  have own: "trimmed (cs_metadata (demo_paid_session ''cs_1'')) ''organizationId'' = Some ''org''"
    by code_simp
  have "ledger demo_shop = empty_db" "fi_checkoutSessionId demo_return = ''cs_1''"
    "fi_expectedOrganizationId demo_return = Some ''org''"
    by (simp_all add: demo_shop_def demo_return_def)
  then show ?thesis
    using demo_grant demo_verdict own
    by (simp add: fulfillCreditCheckout_def fulfillPaidPaymentIntent_def prog_defs on_ledger_def fulfilmentOf_def demo_session_def)
qed

lemma demo_shop_reachable: "ledger_reachable (ledger demo_shop)"
  by (simp add: demo_shop_def empty_reachable)

theorem fulfilment_grants_what_was_paid_witness:
  "\<exists>lot. findLot ''lot1'' demo_paid = Some lot \<and> cl_unitAmountCents lot = Some 49900 \<and> cl_currency lot = ''EUR'' \<and> cl_creditsGranted lot = 25"
proof -
  have eur: "js_toUpperCase ''eur'' = ''EUR''" and pid: "js_trim ''pack_25'' = ''pack_25''" by code_simp+
  have pack: "findPack ''pack_25'' (packs demo_shop) = Some p \<Longrightarrow> cp_creditsGranted p = 25" for p
    by (auto simp: findPack_def find_row_def demo_shop_def demo_world_def)
  from fulfilment_grants_what_was_paid [OF demo_shop_reachable demo_fulfilled] show ?thesis
    using eur pid pack by (auto simp: demo_session_def demo_paid_session_def demo_metadata_def)
qed

text \<open>
  C4: one payment is granted once, whoever asks and whatever session, event or call path
  brings it. After a fulfilment has granted a session, no later fulfilment of any session of
  the same Stripe payment, by any caller, with any catalogue and any fault of the database,
  answers \<open>granted\<close>.
\<close>
theorem payment_fulfilled_once:
  assumes "ledger_reachable (ledger s)"
    and "fulfillCreditCheckout retrieve flt ids input s = (Inr (FGranted k), s1)"
    and "ledger_moves s1 s2"
    and "retrieve (fi_checkoutSessionId input) = Inr session"
    and "retrieve' (fi_checkoutSessionId input') = Inr session'"
    and "idOf (cs_payment_intent session') = idOf (cs_payment_intent session)"
  shows "fst (fulfillCreditCheckout retrieve' flt' ids' input' s2) \<noteq> Inr (FGranted k')"
proof
  assume "fst (fulfillCreditCheckout retrieve' flt' ids' input' s2) = Inr (FGranted k')"
  then obtain s3 where again: "fulfillCreditCheckout retrieve' flt' ids' input' s2 = (Inr (FGranted k'), s3)"
    by (metis prod.collapse)
  obtain g where g: "sessionVerdict (packs s) input session = Inr g"
      "grantPurchasedCreditLot flt ids g (ledger s) = (Inr (Granted k), ledger s1)"
    using assms(4) by (auto intro: fulfillCreditCheckout_granted [OF assms(2)])
  obtain g' where g': "sessionVerdict (packs s2) input' session' = Inr g'"
      "grantPurchasedCreditLot flt' ids' g' (ledger s2) = (Inr (Granted k'), ledger s3)"
    using assms(5) by (auto intro: fulfillCreditCheckout_granted [OF again])
  have pay: "gi_stripePaymentIntentId g' = gi_stripePaymentIntentId g"
    using sessionVerdict_grants [OF g(1)] sessionVerdict_grants [OF g'(1)] assms(6) by simp
  obtain d where d: "ledger_step\<^sup>*\<^sup>* (ledger s2) d" "grantTx (fresh_lotId ids') g' d = Inr (Granted k', ledger s3)"
    by (rule grant_commits [OF g'(2)])
  have steps: "ledger_step\<^sup>*\<^sup>* (ledger s1) d" using assms(3) d(1) by (simp add: ledger_moves_def)
  obtain l where "findLotByPayment (gi_stripePaymentIntentId g) d = Some l" "ledger_inv d"
    using granted_lot_stays [OF assms(1) g(2) steps] by blast
  then show False using grantTx_granted [OF d(2)] pay by simp
qed

theorem payment_fulfilled_once_witness:
  "fst (fulfillCreditCheckout demo_session (no_faults, no_faults) demo_ids
      (demo_return\<lparr>fi_expectedOrganizationId := None, fi_stripeEventId := Some ''evt_9''\<rparr>)
      (demo_shop\<lparr>ledger := demo_paid\<rparr>))
    \<noteq> Inr (FGranted ''lot2'')"
  by (rule payment_fulfilled_once [OF demo_shop_reachable demo_fulfilled])
    (simp_all add: ledger_moves_def demo_session_def demo_paid_session_def)

text \<open>
  the browser return is no oracle on other people's payments. A caller that names its
  organization is answered \<open>foreign_session\<close> exactly when the session belongs to somebody else
  (or to nobody), whatever was paid, bought or granted before; and nothing is written then.
\<close>
theorem foreign_session_is_blind:
  assumes "retrieve (fi_checkoutSessionId input) = Inr session"
    and "fi_expectedOrganizationId input = Some org"
  shows "(fst (fulfillCreditCheckout retrieve flt ids input s) = Inr FForeignSession) =
      (trimmed (cs_metadata session) ''organizationId'' \<noteq> Some org) \<and>
    (fst (fulfillCreditCheckout retrieve flt ids input s) = Inr FForeignSession \<longrightarrow>
      snd (fulfillCreditCheckout retrieve flt ids input s) = s)"
proof (cases "trimmed (cs_metadata session) ''organizationId'' = Some org")
  case False
  then show ?thesis using assms by (simp add: fulfillCreditCheckout_def prog_defs)
next
  case True
  have "sessionVerdict (packs s) input session \<noteq> Inl FForeignSession"
    by (auto simp: sessionVerdict_def Let_def split: option.split)
  then show ?thesis
    using assms True
    by (auto simp: fulfillCreditCheckout_def fulfillPaidPaymentIntent_def prog_defs on_ledger_def fulfilmentOf_def
        split: sum.splits prod.splits GrantPurchasedCreditLotResult.splits)
qed

theorem foreign_session_is_blind_witness:
  "fulfillCreditCheckout demo_session (no_faults, no_faults) demo_ids
     (demo_return\<lparr>fi_expectedOrganizationId := Some ''mallory''\<rparr>) demo_shop = (Inr FForeignSession, demo_shop)"
proof -
  let ?i = "demo_return\<lparr>fi_expectedOrganizationId := Some ''mallory''\<rparr>"
  have "js_trim ''org'' = ''org''" by code_simp
  then have "trimmed (Some demo_metadata) ''organizationId'' = Some ''org''"
    by (simp add: trimmed_def demo_metadata_def)
  moreover have "demo_session (fi_checkoutSessionId ?i) = Inr (demo_paid_session (fi_checkoutSessionId ?i))"
      "fi_expectedOrganizationId ?i = Some ''mallory''"
    by (simp_all add: demo_session_def demo_return_def)
  note foreign_session_is_blind [where retrieve = demo_session and input = ?i, OF this, of "(no_faults, no_faults)" demo_ids demo_shop]
  ultimately show ?thesis by (simp add: demo_paid_session_def prod_eq_iff)
qed

end
