(* ===== verification/StripeWebhook.thy ===== *)
theory StripeWebhook
  imports StripeFulfilment
begin

text \<open>
  The Stripe webhook dispatcher: \<open>packages/billing/src/stripe-webhook.ts\<close>. An event is
  archived, routed, and its outcome settled on the archive row. The handlers it routes to are
  a record of dependencies, as in the source; each Prisma call on the archive may fail.
\<close>

section \<open>The archive\<close>

definition findEvent :: "string \<Rightarrow> billing_db \<Rightarrow> WebhookRow option" where
  "findEvent eventId s = find_row wh_stripeEventId eventId (archive s)"

text \<open>What the database does to the two archive calls of one attempt: \<open>None\<close> lets them through.\<close>

record archive_faults =
  fault_upsert :: "app_error option"
  fault_update :: "app_error option"

definition no_archive_faults :: archive_faults where
  "no_archive_faults = \<lparr>fault_upsert = None, fault_update = None\<rparr>"

definition receivedRow :: "StripeEvent \<Rightarrow> WebhookRow" where
  "receivedRow event =
     \<lparr>wh_stripeEventId = ev_id event, wh_type = ev_type event, wh_payload = Some event,
      wh_status = ''received'', wh_firstError = None, wh_attemptCount = 1, wh_lastError = None,
      wh_processedAt = None\<rparr>"

definition upsertEvent :: "app_error option \<Rightarrow> StripeEvent \<Rightarrow> WebhookRow billing_prog" where
  "upsertEvent fault event s =
     (case fault of
        Some e \<Rightarrow> (Inl e, s)
      | None \<Rightarrow>
          (case findEvent (ev_id event) s of
             None \<Rightarrow> (Inr (receivedRow event), s\<lparr>archive := archive s @ [receivedRow event]\<rparr>)
           | Some row \<Rightarrow>
               (Inr (row\<lparr>wh_attemptCount := wh_attemptCount row + 1\<rparr>),
                s\<lparr>archive := update_row wh_stripeEventId (ev_id event)
                     (\<lambda>r. r\<lparr>wh_attemptCount := wh_attemptCount r + 1\<rparr>) (archive s)\<rparr>)))"

definition updateEvent ::
  "app_error option \<Rightarrow> string \<Rightarrow> (WebhookRow \<Rightarrow> WebhookRow) \<Rightarrow> unit billing_prog" where
  "updateEvent fault eventId f s =
     (case fault of
        Some e \<Rightarrow> (Inl e, s)
      | None \<Rightarrow>
          (case findEvent eventId s of
             None \<Rightarrow> (Inl (OtherError ''P2025''), s)
           | Some _ \<Rightarrow> (Inr (), s\<lparr>archive := update_row wh_stripeEventId eventId f (archive s)\<rparr>)))"

section \<open>Routing\<close>

definition refundAndDisputeEventTypes :: "string list" where
  "refundAndDisputeEventTypes =
     [''refund.created'', ''charge.refunded'', ''charge.dispute.created'', ''charge.dispute.closed'']"

record StripeWebhookDeps =
  wd_fulfill :: "fulfilment_input \<Rightarrow> CreditCheckoutFulfilment billing_prog"
  wd_handleRefund :: "StripeEvent \<Rightarrow> webhook_status billing_prog"
  wd_handleDispute :: "freeze_notifier \<Rightarrow> StripeEvent \<Rightarrow> webhook_status billing_prog"
  wd_notifyDisputeFrozen :: freeze_notifier
  wd_now :: int

definition archiveStatusForFulfilment :: "CreditCheckoutFulfilment \<Rightarrow> webhook_status" where
  "archiveStatusForFulfilment outcome =
     (case outcome of
        FGranted _ \<Rightarrow> processed | FAlreadyGranted \<Rightarrow> processed | FNotPaid \<Rightarrow> processed
      | FNoPaymentIntent \<Rightarrow> processed
      | FUnknownPack \<Rightarrow> needs_admin | FAmountMismatch \<Rightarrow> needs_admin
      | FCurrencyMismatch \<Rightarrow> needs_admin | FForeignSession \<Rightarrow> needs_admin
      | FNeedsAdmin _ \<Rightarrow> needs_admin)"

definition dispatch :: "StripeWebhookDeps \<Rightarrow> StripeEvent \<Rightarrow> webhook_status billing_prog" where
  "dispatch deps event =
     (if ev_type event \<in> {''checkout.session.completed'', ''checkout.session.async_payment_succeeded''}
      then prog_bind (wd_fulfill deps \<lparr>fi_checkoutSessionId = ev_objectId event,
               fi_expectedOrganizationId = None, fi_stripeEventId = Some (ev_id event), fi_now = wd_now deps\<rparr>)
             (\<lambda>outcome. prog_return (archiveStatusForFulfilment outcome))
      else if ev_type event \<in> {''checkout.session.async_payment_failed'', ''checkout.session.expired''}
      then prog_return processed
      else if ev_type event \<in> {''charge.refunded'', ''refund.created''}
      then wd_handleRefund deps event
      else if ev_type event \<in> {''charge.dispute.created'', ''charge.dispute.closed''}
      then wd_handleDispute deps (wd_notifyDisputeFrozen deps) event
      else prog_return ignored)"

section \<open>Settling an attempt\<close>

definition status_text :: "webhook_status \<Rightarrow> string" where
  "status_text st = (case st of processed \<Rightarrow> ''processed'' | ignored \<Rightarrow> ''ignored'' | needs_admin \<Rightarrow> ''needs_admin'')"

definition settleStatus :: "string \<Rightarrow> string \<Rightarrow> string" where
  "settleStatus priorStatus computed =
     (if priorStatus \<noteq> ''needs_admin'' \<or> computed = ''needs_admin'' then computed else ''needs_admin'')"

definition recordFailure :: "string \<Rightarrow> WebhookRow \<Rightarrow> WebhookRow \<Rightarrow> WebhookRow" where
  "recordFailure message archived row =
     row\<lparr>wh_status := settleStatus (wh_status archived) ''failed'', wh_lastError := Some message,
         wh_firstError := (if wh_firstError archived = None then Some message else wh_firstError row)\<rparr>"

definition recordSettled :: "int \<Rightarrow> WebhookRow \<Rightarrow> string \<Rightarrow> WebhookRow \<Rightarrow> WebhookRow" where
  "recordSettled now archived computed row =
     (let status = settleStatus (wh_status archived) computed
      in if status \<noteq> computed then row\<lparr>wh_status := status\<rparr>
         else row\<lparr>wh_status := status, wh_lastError := None, wh_processedAt := Some now\<rparr>)"

text \<open>
  The part after the upsert, from the row the upsert answered. An error of the handler is
  rethrown whether or not it could be recorded; \<open>message\<close> is \<open>describeError\<close>.
\<close>

definition settleAttempt ::
  "(app_error \<Rightarrow> string) \<Rightarrow> archive_faults \<Rightarrow> StripeWebhookDeps \<Rightarrow> StripeEvent \<Rightarrow> WebhookRow \<Rightarrow>
   string billing_prog" where
  "settleAttempt message flt deps event archived =
     prog_bind (prog_try (dispatch deps event)) (\<lambda>outcome.
       case outcome of
         Inl error \<Rightarrow>
           prog_then
             (prog_catch (updateEvent (fault_update flt) (ev_id event)
                 (recordFailure (message error) archived)) (\<lambda>_. prog_return ()))
             (prog_throw error)
       | Inr computed \<Rightarrow>
           prog_then
             (updateEvent (fault_update flt) (ev_id event)
                (recordSettled (wd_now deps) archived (status_text computed)))
             (prog_return (settleStatus (wh_status archived) (status_text computed))))"

definition handleStripeWebhookEvent ::
  "(app_error \<Rightarrow> string) \<Rightarrow> archive_faults \<Rightarrow> StripeWebhookDeps \<Rightarrow> StripeEvent \<Rightarrow> string billing_prog" where
  "handleStripeWebhookEvent message flt deps event =
     prog_bind (upsertEvent (fault_upsert flt) event) (settleAttempt message flt deps event)"

section \<open>Reprocessing ignored events\<close>

definition REPROCESS_BATCH_LIMIT :: nat where
  "REPROCESS_BATCH_LIMIT = 100"

record StripeEventReprocessReport =
  rp_reprocessed :: nat
  rp_processed :: nat
  rp_needsAdmin :: nat
  rp_stillIgnored :: nat
  rp_failed :: nat

definition empty_report :: StripeEventReprocessReport where
  "empty_report = \<lparr>rp_reprocessed = 0, rp_processed = 0, rp_needsAdmin = 0, rp_stillIgnored = 0, rp_failed = 0\<rparr>"

definition countOutcome :: "app_error + string \<Rightarrow> StripeEventReprocessReport \<Rightarrow> StripeEventReprocessReport" where
  "countOutcome outcome report =
     (let report = report\<lparr>rp_reprocessed := rp_reprocessed report + 1\<rparr>
      in case outcome of
           Inl _ \<Rightarrow> report\<lparr>rp_failed := rp_failed report + 1\<rparr>
         | Inr status \<Rightarrow>
             if status = ''processed'' then report\<lparr>rp_processed := rp_processed report + 1\<rparr>
             else if status = ''needs_admin'' then report\<lparr>rp_needsAdmin := rp_needsAdmin report + 1\<rparr>
             else report\<lparr>rp_stillIgnored := rp_stillIgnored report + 1\<rparr>)"

text \<open>The faults may differ from one row to the next.\<close>

fun reprocessRows ::
  "(app_error \<Rightarrow> string) \<Rightarrow> (string \<Rightarrow> archive_faults) \<Rightarrow> StripeWebhookDeps \<Rightarrow> WebhookRow list \<Rightarrow>
   StripeEventReprocessReport \<Rightarrow> StripeEventReprocessReport billing_prog" where
  "reprocessRows message flt deps [] report = prog_return report"
| "reprocessRows message flt deps (row # rows) report =
     (case wh_payload row of
        Some event \<Rightarrow>
          if ev_id event \<noteq> wh_stripeEventId row
          then reprocessRows message flt deps rows (report\<lparr>rp_failed := rp_failed report + 1\<rparr>)
          else prog_bind (prog_try (handleStripeWebhookEvent message (flt (ev_id event)) deps event))
                 (\<lambda>outcome. reprocessRows message flt deps rows (countOutcome outcome report))
      | None \<Rightarrow> reprocessRows message flt deps rows (report\<lparr>rp_failed := rp_failed report + 1\<rparr>))"

definition reprocessIgnoredStripeEvents ::
  "(app_error \<Rightarrow> string) \<Rightarrow> (string \<Rightarrow> archive_faults) \<Rightarrow> StripeWebhookDeps \<Rightarrow> string list option \<Rightarrow>
   nat option \<Rightarrow> StripeEventReprocessReport billing_prog" where
  "reprocessIgnoredStripeEvents message flt deps types limit =
     (let types = (case types of None \<Rightarrow> refundAndDisputeEventTypes | Some ts \<Rightarrow> ts);
          limit = (case limit of None \<Rightarrow> REPROCESS_BATCH_LIMIT | Some n \<Rightarrow> n)
      in prog_bind (prog_get (\<lambda>s. take limit
             (filter (\<lambda>row. wh_status row = ''ignored'' \<and> wh_type row \<in> set types) (archive s))))
           (\<lambda>rows. reprocessRows message flt deps rows empty_report))"

section \<open>What a handler may do\<close>

text \<open>
  The contract between the dispatcher and its handlers: they run ledger transactions and
  leave the catalogue and the archive alone.
\<close>

locale webhook_handlers =
  fixes deps :: StripeWebhookDeps
  assumes fulfill_rel: "effects handler_rel (wd_fulfill deps input)"
    and refund_rel: "effects handler_rel (wd_handleRefund deps event)"
    and dispute_rel: "effects handler_rel (wd_handleDispute deps notify event)"
begin

lemma dispatch_rel: "effects handler_rel (dispatch deps event)"
  unfolding dispatch_def by (intro handler.structural fulfill_rel refund_rel dispute_rel)

lemma dispatch_run: "dispatch deps event s = (r, t) \<Longrightarrow> handler_rel s t"
  using effectsD [OF dispatch_rel] by blast

end

lemma record_key [simp]:
  "wh_stripeEventId (recordFailure msg a r) = wh_stripeEventId r"
  "wh_stripeEventId (recordSettled now a c r) = wh_stripeEventId r"
  by (simp_all add: recordFailure_def recordSettled_def Let_def)

lemma upsertEvent_run:
  assumes "upsertEvent None event s = (r, t)"
  obtains archived where "r = Inr archived" "findEvent (ev_id event) t = Some archived"
    "\<And>k. k \<noteq> ev_id event \<Longrightarrow> findEvent k t = findEvent k s"
    "archived = (case findEvent (ev_id event) s of None \<Rightarrow> receivedRow event
       | Some row \<Rightarrow> row\<lparr>wh_attemptCount := wh_attemptCount row + 1\<rparr>)"
    "ledger t = ledger s" "packs t = packs s"
proof (cases "findEvent (ev_id event) s")
  case None
  then have "r = Inr (receivedRow event)" "t = s\<lparr>archive := archive s @ [receivedRow event]\<rparr>"
    using assms by (simp_all add: upsertEvent_def)
  moreover have "findEvent k t = (if k = ev_id event then Some (receivedRow event) else findEvent k s)" for k
    using None calculation(2) by (auto simp: findEvent_def receivedRow_def find_row_append split: option.splits)
  ultimately show thesis using None by (intro that) simp_all
next
  case (Some row)
  let ?f = "\<lambda>r. r\<lparr>wh_attemptCount := wh_attemptCount r + 1\<rparr>"
  have "r = Inr (?f row)" "t = s\<lparr>archive := update_row wh_stripeEventId (ev_id event) ?f (archive s)\<rparr>"
    using assms Some by (simp_all add: upsertEvent_def)
  moreover have "findEvent k t = (if k = ev_id event then map_option ?f (findEvent k s) else findEvent k s)" for k
    using calculation(2) by (simp add: findEvent_def find_row_update)
  ultimately show thesis using Some by (intro that) simp_all
qed

lemma updateEvent_run:
  assumes "findEvent k s = Some row" and "\<And>r. wh_stripeEventId (f r) = wh_stripeEventId r"
  shows "updateEvent None k f s = (Inr (), s\<lparr>archive := update_row wh_stripeEventId k f (archive s)\<rparr>)"
    and "findEvent j (s\<lparr>archive := update_row wh_stripeEventId k f (archive s)\<rparr>) =
      (if j = k then Some (f row) else findEvent j s)"
  using assms by (simp_all add: updateEvent_def findEvent_def find_row_update)

text \<open>The row an attempt leaves, and what it answers.\<close>

definition settledRow ::
  "(app_error \<Rightarrow> string) \<Rightarrow> int \<Rightarrow> app_error + webhook_status \<Rightarrow> WebhookRow \<Rightarrow> WebhookRow" where
  "settledRow message now outcome archived =
     (case outcome of Inl e \<Rightarrow> recordFailure (message e) archived archived
      | Inr st \<Rightarrow> recordSettled now archived (status_text st) archived)"

definition attemptRow :: "StripeEvent \<Rightarrow> WebhookRow option \<Rightarrow> WebhookRow" where
  "attemptRow event before =
     (case before of None \<Rightarrow> receivedRow event
      | Some row \<Rightarrow> row\<lparr>wh_attemptCount := wh_attemptCount row + 1\<rparr>)"

context webhook_handlers
begin

lemma handle_run:
  assumes "handleStripeWebhookEvent message flt deps event s = (r, t)" and "fault_upsert flt = None"
  obtains outcome where
    "findEvent (ev_id event) t = Some
       ((if fault_update flt = None then settledRow message (wd_now deps) outcome else id)
          (attemptRow event (findEvent (ev_id event) s)))"
    "\<And>k. k \<noteq> ev_id event \<Longrightarrow> findEvent k t = findEvent k s"
    "r = (case outcome of Inl e \<Rightarrow> Inl e
        | Inr st \<Rightarrow> (case fault_update flt of Some e \<Rightarrow> Inl e
            | None \<Rightarrow> Inr (settleStatus (wh_status (attemptRow event (findEvent (ev_id event) s))) (status_text st))))"
    "handler_rel (s\<lparr>archive := archive t\<rparr>) t"
    "outcome = fst (dispatch deps event (snd (upsertEvent None event s)))"
    "ledger t = ledger (snd (dispatch deps event (snd (upsertEvent None event s))))"
proof -
  obtain r1 s1 where up: "upsertEvent None event s = (r1, s1)" by (metis surj_pair)
  from up obtain archived where a: "r1 = Inr archived" "findEvent (ev_id event) s1 = Some archived"
      "\<And>k. k \<noteq> ev_id event \<Longrightarrow> findEvent k s1 = findEvent k s"
      "archived = attemptRow event (findEvent (ev_id event) s)" "ledger s1 = ledger s" "packs s1 = packs s"
    unfolding attemptRow_def by (rule upsertEvent_run) blast
  obtain outcome s2 where d: "dispatch deps event s1 = (outcome, s2)" by (metis surj_pair)
  then have rel: "handler_rel s1 s2" by (rule dispatch_run)
  then have same: "findEvent k s2 = findEvent k s1" for k by (simp add: findEvent_def handler_rel_def)
  have found: "findEvent (ev_id event) s2 = Some archived" using same a(2) by simp
  note failed = updateEvent_run [OF found, of "recordFailure msg archived" for msg, OF record_key(1)]
  note settled = updateEvent_run [OF found, of "recordSettled now archived c" for now c, OF record_key(2)]
  have run: "settleAttempt message flt deps event archived s1 = (r, t)"
    using assms up a(1) by (simp add: handleStripeWebhookEvent_def prog_bind_def)
  have frame: "handler_rel (s\<lparr>archive := A\<rparr>) (s2\<lparr>archive := A\<rparr>)" for A
    using rel a(5,6) by (simp add: handler_rel_def ledger_moves_def)
  show thesis
  proof (cases outcome)
    case (Inl e)
    then show thesis
      using run d up frame [of "archive s2"] frame same a failed
      by (intro that [of outcome]; cases "fault_update flt")
        (auto simp: settleAttempt_def prog_defs settledRow_def updateEvent_def [of "Some x" for x])
  next
    case (Inr st)
    then show thesis
      using run d up frame [of "archive s2"] frame same a settled
      by (intro that [of outcome]; cases "fault_update flt")
        (auto simp: settleAttempt_def prog_defs settledRow_def updateEvent_def [of "Some x" for x])
  qed
qed

end

section \<open>The handlers of this repository\<close>

definition defaultDeps ::
  "session_retrieve \<Rightarrow> StripeRefundClient \<Rightarrow> faults \<times> faults \<Rightarrow> faults \<Rightarrow> fresh_ids \<Rightarrow> freeze_notifier \<Rightarrow> int \<Rightarrow>
   StripeWebhookDeps" where
  "defaultDeps retrieve stripe grant_flt flt ids notify now =
     \<lparr>wd_fulfill = fulfillCreditCheckout retrieve grant_flt ids,
      wd_handleRefund = handleRefundEvent stripe flt,
      wd_handleDispute = (\<lambda>notify. handleDisputeEvent stripe flt notify now),
      wd_notifyDisputeFrozen = notify, wd_now = now\<rparr>"

interpretation default: webhook_handlers "defaultDeps retrieve stripe grant_flt flt ids notify now"
  by unfold_locales
    (simp_all add: defaultDeps_def fulfillCreditCheckout_rel handleRefundEvent_rel handleDisputeEvent_rel)

lemma default_now [simp]: "wd_now (defaultDeps retrieve stripe grant_flt flt ids notify now) = now"
  by (simp add: defaultDeps_def)

lemma attemptRow_status [simp]:
  "wh_status (attemptRow event before) = (case before of None \<Rightarrow> ''received'' | Some row \<Rightarrow> wh_status row)"
  "wh_firstError (attemptRow event before) = (case before of None \<Rightarrow> None | Some row \<Rightarrow> wh_firstError row)"
  "wh_lastError (attemptRow event before) = (case before of None \<Rightarrow> None | Some row \<Rightarrow> wh_lastError row)"
  "wh_attemptCount (attemptRow event before) = (case before of None \<Rightarrow> 1 | Some row \<Rightarrow> wh_attemptCount row + 1)"
  "wh_type (attemptRow event before) = (case before of None \<Rightarrow> ev_type event | Some row \<Rightarrow> wh_type row)"
  "wh_payload (attemptRow event before) = (case before of None \<Rightarrow> Some event | Some row \<Rightarrow> wh_payload row)"
  by (simp_all add: attemptRow_def receivedRow_def split: option.split)

lemma settledRow_fields [simp]:
  "wh_attemptCount (settledRow message now outcome row) = wh_attemptCount row"
  "wh_type (settledRow message now outcome row) = wh_type row"
  "wh_payload (settledRow message now outcome row) = wh_payload row"
  "wh_status (settledRow message now outcome row) = settleStatus (wh_status row)
     (case outcome of Inl _ \<Rightarrow> ''failed'' | Inr st \<Rightarrow> status_text st)"
  "wh_firstError (settledRow message now outcome row) = (case wh_firstError row of Some e \<Rightarrow> Some e
     | None \<Rightarrow> (case outcome of Inl e \<Rightarrow> Some (message e) | Inr _ \<Rightarrow> None))"
  by (simp_all add: settledRow_def recordFailure_def recordSettled_def Let_def split: sum.split option.split)

lemma settleStatus_parked [simp]: "settleStatus ''needs_admin'' c = ''needs_admin''"
  by (simp add: settleStatus_def)

text \<open>
  C10: one delivery, one archived attempt. Whatever the event, the Stripe API and the database
  do, once the upsert went through the event has exactly the row it had with one attempt more,
  or a new one with one attempt; its type and payload are those of its first delivery; its
  first error is never overwritten; and the row of no other event changed. What the handlers
  did to the ledger is a sequence of ledger transactions.
\<close>
theorem webhook_archives_once:
  assumes "handleStripeWebhookEvent message flt (defaultDeps retrieve stripe gflt lflt ids notify now) event s = (r, s')"
    and "fault_upsert flt = None"
  shows "\<exists>row. findEvent (ev_id event) s' = Some row \<and>
    (case findEvent (ev_id event) s of
       None \<Rightarrow> wh_attemptCount row = 1 \<and> wh_type row = ev_type event \<and> wh_payload row = Some event
     | Some old \<Rightarrow> wh_attemptCount row = wh_attemptCount old + 1 \<and> wh_type row = wh_type old \<and>
         wh_payload row = wh_payload old \<and> (wh_firstError old \<noteq> None \<longrightarrow> wh_firstError row = wh_firstError old)) \<and>
    (\<forall>k. k \<noteq> ev_id event \<longrightarrow> findEvent k s' = findEvent k s) \<and> packs s' = packs s \<and> ledger_moves s s'"
proof (rule default.handle_run [OF assms])
  fix outcome
  assume row: "findEvent (ev_id event) s' = Some
       ((if fault_update flt = None then settledRow message (wd_now (defaultDeps retrieve stripe gflt lflt ids notify now)) outcome else id)
          (attemptRow event (findEvent (ev_id event) s)))"
    and rest: "\<And>k. k \<noteq> ev_id event \<Longrightarrow> findEvent k s' = findEvent k s"
      "handler_rel (s\<lparr>archive := archive s'\<rparr>) s'"
  from rest(2) have "packs s' = packs s" "ledger_moves s s'" by (simp_all add: handler_rel_def ledger_moves_def)
  then show ?thesis using row rest(1) by (auto split: option.split)
qed

definition demo_deps :: StripeWebhookDeps where
  "demo_deps = defaultDeps demo_session demo_stripe (no_faults, no_faults) no_faults demo_ids None 9"

definition demo_expired :: StripeEvent where
  "demo_expired = \<lparr>ev_id = ''evt_x'', ev_type = ''checkout.session.expired'', ev_objectId = ''cs_1''\<rparr>"

lemma demo_delivery:
  "handleStripeWebhookEvent (\<lambda>_. ''down'') no_archive_faults demo_deps demo_expired demo_world =
     (Inr ''processed'', demo_world\<lparr>archive := [(receivedRow demo_expired)\<lparr>wh_status := ''processed'', wh_processedAt := Some 9\<rparr>]\<rparr>)"
  by (simp add: handleStripeWebhookEvent_def settleAttempt_def dispatch_def demo_expired_def demo_world_def
      demo_deps_def defaultDeps_def upsertEvent_def updateEvent_def findEvent_def no_archive_faults_def prog_defs
      receivedRow_def recordSettled_def settleStatus_def status_text_def update_row_def)

theorem webhook_archives_once_witness:
  "\<exists>row. findEvent ''evt_x'' (demo_world\<lparr>archive := [(receivedRow demo_expired)\<lparr>wh_status := ''processed'',
     wh_processedAt := Some 9\<rparr>]\<rparr>) = Some row \<and> wh_attemptCount row = 1 \<and> wh_type row = ''checkout.session.expired''"
proof -
  have "findEvent ''evt_x'' demo_world = None" "ev_id demo_expired = ''evt_x''" "ev_type demo_expired = ''checkout.session.expired''"
    by (simp_all add: findEvent_def demo_world_def demo_expired_def)
  with webhook_archives_once [OF demo_delivery [unfolded demo_deps_def]] show ?thesis
    by (auto simp: no_archive_faults_def)
qed

text \<open>
  a handler's error is never an outcome. When routing fails, the call throws that very
  error, even where recording it failed too; what the handler had done to the ledger stands;
  and if the record could be written, the row names the error as its last one, its first one
  unless an earlier attempt had failed, and is \<open>failed\<close> unless an operator already owns it.
\<close>
theorem handler_error_is_rethrown:
  assumes "handleStripeWebhookEvent message flt (defaultDeps retrieve stripe gflt lflt ids notify now) event s = (r, s')"
    and "fault_upsert flt = None"
    and "dispatch (defaultDeps retrieve stripe gflt lflt ids notify now) event
      (snd (upsertEvent None event s)) = (Inl e, s2)"
  shows "r = Inl e \<and> ledger s' = ledger s2 \<and>
    (fault_update flt = None \<longrightarrow> (\<exists>row. findEvent (ev_id event) s' = Some row \<and>
       wh_lastError row = Some (message e) \<and>
       wh_firstError row = (case Option.bind (findEvent (ev_id event) s) wh_firstError of
          Some earlier \<Rightarrow> Some earlier | None \<Rightarrow> Some (message e)) \<and>
       wh_status row = (if map_option wh_status (findEvent (ev_id event) s) = Some ''needs_admin''
          then ''needs_admin'' else ''failed'')))"
proof (rule default.handle_run [OF assms(1,2)])
  fix outcome
  assume row: "findEvent (ev_id event) s' = Some
       ((if fault_update flt = None then settledRow message (wd_now (defaultDeps retrieve stripe gflt lflt ids notify now)) outcome else id)
          (attemptRow event (findEvent (ev_id event) s)))"
    and r: "r = (case outcome of Inl e \<Rightarrow> Inl e
        | Inr st \<Rightarrow> (case fault_update flt of Some e \<Rightarrow> Inl e
            | None \<Rightarrow> Inr (settleStatus (wh_status (attemptRow event (findEvent (ev_id event) s))) (status_text st))))"
    and d: "outcome = fst (dispatch (defaultDeps retrieve stripe gflt lflt ids notify now) event (snd (upsertEvent None event s)))"
      "ledger s' = ledger (snd (dispatch (defaultDeps retrieve stripe gflt lflt ids notify now) event (snd (upsertEvent None event s))))"
  have "wh_lastError (settledRow message n (Inl e) a) = Some (message e)" for n a
    by (simp add: settledRow_def recordFailure_def)
  then show ?thesis using row r d assms(3) by (auto simp: settleStatus_def split: option.split)
qed

definition demo_down :: session_retrieve where
  "demo_down i = Inl (StripeApi ''timeout'')"

definition demo_completed :: StripeEvent where
  "demo_completed = \<lparr>ev_id = ''evt_c'', ev_type = ''checkout.session.completed'', ev_objectId = ''cs_1''\<rparr>"

theorem handler_error_is_rethrown_witness:
  "fst (handleStripeWebhookEvent (\<lambda>_. ''timeout'') \<lparr>fault_upsert = None, fault_update = Some (OtherError ''db'')\<rparr>
     (defaultDeps demo_down demo_stripe (no_faults, no_faults) no_faults demo_ids None 9) demo_completed demo_world)
   = Inl (StripeApi ''timeout'')"
proof -
  have "dispatch (defaultDeps demo_down demo_stripe (no_faults, no_faults) no_faults demo_ids None 9) demo_completed s
      = (Inl (StripeApi ''timeout''), s)" for s
    by (simp add: dispatch_def defaultDeps_def demo_completed_def demo_down_def fulfillCreditCheckout_def prog_defs)
  from handler_error_is_rethrown [OF surjective_pairing _ this,
      of "\<lparr>fault_upsert = None, fault_update = Some (OtherError ''db'')\<rparr>" "\<lambda>_. ''timeout''"]
  show ?thesis by simp
qed

section \<open>Histories of deliveries\<close>

text \<open>One delivery of any event, at any time, with any faults and any behaviour of Stripe.\<close>

inductive webhook_step :: "billing_db \<Rightarrow> billing_db \<Rightarrow> bool" where
  "handleStripeWebhookEvent message flt (defaultDeps retrieve stripe gflt lflt ids notify now) event s = (r, s')
     \<Longrightarrow> webhook_step s s'"

inductive_cases webhook_stepE: "webhook_step s s'"

definition row_evolves :: "WebhookRow \<Rightarrow> WebhookRow \<Rightarrow> bool" where
  "row_evolves old row \<longleftrightarrow> wh_type row = wh_type old \<and> wh_payload row = wh_payload old \<and>
     wh_attemptCount old \<le> wh_attemptCount row \<and>
     (wh_firstError old \<noteq> None \<longrightarrow> wh_firstError row = wh_firstError old) \<and>
     (wh_status old = ''needs_admin'' \<longrightarrow> wh_status row = ''needs_admin'')"

lemma row_evolves_trans: "row_evolves x y \<Longrightarrow> row_evolves y z \<Longrightarrow> row_evolves x z"
  by (auto simp: row_evolves_def)

lemma webhook_step_row:
  assumes "webhook_step s s'" and "findEvent k s = Some old"
  shows "\<exists>row. findEvent k s' = Some row \<and> row_evolves old row"
  using assms(1)
proof (rule webhook_stepE)
  fix message flt retrieve stripe gflt lflt ids notify now event r
  assume run: "handleStripeWebhookEvent message flt (defaultDeps retrieve stripe gflt lflt ids notify now) event s = (r, s')"
  show ?thesis
  proof (cases "fault_upsert flt")
    case (Some e)
    then have "s' = s" using run by (simp add: handleStripeWebhookEvent_def upsertEvent_def prog_bind_def)
    then show ?thesis using assms(2) by (simp add: row_evolves_def)
  next
    case None
    show ?thesis
    proof (cases "k = ev_id event")
      case True
      show ?thesis
        by (rule default.handle_run [OF run None])
          (use True assms(2) in \<open>auto simp: row_evolves_def split: option.splits\<close>)
    next
      case False
      have "findEvent k s' = findEvent k s" by (rule default.handle_run [OF run None]) (use False in blast)
      then show ?thesis using assms(2) by (simp add: row_evolves_def)
    qed
  qed
qed

text \<open>
  the archive never forgets. Through any later deliveries of any events, an archived event
  keeps its type and payload, its attempts only grow, its first error is never overwritten,
  and once it is parked for an operator no delivery takes it out of \<open>needs_admin\<close>.
\<close>
theorem archive_keeps_history:
  assumes "webhook_step\<^sup>*\<^sup>* s s'" and "findEvent k s = Some old"
  shows "\<exists>row. findEvent k s' = Some row \<and> wh_type row = wh_type old \<and> wh_payload row = wh_payload old \<and>
    wh_attemptCount old \<le> wh_attemptCount row \<and>
    (wh_firstError old \<noteq> None \<longrightarrow> wh_firstError row = wh_firstError old) \<and>
    (wh_status old = ''needs_admin'' \<longrightarrow> wh_status row = ''needs_admin'')"
proof -
  from assms(1) have "\<exists>row. findEvent k s' = Some row \<and> row_evolves old row"
  proof (induction rule: rtranclp_induct)
    case base
    then show ?case using assms(2) by (simp add: row_evolves_def)
  next
    case (step t u)
    then show ?case using webhook_step_row row_evolves_trans by blast
  qed
  then show ?thesis by (auto simp: row_evolves_def)
qed

definition demo_parked :: billing_db where
  "demo_parked = demo_world\<lparr>archive := [(receivedRow demo_expired)\<lparr>wh_status := ''needs_admin''\<rparr>]\<rparr>"

theorem archive_keeps_history_witness:
  "\<exists>row. findEvent ''evt_x'' (snd (handleStripeWebhookEvent (\<lambda>_. ''x'') no_archive_faults demo_deps demo_expired demo_parked))
     = Some row \<and> wh_status row = ''needs_admin''"
proof -
  have step: "webhook_step\<^sup>*\<^sup>* demo_parked
      (snd (handleStripeWebhookEvent (\<lambda>_. ''x'') no_archive_faults demo_deps demo_expired demo_parked))"
    unfolding demo_deps_def by (intro r_into_rtranclp webhook_step.intros) (rule surjective_pairing)
  have "findEvent ''evt_x'' demo_parked = Some ((receivedRow demo_expired)\<lparr>wh_status := ''needs_admin''\<rparr>)"
    by (simp add: demo_parked_def findEvent_def receivedRow_def demo_expired_def)
  from archive_keeps_history [OF step this] show ?thesis by auto
qed

definition demo_free :: session_retrieve where
  "demo_free i = Inr ((demo_paid_session i)\<lparr>cs_payment_status := ''no_payment_required''\<rparr>)"

definition demo_unpaid :: session_retrieve where
  "demo_unpaid i = Inr ((demo_paid_session i)\<lparr>cs_payment_status := ''unpaid''\<rparr>)"

definition demo_attempt :: "session_retrieve \<Rightarrow> WebhookRow \<Rightarrow> string billing_prog" where
  "demo_attempt retrieve = settleAttempt (\<lambda>_. []) no_archive_faults
     (defaultDeps retrieve demo_stripe (no_faults, no_faults) no_faults demo_ids None 9) demo_completed"

definition demo_row :: "int \<Rightarrow> string \<Rightarrow> int option \<Rightarrow> WebhookRow" where
  "demo_row n st done_at = (receivedRow demo_completed)\<lparr>wh_attemptCount := n, wh_status := st, wh_processedAt := done_at\<rparr>"

definition demo_archive :: "WebhookRow list \<Rightarrow> billing_db" where
  "demo_archive rows = demo_world\<lparr>archive := rows\<rparr>"

lemma demo_dispatch:
  "dispatch (defaultDeps demo_free demo_stripe (no_faults, no_faults) no_faults demo_ids None 9) demo_completed s
     = (Inr needs_admin, s)"
  "dispatch (defaultDeps demo_unpaid demo_stripe (no_faults, no_faults) no_faults demo_ids None 9) demo_completed s
     = (Inr processed, s)"
  by (simp_all add: dispatch_def defaultDeps_def demo_completed_def fulfillCreditCheckout_def prog_defs
      sessionVerdict_def archiveStatusForFulfilment_def demo_free_def demo_unpaid_def)

lemma demo_upsert:
  "upsertEvent None demo_completed (demo_archive []) = (Inr (demo_row 1 ''received'' None), demo_archive [demo_row 1 ''received'' None])"
  "upsertEvent None demo_completed (demo_archive [demo_row 1 ''received'' None]) =
     (Inr (demo_row 2 ''received'' None), demo_archive [demo_row 2 ''received'' None])"
  by (simp_all add: upsertEvent_def findEvent_def demo_archive_def demo_row_def receivedRow_def update_row_def)

lemma demo_settle:
  "demo_attempt demo_free (demo_row 1 ''received'' None) (demo_archive [demo_row 2 ''received'' None]) =
     (Inr ''needs_admin'', demo_archive [demo_row 2 ''needs_admin'' (Some 9)])"
  "demo_attempt demo_unpaid (demo_row 2 ''received'' None) (demo_archive [demo_row 2 ''needs_admin'' (Some 9)]) =
     (Inr ''processed'', demo_archive [demo_row 2 ''processed'' (Some 9)])"
  by (simp_all add: demo_attempt_def settleAttempt_def demo_dispatch prog_bind_def prog_try_def prog_then_def
      prog_return_def updateEvent_def findEvent_def demo_archive_def demo_row_def receivedRow_def update_row_def
      no_archive_faults_def recordSettled_def settleStatus_def status_text_def)


section \<open>The backfill\<close>

definition unreadable :: "WebhookRow \<Rightarrow> bool" where
  "unreadable row \<longleftrightarrow> map_option ev_id (wh_payload row) \<noteq> Some (wh_stripeEventId row)"

lemma countOutcome_total:
  "let c = countOutcome outcome report in
     rp_processed c + rp_needsAdmin c + rp_stillIgnored c + rp_failed c =
       Suc (rp_processed report + rp_needsAdmin report + rp_stillIgnored report + rp_failed report) \<and>
     rp_reprocessed c = Suc (rp_reprocessed report)"
  by (simp add: countOutcome_def Let_def split: sum.split)

lemma reprocessRows_report:
  "\<exists>out s'. reprocessRows message flt deps rows report s = (Inr out, s') \<and>
     rp_processed out + rp_needsAdmin out + rp_stillIgnored out + rp_failed out =
       rp_processed report + rp_needsAdmin report + rp_stillIgnored report + rp_failed report + length rows \<and>
     rp_reprocessed out = rp_reprocessed report + length (filter (\<lambda>r. \<not> unreadable r) rows)"
proof (induction rows arbitrary: report s)
  case Nil
  then show ?case by (simp add: prog_return_def)
next
  case (Cons row rows)
  show ?case
  proof (cases "unreadable row")
    case True
    then show ?thesis
      using Cons.IH [of "report\<lparr>rp_failed := rp_failed report + 1\<rparr>" s]
      by (auto simp: unreadable_def split: option.splits)
  next
    case False
    then obtain event where event: "wh_payload row = Some event" "ev_id event = wh_stripeEventId row"
      by (auto simp: unreadable_def)
    obtain r t where run: "handleStripeWebhookEvent message (flt (ev_id event)) deps event s = (r, t)"
      by (metis surj_pair)
    show ?thesis
      using Cons.IH [of "countOutcome r report" t] event run False countOutcome_total [of r report]
      by (simp add: prog_bind_def prog_try_def Let_def)
  qed
qed

text \<open>
  the backfill counts every row and loses none. It never throws, whatever single rows do;
  its four outcome counters add up to the number of rows it selected, at most the batch limit;
  and it reprocessed exactly those whose archived payload is the event the row is about.
\<close>
theorem reprocess_report_adds_up:
  "\<exists>report s' rows.
     reprocessIgnoredStripeEvents message flt deps types limit s = (Inr report, s') \<and>
     rows = take (case limit of None \<Rightarrow> REPROCESS_BATCH_LIMIT | Some n \<Rightarrow> n)
       (filter (\<lambda>row. wh_status row = ''ignored'' \<and>
          wh_type row \<in> set (case types of None \<Rightarrow> refundAndDisputeEventTypes | Some ts \<Rightarrow> ts)) (archive s)) \<and>
     rp_processed report + rp_needsAdmin report + rp_stillIgnored report + rp_failed report = length rows \<and>
     rp_reprocessed report = length (filter (\<lambda>row. map_option ev_id (wh_payload row) = Some (wh_stripeEventId row)) rows)"
proof -
  let ?rows = "take (case limit of None \<Rightarrow> REPROCESS_BATCH_LIMIT | Some n \<Rightarrow> n)
     (filter (\<lambda>row. wh_status row = ''ignored'' \<and>
        wh_type row \<in> set (case types of None \<Rightarrow> refundAndDisputeEventTypes | Some ts \<Rightarrow> ts)) (archive s))"
  have "reprocessIgnoredStripeEvents message flt deps types limit s = reprocessRows message flt deps ?rows empty_report s"
    by (simp add: reprocessIgnoredStripeEvents_def prog_bind_def prog_get_def Let_def)
  then show ?thesis
    using reprocessRows_report [of message flt deps ?rows empty_report s]
    by (simp add: empty_report_def unreadable_def)
qed

end
