(* ===== verification/JsDate.thy ===== *)
theory JsDate
  imports JsNumber
begin

text \<open>
  The UTC calendar of JavaScript dates, as the ECMAScript standard defines it: a date is a
  number of milliseconds, its day number is the quotient by the length of a day, and the year
  of a day is found by an estimate that is off by at most one. Only the UTC parts are here;
  the program never reads local time.
\<close>

definition MS_PER_DAY :: int where
  "MS_PER_DAY = 86400000"

definition dayFromYear :: "int \<Rightarrow> int" where
  "dayFromYear y = 365 * (y - 1970) + (y - 1969) div 4 - (y - 1901) div 100 + (y - 1601) div 400"

definition is_leap :: "int \<Rightarrow> bool" where
  "is_leap y \<longleftrightarrow> y mod 4 = 0 \<and> (y mod 100 \<noteq> 0 \<or> y mod 400 = 0)"

definition yearFromDay :: "int \<Rightarrow> int" where
  "yearFromDay d =
     (let y = 1970 + (400 * d) div 146097
      in if d < dayFromYear y then y - 1 else if dayFromYear (y + 1) \<le> d then y + 1 else y)"

definition month_starts :: "bool \<Rightarrow> int list" where
  "month_starts leap =
     (let k = (if leap then 1 else 0)
      in [0, 31, 59 + k, 90 + k, 120 + k, 151 + k, 181 + k, 212 + k, 243 + k, 273 + k, 304 + k, 334 + k])"

text \<open>The last month (from zero) that starts on or before a day of the year.\<close>

definition month_of_day :: "bool \<Rightarrow> int \<Rightarrow> nat" where
  "month_of_day leap d = length (filter (\<lambda>s. s \<le> d) (month_starts leap)) - 1"

definition getUTCFullYear :: "int \<Rightarrow> int" where
  "getUTCFullYear t = yearFromDay (t div MS_PER_DAY)"

definition dayWithinYear :: "int \<Rightarrow> int" where
  "dayWithinYear t = t div MS_PER_DAY - dayFromYear (getUTCFullYear t)"

definition getUTCMonth :: "int \<Rightarrow> int" where
  "getUTCMonth t = int (month_of_day (is_leap (getUTCFullYear t)) (dayWithinYear t))"

definition getUTCDate :: "int \<Rightarrow> int" where
  "getUTCDate t = dayWithinYear t - month_starts (is_leap (getUTCFullYear t)) ! nat (getUTCMonth t) + 1"

text \<open>\<open>Date.UTC(year, month, date)\<close>: a month past the year's end runs into the next year.\<close>

definition Date_UTC :: "int \<Rightarrow> int \<Rightarrow> int \<Rightarrow> int" where
  "Date_UTC year month date =
     (let y = year + month div 12
      in (dayFromYear y + month_starts (is_leap y) ! nat (month mod 12) + date - 1) * MS_PER_DAY)"

definition pad :: "nat \<Rightarrow> string \<Rightarrow> string" where
  "pad n s = replicate (n - length s) (CHR ''0'') @ s"

text \<open>The date part of \<open>toISOString()\<close>, before the \<open>T\<close>.\<close>

definition iso_date :: "int \<Rightarrow> string" where
  "iso_date t =
     (let y = getUTCFullYear t;
          year = (if 0 \<le> y \<and> y \<le> 9999 then pad 4 (js_String y)
                  else (if y < 0 then CHR ''-'' else CHR ''+'') # pad 6 (js_String \<bar>y\<bar>))
      in year @ ''-'' @ pad 2 (js_String (getUTCMonth t + 1)) @ ''-'' @ pad 2 (js_String (getUTCDate t)))"

section \<open>The calendar is consistent\<close>

lemma div_bounds: "0 < c \<Longrightarrow> c * (x div c) \<le> x \<and> x < c * (x div c) + c" for c x :: int
  using mult_div_mod_eq [of c x] pos_mod_sign [of c x] pos_mod_bound [of c x] by linarith

text \<open>The average length of a year is 146097/400 days, and no year start strays two days from it.\<close>

lemma dayFromYear_near:
  "146097 * k - 506 \<le> 400 * dayFromYear (1970 + k) \<and> 400 * dayFromYear (1970 + k) \<le> 146097 * k + 589"
  using div_bounds [of 4 "k + 1"] div_bounds [of 100 "k + 69"] div_bounds [of 400 "k + 369"]
  by (simp add: dayFromYear_def algebra_simps)

lemma yearFromDay_bounds: "dayFromYear (yearFromDay d) \<le> d \<and> d < dayFromYear (yearFromDay d + 1)"
proof -
  define n where "n = (400 * d) div 146097"
  have n: "146097 * n \<le> 400 * d" "400 * d < 146097 * n + 146097"
    using div_bounds [of 146097 "400 * d"] by (simp_all add: n_def)
  have low: "dayFromYear (1970 + n - 1) \<le> d" using n(1) dayFromYear_near [of "n - 1"] by simp
  have high: "d < dayFromYear (1970 + n + 2)" using n(2) dayFromYear_near [of "n + 2"] by (simp add: add.assoc)
  show ?thesis
    using low high by (auto simp: yearFromDay_def n_def [symmetric] Let_def add.commute)
qed

lemma div_next: "0 < c \<Longrightarrow> (x + 1) div c = x div c + (if (x + 1) mod c = 0 then 1 else 0)" for c x :: int
proof -
  assume c: "0 < c"
  have x: "x = c * (x div c) + x mod c" "0 \<le> x mod c" "x mod c < c" using c by simp_all
  show ?thesis
  proof (cases "x mod c + 1 = c")
    case True
    then have "x + 1 = c * (x div c) + c" using x(1) by linarith
    then have "x + 1 = c * (x div c + 1) + 0" by (simp add: distrib_left)
    then show ?thesis using c int_div_pos_eq [of "x + 1" c "x div c + 1" 0] int_mod_pos_eq [of "x + 1" c "x div c + 1" 0] by simp
  next
    case False
    then have "x + 1 = c * (x div c) + (x mod c + 1)" "x mod c + 1 < c" using x by simp_all
    then show ?thesis
      using int_div_pos_eq [of "x + 1" c "x div c" "x mod c + 1"] int_mod_pos_eq [of "x + 1" c "x div c" "x mod c + 1"] x(2) by simp
  qed
qed

lemma year_length: "dayFromYear (y + 1) = dayFromYear y + (if is_leap y then 366 else 365)"
proof -
  have shift: "(y - k) mod c = 0 \<longleftrightarrow> y mod c = 0" if "c dvd k" for c k :: int
    using that by (simp add: mod_eq_0_iff_dvd dvd_diff_left_iff)
  have mods: "(y - 1969 + 1) mod 4 = 0 \<longleftrightarrow> y mod 4 = 0" "(y - 1901 + 1) mod 100 = 0 \<longleftrightarrow> y mod 100 = 0"
    "(y - 1601 + 1) mod 400 = 0 \<longleftrightarrow> y mod 400 = 0"
    using shift [of 4 1968] shift [of 100 1900] shift [of 400 1600] by simp_all
  have coarse: "b dvd y" if "b dvd a" and "a dvd y" for a b :: int
    using that by (rule dvd_trans)
  have implied: "y mod 100 = 0 \<Longrightarrow> y mod 4 = 0" "y mod 400 = 0 \<Longrightarrow> y mod 100 = 0"
    using coarse [of 4 100] coarse [of 100 400] by (simp_all add: mod_eq_0_iff_dvd)
  obtain a b c where abc: "(y - 1969) div 4 = a" "(y - 1901) div 100 = b" "(y - 1601) div 400 = c"
    by blast
  obtain P Q R where pqr: "(y mod 4 = 0) = P" "(y mod 100 = 0) = Q" "(y mod 400 = 0) = R" by blast
  have "y + 1 - 1969 = y - 1969 + 1" "y + 1 - 1901 = y - 1901 + 1" "y + 1 - 1601 = y - 1601 + 1" by simp_all
  then have "dayFromYear (y + 1) = 365 * (y + 1 - 1970) + (a + (if P then 1 else 0)) - (b + (if Q then 1 else 0))
      + (c + (if R then 1 else 0))"
    by (simp only: dayFromYear_def div_next [of 4 "y - 1969", OF zero_less_numeral]
        div_next [of 100 "y - 1901", OF zero_less_numeral] div_next [of 400 "y - 1601", OF zero_less_numeral] mods abc pqr)
  moreover have "dayFromYear y = 365 * (y - 1970) + a - b + c" "is_leap y = (P \<and> (\<not> Q \<or> R))"
    by (simp_all only: dayFromYear_def is_leap_def abc pqr) 
  moreover have "Q \<Longrightarrow> P" "R \<Longrightarrow> Q" using implied by (simp_all only: pqr)
  ultimately show ?thesis by - (cases P; cases Q; cases R; simp)
qed

lemma month_bounds:
  assumes "0 \<le> d" and "d < (if leap then 366 else 365)"
  shows "month_of_day leap d < 12 \<and> month_starts leap ! month_of_day leap d \<le> d \<and>
    (if month_of_day leap d = 11 then True else d < month_starts leap ! (month_of_day leap d + 1))"
  using assms by (cases leap) (auto simp: month_of_day_def month_starts_def nth_Cons')

text \<open>An instant lies in the month that its UTC fields name.\<close>

lemma utc_month_contains:
  "Date_UTC (getUTCFullYear t) (getUTCMonth t) 1 \<le> t \<and> t < Date_UTC (getUTCFullYear t) (getUTCMonth t + 1) 1"
proof -
  let ?y = "getUTCFullYear t" and ?d = "t div MS_PER_DAY"
  let ?m = "month_of_day (is_leap ?y) (dayWithinYear t)"
  have day: "?d * MS_PER_DAY \<le> t" "t < (?d + 1) * MS_PER_DAY"
    by (simp_all add: MS_PER_DAY_def minus_mod_eq_div_mult [symmetric])
  have "dayFromYear ?y \<le> ?d" "?d < dayFromYear (?y + 1)"
    using yearFromDay_bounds [of ?d] by (simp_all add: getUTCFullYear_def)
  then have within: "0 \<le> dayWithinYear t" "dayWithinYear t < (if is_leap ?y then 366 else 365)"
    by (simp_all add: dayWithinYear_def year_length)
  note m = month_bounds [OF within]
  have d: "?d = dayFromYear ?y + dayWithinYear t" by (simp add: dayWithinYear_def)
  have first: "Date_UTC ?y (getUTCMonth t) 1 = (dayFromYear ?y + month_starts (is_leap ?y) ! ?m) * MS_PER_DAY"
    using m by (simp add: Date_UTC_def getUTCMonth_def Let_def)
  have next_month: "?d < Date_UTC ?y (getUTCMonth t + 1) 1 div MS_PER_DAY \<and>
      Date_UTC ?y (getUTCMonth t + 1) 1 mod MS_PER_DAY = 0"
  proof (cases "?m = 11")
    case True
    then have "Date_UTC ?y (getUTCMonth t + 1) 1 = dayFromYear (?y + 1) * MS_PER_DAY"
      by (simp add: Date_UTC_def getUTCMonth_def Let_def month_starts_def)
    then show ?thesis using within d by (simp add: MS_PER_DAY_def year_length)
  next
    case False
    then have "Date_UTC ?y (getUTCMonth t + 1) 1 = (dayFromYear ?y + month_starts (is_leap ?y) ! (?m + 1)) * MS_PER_DAY"
      using m by (simp add: Date_UTC_def getUTCMonth_def Let_def nat_add_distrib)
    then show ?thesis using False m d by (simp add: MS_PER_DAY_def)
  qed
  have "Date_UTC ?y (getUTCMonth t) 1 \<le> ?d * MS_PER_DAY"
    using m d by (simp add: first MS_PER_DAY_def)
  moreover have "(?d + 1) * MS_PER_DAY \<le> Date_UTC ?y (getUTCMonth t + 1) 1"
    using next_month by (auto simp: MS_PER_DAY_def)
  ultimately show ?thesis using day by linarith
qed

end
