(* ===== verification/StripePurchase.thy ===== *)
theory StripePurchase
  imports StripeFulfilment JsDate
begin

text \<open>
  Money asked for: \<open>packages/billing/src/stripe-purchase.ts\<close>, with the two switches it reads
  (\<open>credit-billing-flag.ts\<close>, \<open>stripe-client.ts\<close>). The process environment and the Stripe API
  are parameters; text is a sequence of UTF-8 bytes.
\<close>

section \<open>Switches\<close>

type_synonym environment = "string \<Rightarrow> string option"

definition ENABLED_VALUES :: "string list" where
  "ENABLED_VALUES = [''1'', ''true'', ''yes'']"

definition isCreditBillingEnabled :: "environment \<Rightarrow> bool" where
  "isCreditBillingEnabled env =
     ((case env ''CREDIT_BILLING_ENABLED'' of None \<Rightarrow> '''' | Some v \<Rightarrow> js_toLowerCase (js_trim v)) \<in> set ENABLED_VALUES)"

definition isStripePurchaseConfigured :: "environment \<Rightarrow> bool" where
  "isStripePurchaseConfigured env =
     (case env ''STRIPE_SECRET_KEY'' of None \<Rightarrow> False | Some v \<Rightarrow> js_startsWith (js_trim v) ''sk_'')"

text \<open>\<open>getStripeClient\<close>: \<open>connect\<close> makes the client of a key.\<close>

definition getStripeClient :: "environment \<Rightarrow> (string \<Rightarrow> 'c) \<Rightarrow> app_error + 'c" where
  "getStripeClient env connect =
     (case env ''STRIPE_SECRET_KEY'' of
        None \<Rightarrow> Inl MissingStripeConfigError
      | Some v \<Rightarrow> if js_startsWith (js_trim v) ''sk_'' then Inr (connect (js_trim v)) else Inl MissingStripeConfigError)"

section \<open>The Stripe objects it reads and writes\<close>

record StripePrice =
  pr_id :: string
  pr_active :: bool
  pr_product :: expandable
  pr_created :: int
  pr_metadata :: "metadata option"
  pr_unit_amount :: "int option"
  pr_usd_unit_amount :: "int option"   \<comment> \<open>\<open>currency_options?.usd?.unit_amount\<close>\<close>

record SessionCreateParams =
  sp_mode :: string
  sp_customer :: string
  sp_price :: string
  sp_quantity :: int
  sp_locale :: "string option"
  sp_automatic_tax :: bool
  sp_tax_id_collection :: bool
  sp_billing_address_collection :: string
  sp_invoice_description :: "string option"
  sp_update_customer :: "string \<times> string"   \<comment> \<open>address, name\<close>
  sp_client_reference_id :: string
  sp_metadata :: metadata
  sp_success_url :: string
  sp_cancel_url :: string

record StripePurchaseClient =
  customers_create :: "string \<Rightarrow> string \<Rightarrow> string \<Rightarrow> app_error + string"
    \<comment> \<open>name, \<open>metadata.organizationId\<close>, idempotency key\<close>
  prices_retrieve :: "string \<Rightarrow> app_error + StripePrice"
  prices_list :: "string \<Rightarrow> app_error + StripePrice list"   \<comment> \<open>the active prices of a product\<close>
  sessions_create :: "SessionCreateParams \<Rightarrow> app_error + (string \<times> string option)"   \<comment> \<open>id, url\<close>

datatype checkout_refusal = unknown_pack | pack_not_purchasable | not_configured

datatype CreditCheckoutResult = CheckoutOk string | CheckoutRefused checkout_refusal

definition SUPPORTED_CREDIT_CURRENCIES :: "string list" where
  "SUPPORTED_CREDIT_CURRENCIES = [''EUR'', ''USD'']"

record PackPricing =
  pp_priceId :: string
  pp_amountCents :: int
  pp_amountCentsUsd :: "int option"

section \<open>Customer and price\<close>

text \<open>A Prisma call on the ledger's tables outside of its transactions.\<close>

definition direct :: "'a ledger_tx \<Rightarrow> 'a billing_prog" where
  "direct work = on_ledger (\<lambda>db. case work db of Inl e \<Rightarrow> (Inl e, db) | Inr (a, d) \<Rightarrow> (Inr a, d))"

definition ensureStripeCustomer ::
  "StripePurchaseClient \<Rightarrow> faults \<Rightarrow> fresh_ids \<Rightarrow> string \<Rightarrow> string \<Rightarrow> int \<Rightarrow> string billing_prog" where
  "ensureStripeCustomer stripe flt ids organizationId organizationName now =
     prog_bind (on_ledger (ensureWallet flt ids organizationId now None)) (\<lambda>walletId.
     prog_bind (direct (or_throw (findWalletById walletId))) (\<lambda>wallet.
       case truthy_id (cw_stripeCustomerId wallet) of
         Some customer \<Rightarrow> prog_return customer
       | None \<Rightarrow>
           prog_bind (prog_lift (customers_create stripe organizationName organizationId
               (''customer:'' @ organizationId))) (\<lambda>customer.
           prog_then (direct (setStripeCustomer walletId customer))
             (prog_return customer))))"

text \<open>\<open>creditPack.update\<close> of the price cache; \<open>stripePriceId\<close> is unique.\<close>

definition updatePackPrice :: "string \<Rightarrow> PackPricing \<Rightarrow> unit billing_prog" where
  "updatePackPrice packId refreshed s =
     (case findPack packId (packs s) of
        None \<Rightarrow> (Inl (Ledger RecordNotFound), s)
      | Some _ \<Rightarrow>
          if list_ex (\<lambda>p. cp_id p \<noteq> packId \<and> cp_stripePriceId p = Some (pp_priceId refreshed)) (packs s)
          then (Inl (Ledger UniqueViolation), s)
          else (Inr (), s\<lparr>packs := update_row cp_id packId (\<lambda>p. p\<lparr>
             cp_stripePriceId := Some (pp_priceId refreshed),
             cp_unitAmountCents := pp_amountCents refreshed,
             cp_unitAmountCentsUsd := pp_amountCentsUsd refreshed\<rparr>) (packs s)\<rparr>))"

definition newestPriceFor :: "string \<Rightarrow> StripePrice list \<Rightarrow> StripePrice option" where
  "newestPriceFor packId prices =
     first_element (sort_cmp (\<lambda>left right. pr_created right - pr_created left)
       (filter (\<lambda>price. Option.bind (pr_metadata price) (\<lambda>m. m ''packId'') = Some packId) prices))"

definition resolvePackPricing ::
  "StripePurchaseClient \<Rightarrow> CreditPack \<Rightarrow> string \<Rightarrow> PackPricing option billing_prog" where
  "resolvePackPricing stripe pack storedPriceId =
     prog_bind (prog_lift (prices_retrieve stripe storedPriceId)) (\<lambda>stored.
       if pr_active stored
       then prog_return (Some \<lparr>pp_priceId = pr_id stored, pp_amountCents = cp_unitAmountCents pack,
              pp_amountCentsUsd = cp_unitAmountCentsUsd pack\<rparr>)
       else
         let productId = (case cp_stripeProductId pack of Some p \<Rightarrow> p
               | None \<Rightarrow> (case pr_product stored of Id i \<Rightarrow> i | Object i \<Rightarrow> i))
         in prog_bind (prog_lift (prices_list stripe productId)) (\<lambda>data.
              case newestPriceFor (cp_id pack) data of
                None \<Rightarrow> prog_return None
              | Some replacement \<Rightarrow>
                  let refreshed = \<lparr>pp_priceId = pr_id replacement,
                    pp_amountCents = (case pr_unit_amount replacement of Some a \<Rightarrow> a | None \<Rightarrow> cp_unitAmountCents pack),
                    pp_amountCentsUsd = (case pr_usd_unit_amount replacement of Some a \<Rightarrow> Some a
                       | None \<Rightarrow> cp_unitAmountCentsUsd pack)\<rparr>
                  in prog_then (updatePackPrice (cp_id pack) refreshed) (prog_return (Some refreshed))))"

section \<open>Checkout\<close>

definition creditInvoiceDescription :: "int \<Rightarrow> int \<Rightarrow> string" where
  "creditInvoiceDescription credits now =
     (let expiresAt = now + PAID_CREDIT_EXPIRY_DAYS * 24 * 60 * 60 * 1000;
          expiryDate = take 10 (iso_date expiresAt);
          creditLabel = (if credits = 1 then ''credit'' else ''credits'')
      in js_String credits @ '' HireCall interview '' @ creditLabel @ '' '' @
         [CHR 0xE2, CHR 0x80, CHR 0x94] @ '' valid until '' @ expiryDate @ '' (12 months from the purchase date).'')"

definition sessionMetadata :: "string \<Rightarrow> CreditPack \<Rightarrow> PackPricing \<Rightarrow> metadata" where
  "sessionMetadata organizationId pack pricing =
     (let metadata = [''organizationId'' \<mapsto> organizationId, ''packId'' \<mapsto> cp_id pack,
            ''credits'' \<mapsto> js_String (cp_creditsGranted pack), ''amountCents'' \<mapsto> js_String (pp_amountCents pricing)]
      in case pp_amountCentsUsd pricing of None \<Rightarrow> metadata
         | Some usd \<Rightarrow> metadata(''amountCentsUsd'' \<mapsto> js_String usd))"

definition strip_slashes :: "string \<Rightarrow> string" where
  "strip_slashes origin = rev (dropWhile (\<lambda>c. c = CHR ''/'') (rev origin))"

record checkout_input =
  ci_organizationId :: string
  ci_organizationName :: string
  ci_packId :: string
  ci_origin :: string
  ci_now :: int
  ci_locale :: "string option"

definition checkoutParams :: "checkout_input \<Rightarrow> CreditPack \<Rightarrow> PackPricing \<Rightarrow> string \<Rightarrow> SessionCreateParams" where
  "checkoutParams input pack pricing customer =
     (let baseUrl = strip_slashes (ci_origin input)
      in \<lparr>sp_mode = ''payment'', sp_customer = customer, sp_price = pp_priceId pricing, sp_quantity = 1,
          sp_locale = ci_locale input, sp_automatic_tax = True, sp_tax_id_collection = True,
          sp_billing_address_collection = ''required'',
          sp_invoice_description = Some (creditInvoiceDescription (cp_creditsGranted pack) (ci_now input)),
          sp_update_customer = (''auto'', ''auto''),
          sp_client_reference_id = ci_organizationId input,
          sp_metadata = sessionMetadata (ci_organizationId input) pack pricing,
          sp_success_url = baseUrl @ ''/api/billing/checkout-return?session_id={CHECKOUT_SESSION_ID}'',
          sp_cancel_url = baseUrl @ ''/settings?view=billing&purchase=cancelled''\<rparr>)"

definition createCreditCheckoutSession ::
  "environment \<Rightarrow> StripePurchaseClient \<Rightarrow> faults \<Rightarrow> fresh_ids \<Rightarrow> checkout_input \<Rightarrow> CreditCheckoutResult billing_prog" where
  "createCreditCheckoutSession env stripe flt ids input =
     (if \<not> isCreditBillingEnabled env \<or> \<not> isStripePurchaseConfigured env
      then prog_return (CheckoutRefused not_configured)
      else
        prog_bind (prog_get (\<lambda>s. findPack (ci_packId input) (packs s))) (\<lambda>found.
          case found of
            None \<Rightarrow> prog_return (CheckoutRefused unknown_pack)
          | Some pack \<Rightarrow>
              if \<not> cp_enabled pack \<or> \<not> truthy (cp_stripePriceId pack)
              then prog_return (CheckoutRefused pack_not_purchasable)
              else if js_toUpperCase (js_trim (cp_currency pack)) \<notin> set SUPPORTED_CREDIT_CURRENCIES
              then prog_throw (UnsupportedCreditCurrencyError (cp_id pack) (cp_currency pack))
              else
                prog_bind (resolvePackPricing stripe pack (the (cp_stripePriceId pack))) (\<lambda>resolved.
                  case resolved of
                    None \<Rightarrow> prog_return (CheckoutRefused pack_not_purchasable)
                  | Some pricing \<Rightarrow>
                      prog_bind (ensureStripeCustomer stripe flt ids (ci_organizationId input)
                          (ci_organizationName input) (ci_now input)) (\<lambda>customer.
                      prog_bind (prog_lift (sessions_create stripe (checkoutParams input pack pricing customer)))
                        (\<lambda>session.
                         case truthy_id (snd session) of
                           None \<Rightarrow> prog_throw (MissingCheckoutSessionUrlError (fst session))
                         | Some url \<Rightarrow> prog_return (CheckoutOk url))))))"

section \<open>What a checkout does to the state\<close>

lemma direct_moves:
  assumes "\<And>db a d. work db = Inr (a, d) \<Longrightarrow> d = db \<or> ledger_step db d"
  shows "effects handler_rel (direct work)"
  unfolding direct_def using assms
  by (intro on_ledger_rel) (auto split: sum.splits prod.splits)

lemma ensureStripeCustomer_rel: "effects handler_rel (ensureStripeCustomer stripe flt ids org name now)"
proof -
  have "effects handler_rel (on_ledger (ensureWallet flt ids org now None))"
    by (rule on_ledger_rel) (use ensureWallet_steps in blast)
  moreover have "effects handler_rel (direct (or_throw (findWalletById wid)))" for wid
    by (rule direct_moves) (auto simp: or_throw_def split: option.splits)
  moreover have "effects handler_rel (direct (setStripeCustomer wid cid))" for wid cid
    by (rule direct_moves) (blast intro: step_customer)
  ultimately show ?thesis unfolding ensureStripeCustomer_def by (intro handler.structural)
qed

definition same_product :: "CreditPack \<Rightarrow> CreditPack \<Rightarrow> bool" where
  "same_product p q \<longleftrightarrow> cp_id q = cp_id p \<and> cp_creditsGranted q = cp_creditsGranted p \<and> cp_enabled q = cp_enabled p"

lemma updatePackPrice_pack:
  assumes "updatePackPrice k refreshed s = (r, t)" and "findPack k (packs s) = Some pack"
  shows "\<exists>p. findPack k (packs t) = Some p \<and> same_product pack p" and "ledger t = ledger s" and "archive t = archive s"
  using assms
  by (auto simp: updatePackPrice_def findPack_def row_simps same_product_def split: if_splits)

lemma resolvePackPricing_pack:
  assumes "resolvePackPricing stripe pack price s = (r, t)" and "findPack (cp_id pack) (packs s) = Some pack"
  shows "(\<exists>p. findPack (cp_id pack) (packs t) = Some p \<and> same_product pack p) \<and> ledger t = ledger s \<and> archive t = archive s"
proof -
  have upd: "(\<exists>p. findPack (cp_id pack) (packs t) = Some p \<and> same_product pack p) \<and> ledger t = ledger s \<and> archive t = archive s"
    if "prog_then (updatePackPrice (cp_id pack) refreshed) (prog_return x) s = (r, t)" for refreshed x
    using that updatePackPrice_pack [OF _ assms(2)]
    by (auto simp: prog_then_def prog_bind_def prog_return_def split: sum.splits prod.splits)
  show ?thesis
    using assms upd
    by (auto simp: resolvePackPricing_def prog_bind_def prog_lift_def prog_return_def Let_def same_product_def
        split: sum.splits if_splits option.splits)
qed

lemma checkout_cases:
  assumes "createCreditCheckoutSession env stripe flt ids input s = (Inr (CheckoutOk url), t)"
  obtains pack pricing s1 customer sid where
    "findPack (ci_packId input) (packs s) = Some pack" "cp_enabled pack"
    "js_toUpperCase (js_trim (cp_currency pack)) \<in> set SUPPORTED_CREDIT_CURRENCIES"
    "resolvePackPricing stripe pack (the (cp_stripePriceId pack)) s = (Inr (Some pricing), s1)"
    "ensureStripeCustomer stripe flt ids (ci_organizationId input) (ci_organizationName input) (ci_now input) s1 = (Inr customer, t)"
    "sessions_create stripe (checkoutParams input pack pricing customer) = Inr (sid, Some url)" "url \<noteq> []"
  using assms
  by (auto simp: createCreditCheckoutSession_def prog_bind_def prog_return_def prog_get_def prog_lift_def prog_throw_def
      truthy_id_Some truthy_id_def split: if_splits option.splits sum.splits prod.splits)

text \<open>The bought pack is still the same product when the session exists.\<close>

lemma checkout_pack:
  assumes "createCreditCheckoutSession env stripe flt ids input s = (Inr (CheckoutOk url), t)"
  obtains pack pricing customer sid p where
    "findPack (ci_packId input) (packs s) = Some pack"
    "sessions_create stripe (checkoutParams input pack pricing customer) = Inr (sid, Some url)"
    "findPack (ci_packId input) (packs t) = Some p" "same_product pack p" "cp_enabled p"
    "\<exists>s1. resolvePackPricing stripe pack (the (cp_stripePriceId pack)) s = (Inr (Some pricing), s1)"
proof (rule checkout_cases [OF assms])
  fix pack pricing s1 customer sid
  assume found: "findPack (ci_packId input) (packs s) = Some pack" and on: "cp_enabled pack"
    and price: "resolvePackPricing stripe pack (the (cp_stripePriceId pack)) s = (Inr (Some pricing), s1)"
    and cust: "ensureStripeCustomer stripe flt ids (ci_organizationId input) (ci_organizationName input) (ci_now input) s1 = (Inr customer, t)"
    and made: "sessions_create stripe (checkoutParams input pack pricing customer) = Inr (sid, Some url)"
  have key: "ci_packId input = cp_id pack" using findPack_id [OF found] by simp
  obtain p where p: "findPack (cp_id pack) (packs s1) = Some p" "same_product pack p"
    using resolvePackPricing_pack [OF price] found key by auto
  have "packs t = packs s1" using effectsD [OF ensureStripeCustomer_rel cust] by (simp add: handler_rel_def)
  then show thesis using that [OF found made] p key on price by (auto simp: same_product_def)
qed

section \<open>What a session quotes is what fulfilment accepts\<close>

lemma js_String_trim: "0 \<le> n \<Longrightarrow> js_trim (js_String n) = js_String n \<and> js_String n \<noteq> []"
  using js_trim_none [of "nat_digits (nat n)"] nat_digits_digit digit_not_space nat_digits_nonempty
  by (auto simp: js_String_def)

lemma sessionMetadata_simps [simp]:
  "sessionMetadata org pack pricing ''organizationId'' = Some org"
  "sessionMetadata org pack pricing ''packId'' = Some (cp_id pack)"
  "sessionMetadata org pack pricing ''credits'' = Some (js_String (cp_creditsGranted pack))"
  "sessionMetadata org pack pricing ''amountCents'' = Some (js_String (pp_amountCents pricing))"
  "sessionMetadata org pack pricing ''amountCentsUsd'' = map_option js_String (pp_amountCentsUsd pricing)"
  by (simp_all add: sessionMetadata_def Let_def split: option.split)

text \<open>The two prices a session quotes, by settlement currency.\<close>

definition quoted :: "PackPricing \<Rightarrow> string \<Rightarrow> int option" where
  "quoted pricing currency =
     (if currency = ''eur'' then Some (pp_amountCents pricing)
      else if currency = ''usd'' then pp_amountCentsUsd pricing else None)"

lemma quoted_verdict:
  assumes "findPack (cp_id pack) ps = Some p" and "same_product pack p" and "cp_enabled p"
    and "0 < cp_creditsGranted pack"
    and "js_trim org = org" and "org \<noteq> []" and "js_trim (cp_id pack) = cp_id pack" and "cp_id pack \<noteq> []"
    and "cs_payment_status session = ''paid''" and "cs_metadata session = Some (sessionMetadata org pack pricing)"
    and "cs_currency session = Some currency" and "cs_amount_subtotal session = Some a"
    and "quoted pricing currency = Some a" and "0 \<le> a"
    and "idOf (cs_payment_intent session) = Some payment" and "payment \<noteq> []"
  shows "sessionVerdict ps input session = Inr (grantInput org p a currency payment session input)"
proof -
  have numbers: "js_Number (Some (js_String (cp_creditsGranted pack))) = Some (of_int (cp_creditsGranted pack))"
      "js_Number (Some (js_String a)) = Some (of_int a)"
    using assms(4,14) by (simp_all add: Number_String)
  have expected: "resolveExpectedPayment (Some currency) (sessionMetadata org pack pricing) = Some (currency, Some (of_int a))"
    using assms(13) numbers(2) js_String_trim [OF assms(14)]
    by (auto simp: resolveExpectedPayment_def FULFILLABLE_CURRENCIES_def EXPECTED_AMOUNT_METADATA_KEY_def quoted_def
        split: if_splits)
  have ids: "truthy_id (trimmed (Some (sessionMetadata org pack pricing)) ''organizationId'') = Some org"
      "truthy_id (trimmed (Some (sessionMetadata org pack pricing)) ''packId'') = Some (cp_id pack)"
      "truthy_id (idOf (cs_payment_intent session)) = Some payment"
    using assms(5-8,15,16) by (simp_all add: trimmed_def truthy_id_def)
  show ?thesis
    using assms(1-4,9-12) numbers(1) expected
    by (simp add: sessionVerdict_def Let_def ids same_product_def)
qed


text \<open>
  a session that quotes no dollar amount can be paid in dollars and never be granted. The
  catalogue gate of checkout accepts a pack priced in USD, but fulfilment reads the expected
  dollars only from \<open>amountCentsUsd\<close>: without that key every paid dollar session of the pack is
  refused as an amount mismatch.
\<close>
theorem dollars_without_quote_are_refused:
  assumes "cs_payment_status session = ''paid''"
    and "cs_metadata session = Some (sp_metadata (checkoutParams input pack pricing customer))"
    and "cs_currency session = Some ''usd''" and "pp_amountCentsUsd pricing = None"
    and "findPack (cp_id pack) (packs s) = Some pack" and "cp_enabled pack" and "0 < cp_creditsGranted pack"
    and "js_trim (ci_organizationId input) = ci_organizationId input" and "ci_organizationId input \<noteq> []"
    and "js_trim (cp_id pack) = cp_id pack" and "cp_id pack \<noteq> []"
  shows "sessionVerdict (packs s) fi session = Inl FAmountMismatch"
proof -
  have "resolveExpectedPayment (Some ''usd'') (sessionMetadata (ci_organizationId input) pack pricing) = None"
    using assms(4) by (simp add: resolveExpectedPayment_def FULFILLABLE_CURRENCIES_def EXPECTED_AMOUNT_METADATA_KEY_def)
  moreover have "js_Number (Some (js_String (cp_creditsGranted pack))) = Some (of_int (cp_creditsGranted pack))"
    using assms(7) by (simp add: Number_String)
  ultimately show ?thesis
    using assms
    by (simp add: sessionVerdict_def Let_def checkoutParams_def trimmed_def truthy_id_def)
qed

definition demo_env :: environment where
  "demo_env = [''CREDIT_BILLING_ENABLED'' \<mapsto> ''1'', ''STRIPE_SECRET_KEY'' \<mapsto> ''sk_test'']"

definition demo_till :: StripePurchaseClient where
  "demo_till = \<lparr>customers_create = (\<lambda>_ _ _. Inr ''cus_1''),
     prices_retrieve = (\<lambda>i. Inr \<lparr>pr_id = i, pr_active = True, pr_product = Id ''prod_1'', pr_created = 1,
        pr_metadata = None, pr_unit_amount = None, pr_usd_unit_amount = None\<rparr>),
     prices_list = (\<lambda>_. Inr []), sessions_create = (\<lambda>_. Inr (''cs_1'', Some ''https://pay''))\<rparr>"

definition demo_order :: checkout_input where
  "demo_order = \<lparr>ci_organizationId = ''org'', ci_organizationName = ''Org'', ci_packId = ''pack_25'',
     ci_origin = ''https://app/'', ci_now = 0, ci_locale = None\<rparr>"

lemma demo_checkout:
  "createCreditCheckoutSession demo_env demo_till no_faults demo_ids demo_order demo_shop =
     (Inr (CheckoutOk ''https://pay''), snd (createCreditCheckoutSession demo_env demo_till no_faults demo_ids demo_order demo_shop))"
proof -
  have "isCreditBillingEnabled demo_env" "isStripePurchaseConfigured demo_env"
    "js_toUpperCase (js_trim ''eur'') \<in> set SUPPORTED_CREDIT_CURRENCIES"
    by code_simp+
  moreover have "\<exists>t. ensureStripeCustomer demo_till no_faults demo_ids ''org'' ''Org'' 0 demo_shop = (Inr ''cus_1'', t)"
  proof -
    have "fst (ensureStripeCustomer demo_till no_faults demo_ids ''org'' ''Org'' 0 demo_shop) = Inr ''cus_1''" by code_simp
    then show ?thesis by (metis prod.collapse)
  qed
  moreover have "findPack ''pack_25'' (packs demo_shop) = Some (hd (packs demo_shop))"
    by (simp add: findPack_def demo_shop_def demo_world_def)
  ultimately show ?thesis
    by (auto simp: createCreditCheckoutSession_def resolvePackPricing_def prog_defs demo_order_def demo_shop_def demo_world_def
        demo_till_def truthy_id_def)
qed



theorem dollars_without_quote_are_refused_witness:
  "sessionVerdict (packs demo_shop) demo_return ((demo_paid_session ''cs_1'')\<lparr>cs_currency := Some ''usd'',
     cs_metadata := Some (sp_metadata (checkoutParams demo_order (hd (packs demo_shop))
        \<lparr>pp_priceId = ''price_1'', pp_amountCents = 54900, pp_amountCentsUsd = None\<rparr> ''cus_1''))\<rparr>) = Inl FAmountMismatch"
proof -
  have "js_trim ''org'' = ''org''" "js_trim ''pack_25'' = ''pack_25''" by code_simp+
  then show ?thesis
    using dollars_without_quote_are_refused [of "(demo_paid_session ''cs_1'')\<lparr>cs_currency := Some ''usd'',
       cs_metadata := Some (sp_metadata (checkoutParams demo_order (hd (packs demo_shop))
        \<lparr>pp_priceId = ''price_1'', pp_amountCents = 54900, pp_amountCentsUsd = None\<rparr> ''cus_1''))\<rparr>"
        demo_order "hd (packs demo_shop)" "\<lparr>pp_priceId = ''price_1'', pp_amountCents = 54900, pp_amountCentsUsd = None\<rparr>"
        "''cus_1''" demo_shop demo_return]
    by (simp add: demo_paid_session_def demo_shop_def demo_world_def findPack_def demo_order_def)
qed

end
