(* ===== verification/BillingPolicy.thy ===== *)
theory BillingPolicy
  imports JsDate
begin

text \<open>
  Subscription plans: \<open>packages/billing/src/billing-policy.ts\<close> and the adapter
  \<open>clerk-billing.ts\<close>. A subscription snapshot becomes one billing state, and the state
  decides features. Counters are integers; \<open>Number.MAX_SAFE_INTEGER\<close> is the limit the source
  uses for no limit.
\<close>

section \<open>Data\<close>

record WorkspacePlanEntitlements =
  activeRoleLimit :: int
  candidateInterviewLimit :: int
  recording :: bool

datatype WorkspacePlanKey = plan_free | plan_unknown | plan_v1_workspace

definition workspacePlanCatalog :: "WorkspacePlanKey \<Rightarrow> WorkspacePlanEntitlements" where
  "workspacePlanCatalog key =
     (case key of
        plan_free \<Rightarrow> \<lparr>activeRoleLimit = 1, candidateInterviewLimit = 5, recording = False\<rparr>
      | plan_unknown \<Rightarrow> \<lparr>activeRoleLimit = 0, candidateInterviewLimit = 0, recording = False\<rparr>
      | plan_v1_workspace \<Rightarrow> \<lparr>activeRoleLimit = 25, candidateInterviewLimit = 250, recording = True\<rparr>)"

datatype WorkspaceBillingState =
  st_active | st_canceled | st_free | st_past_due | st_trialing | st_unavailable | st_unconfigured

datatype WorkspaceBillingFeature = candidate_interviews | published_roles | feature_recording

datatype BillingSubscriptionStatus =
  sub_abandoned | sub_active | sub_canceled | sub_ended | sub_expired | sub_incomplete | sub_past_due | sub_upcoming

record BillingSubscriptionItemSnapshot =
  it_id :: string
  it_isDefault :: bool
  it_isFreeTrial :: bool
  it_periodEnd :: "int option"
  it_periodStart :: "int option"
  it_planId :: "string option"
  it_planName :: "string option"
  it_planSlug :: "string option"
  it_status :: BillingSubscriptionStatus
  it_updatedAt :: int

record BillingSubscriptionSnapshot =
  bs_id :: string
  bs_items :: "BillingSubscriptionItemSnapshot list"
  bs_status :: BillingSubscriptionStatus
  bs_updatedAt :: int

record WorkspaceBilling =
  wb_accessAllowed :: bool
  wb_entitlements :: WorkspacePlanEntitlements
  wb_isFreeTrial :: bool
  wb_periodEnd :: "int option"
  wb_periodStart :: "int option"
  wb_planId :: "string option"
  wb_planKey :: WorkspacePlanKey
  wb_planName :: string
  wb_planSlug :: "string option"
  wb_sourceUpdatedAt :: int
  wb_state :: WorkspaceBillingState
  wb_subscriptionId :: "string option"
  wb_subscriptionItemId :: "string option"
  wb_subscriptionItemStatus :: "string option"
  wb_subscriptionStatus :: "string option"

datatype denial = billing_unavailable | feature_not_in_plan | usage_limit_reached

datatype WorkspaceEntitlementDecision =
    Allowed "int option" int          \<comment> \<open>limit, usage\<close>
  | Denied denial "int option" int    \<comment> \<open>code, limit, usage\<close>

section \<open>Normalising a subscription\<close>

definition status_word :: "BillingSubscriptionStatus \<Rightarrow> string" where
  "status_word st = (case st of
     sub_abandoned \<Rightarrow> ''abandoned'' | sub_active \<Rightarrow> ''active'' | sub_canceled \<Rightarrow> ''canceled''
   | sub_ended \<Rightarrow> ''ended'' | sub_expired \<Rightarrow> ''expired'' | sub_incomplete \<Rightarrow> ''incomplete''
   | sub_past_due \<Rightarrow> ''past_due'' | sub_upcoming \<Rightarrow> ''upcoming'')"

definition unavailableBilling :: "int \<Rightarrow> WorkspaceBilling" where
  "unavailableBilling now =
     \<lparr>wb_accessAllowed = False, wb_entitlements = workspacePlanCatalog plan_unknown, wb_isFreeTrial = False,
      wb_periodEnd = None, wb_periodStart = None, wb_planId = None, wb_planKey = plan_unknown,
      wb_planName = ''Billing unavailable'', wb_planSlug = None, wb_sourceUpdatedAt = now,
      wb_state = st_unavailable, wb_subscriptionId = None, wb_subscriptionItemId = None,
      wb_subscriptionItemStatus = None, wb_subscriptionStatus = None\<rparr>"

definition MAX_SAFE_INTEGER :: int where
  "MAX_SAFE_INTEGER = 2 ^ 53 - 1"

definition unconfiguredBilling :: "int \<Rightarrow> WorkspaceBilling" where
  "unconfiguredBilling now =
     \<lparr>wb_accessAllowed = True,
      wb_entitlements = \<lparr>activeRoleLimit = MAX_SAFE_INTEGER, candidateInterviewLimit = MAX_SAFE_INTEGER, recording = True\<rparr>,
      wb_isFreeTrial = False, wb_periodEnd = None, wb_periodStart = None, wb_planId = None,
      wb_planKey = plan_unknown, wb_planName = ''Billing not configured'', wb_planSlug = None,
      wb_sourceUpdatedAt = now, wb_state = st_unconfigured, wb_subscriptionId = None,
      wb_subscriptionItemId = None, wb_subscriptionItemStatus = None, wb_subscriptionStatus = None\<rparr>"

definition newestItem :: "BillingSubscriptionItemSnapshot list \<Rightarrow> BillingSubscriptionItemSnapshot option" where
  "newestItem items = first_element (sort_cmp (\<lambda>left right. it_updatedAt right - it_updatedAt left) items)"

definition past :: "int option \<Rightarrow> int \<Rightarrow> bool" where
  "past d now \<longleftrightarrow> (case d of None \<Rightarrow> False | Some t \<Rightarrow> t \<le> now)"

definition future :: "int option \<Rightarrow> int \<Rightarrow> bool" where
  "future d now \<longleftrightarrow> (case d of None \<Rightarrow> False | Some t \<Rightarrow> now < t)"

definition itemCanRemainEffective :: "BillingSubscriptionItemSnapshot \<Rightarrow> int \<Rightarrow> bool" where
  "itemCanRemainEffective item now =
     (if it_status item = sub_active \<or> it_status item = sub_past_due then True
      else if it_status item = sub_upcoming then past (it_periodStart item) now
      else it_status item = sub_canceled \<and> future (it_periodEnd item) now)"

definition planKeyOf :: "bool \<Rightarrow> BillingSubscriptionItemSnapshot \<Rightarrow> WorkspacePlanKey" where
  "planKeyOf paid selected =
     (if paid then plan_v1_workspace else if it_isDefault selected then plan_free else plan_unknown)"

definition stateOf ::
  "BillingSubscriptionStatus \<Rightarrow> WorkspacePlanKey \<Rightarrow> BillingSubscriptionItemSnapshot \<Rightarrow> int \<Rightarrow> WorkspaceBillingState" where
  "stateOf subscription planKey selected now =
     (let canceledStillEffective = it_status selected = sub_canceled \<and> future (it_periodEnd selected) now;
          active = it_status selected = sub_active \<or> canceledStillEffective \<or>
            it_status selected = sub_upcoming \<and> past (it_periodStart selected) now
      in if it_status selected = sub_past_due \<or> subscription = sub_past_due then st_past_due
         else if canceledStillEffective then st_canceled
         else if active \<and> it_isFreeTrial selected then st_trialing
         else if active \<and> planKey = plan_free then st_free
         else if active \<and> planKey = plan_v1_workspace then st_active
         else st_unavailable)"

definition opens_access :: "WorkspacePlanKey \<Rightarrow> WorkspaceBillingState \<Rightarrow> bool" where
  "opens_access planKey state \<longleftrightarrow> planKey \<noteq> plan_unknown \<and>
     (state = st_active \<or> state = st_canceled \<or> state = st_free \<or> state = st_trialing)"

definition normalizeBillingSubscription ::
  "BillingSubscriptionSnapshot option \<Rightarrow> int \<Rightarrow> string \<Rightarrow> WorkspaceBilling" where
  "normalizeBillingSubscription subscription now paidPlanSlug =
     (case subscription of
        None \<Rightarrow> unavailableBilling now
      | Some sub \<Rightarrow>
          let paidCandidate = newestItem (filter (\<lambda>i. it_planSlug i = Some paidPlanSlug) (bs_items sub));
              paidItem = (case paidCandidate of None \<Rightarrow> None
                | Some i \<Rightarrow> if itemCanRemainEffective i now then Some i else None);
              defaultItem = newestItem (filter it_isDefault (bs_items sub))
          in case (case paidItem of Some i \<Rightarrow> Some i | None \<Rightarrow> defaultItem) of
               None \<Rightarrow> (unavailableBilling (bs_updatedAt sub))
                 \<lparr>wb_subscriptionId := Some (bs_id sub), wb_subscriptionStatus := Some (status_word (bs_status sub))\<rparr>
             | Some selected \<Rightarrow>
                 let planKey = planKeyOf (paidItem \<noteq> None) selected;
                     state = stateOf (bs_status sub) planKey selected now;
                     accessAllowed = opens_access planKey state
                 in \<lparr>wb_accessAllowed = accessAllowed,
                     wb_entitlements = workspacePlanCatalog (if accessAllowed then planKey else plan_unknown),
                     wb_isFreeTrial = it_isFreeTrial selected,
                     wb_periodEnd = it_periodEnd selected, wb_periodStart = it_periodStart selected,
                     wb_planId = it_planId selected, wb_planKey = planKey,
                     wb_planName = (case it_planName selected of Some n \<Rightarrow> n
                       | None \<Rightarrow> if planKey = plan_free then ''Free'' else ''V1 Workspace''),
                     wb_planSlug = it_planSlug selected,
                     wb_sourceUpdatedAt = (if bs_updatedAt sub < it_updatedAt selected then it_updatedAt selected
                       else bs_updatedAt sub),
                     wb_state = state, wb_subscriptionId = Some (bs_id sub),
                     wb_subscriptionItemId = Some (it_id selected),
                     wb_subscriptionItemStatus = Some (status_word (it_status selected)),
                     wb_subscriptionStatus = Some (status_word (bs_status sub))\<rparr>)"

section \<open>Decisions\<close>

datatype billing_runtime = rt_configured | rt_unavailable | rt_unconfigured

definition resolveBillingRuntime :: "string option \<Rightarrow> bool \<Rightarrow> billing_runtime" where
  "resolveBillingRuntime appEnv billingEnabled =
     (if billingEnabled then rt_configured
      else if appEnv = Some ''production'' then rt_unavailable else rt_unconfigured)"

definition limitFor :: "WorkspaceBilling \<Rightarrow> WorkspaceBillingFeature \<Rightarrow> int option" where
  "limitFor billing feature =
     (if wb_state billing = st_unconfigured \<or> feature = feature_recording then None
      else Some (if feature = published_roles then activeRoleLimit (wb_entitlements billing)
                 else candidateInterviewLimit (wb_entitlements billing)))"

definition evaluateWorkspaceEntitlement ::
  "WorkspaceBilling \<Rightarrow> WorkspaceBillingFeature \<Rightarrow> int \<Rightarrow> WorkspaceEntitlementDecision" where
  "evaluateWorkspaceEntitlement billing feature usage =
     (if wb_state billing = st_unconfigured then Allowed None usage
      else if \<not> wb_accessAllowed billing then Denied billing_unavailable (limitFor billing feature) usage
      else if feature = feature_recording
      then (if recording (wb_entitlements billing) then Allowed None usage else Denied feature_not_in_plan None usage)
      else let limit = limitFor billing feature
           in case limit of
                Some n \<Rightarrow> if n \<le> usage then Denied usage_limit_reached limit usage else Allowed limit usage
              | None \<Rightarrow> Allowed limit usage)"

definition resolveBillingUsagePeriod :: "WorkspaceBilling \<Rightarrow> int \<Rightarrow> int \<times> int" where
  "resolveBillingUsagePeriod billing now =
     (case (wb_periodStart billing, wb_periodEnd billing) of
        (Some start, Some end_) \<Rightarrow> (start, end_)
      | _ \<Rightarrow> (Date_UTC (getUTCFullYear now) (getUTCMonth now) 1, Date_UTC (getUTCFullYear now) (getUTCMonth now + 1) 1))"

section \<open>The Clerk adapter\<close>

record ClerkBillingPlan =
  kp_id :: string
  kp_isDefault :: bool
  kp_name :: string
  kp_slug :: string

record ClerkSubscriptionItem =
  ki_id :: string
  ki_isFreeTrial :: "bool option"
  ki_periodEnd :: "int option"
  ki_periodStart :: int
  ki_plan :: "ClerkBillingPlan option"
  ki_planId :: "string option"
  ki_status :: BillingSubscriptionStatus
  ki_updatedAt :: int

record ClerkBillingSubscription =
  ks_id :: string
  ks_status :: BillingSubscriptionStatus
  ks_subscriptionItems :: "ClerkSubscriptionItem list"
  ks_updatedAt :: int

definition mapClerkBillingSubscription :: "ClerkBillingSubscription \<Rightarrow> BillingSubscriptionSnapshot" where
  "mapClerkBillingSubscription subscription =
     \<lparr>bs_id = ks_id subscription,
      bs_items = map (\<lambda>item.
        \<lparr>it_id = ki_id item,
         it_isDefault = (case ki_plan item of None \<Rightarrow> False | Some p \<Rightarrow> kp_isDefault p),
         it_isFreeTrial = (case ki_isFreeTrial item of None \<Rightarrow> False | Some b \<Rightarrow> b),
         it_periodEnd = ki_periodEnd item, it_periodStart = Some (ki_periodStart item),
         it_planId = (case ki_planId item of Some i \<Rightarrow> Some i | None \<Rightarrow> map_option kp_id (ki_plan item)),
         it_planName = map_option kp_name (ki_plan item), it_planSlug = map_option kp_slug (ki_plan item),
         it_status = ki_status item, it_updatedAt = ki_updatedAt item\<rparr>) (ks_subscriptionItems subscription),
      bs_status = ks_status subscription, bs_updatedAt = ks_updatedAt subscription\<rparr>"

section \<open>Properties\<close>

interpretation newest: key_comparator "\<lambda>left right. it_updatedAt right - it_updatedAt left" "\<lambda>i. - it_updatedAt i"
  by unfold_locales auto

lemma newestItem_Some:
  "newestItem items = Some i \<Longrightarrow> i \<in> set items \<and> (\<forall>j\<in>set items. it_updatedAt j \<le> it_updatedAt i)"
  unfolding newestItem_def by (drule newest.first_least) auto

lemma stateOf_live:
  assumes "opens_access planKey (stateOf subscription planKey selected now)"
  shows "subscription \<noteq> sub_past_due \<and> (it_status selected = sub_active \<or>
    it_status selected = sub_canceled \<and> future (it_periodEnd selected) now \<or>
    it_status selected = sub_upcoming \<and> past (it_periodStart selected) now)"
  using assms by (auto simp: opens_access_def stateOf_def Let_def split: if_splits)

text \<open>
  access is never granted on a dead subscription. If a normalised subscription opens
  access, it exists and is not past due, and it has an item that is active, cancelled with its
  period still running, or upcoming with its period begun; that item is the newest of the paid
  plan's and gives the paid entitlements, or the newest default item and gives the free ones.
\<close>
theorem access_needs_a_live_item:
  assumes "wb_accessAllowed (normalizeBillingSubscription subscription now slug)"
  shows "\<exists>sub item. subscription = Some sub \<and> bs_status sub \<noteq> sub_past_due \<and> item \<in> set (bs_items sub) \<and>
    (it_status item = sub_active \<or> it_status item = sub_canceled \<and> future (it_periodEnd item) now \<or>
     it_status item = sub_upcoming \<and> past (it_periodStart item) now) \<and>
    (it_planSlug item = Some slug \<and>
       wb_entitlements (normalizeBillingSubscription subscription now slug) = workspacePlanCatalog plan_v1_workspace \<and>
       (\<forall>other\<in>set (bs_items sub). it_planSlug other = Some slug \<longrightarrow> it_updatedAt other \<le> it_updatedAt item) \<or>
     it_isDefault item \<and>
       wb_entitlements (normalizeBillingSubscription subscription now slug) = workspacePlanCatalog plan_free \<and>
       (\<forall>other\<in>set (bs_items sub). it_isDefault other \<longrightarrow> it_updatedAt other \<le> it_updatedAt item))"
proof (cases subscription)
  case None
  with assms show ?thesis by (simp add: normalizeBillingSubscription_def unavailableBilling_def)
next
  case (Some sub)
  define paid where "paid = (case newestItem (filter (\<lambda>i. it_planSlug i = Some slug) (bs_items sub)) of None \<Rightarrow> None
    | Some i \<Rightarrow> if itemCanRemainEffective i now then Some i else None)"
  define chosen where "chosen = (case paid of Some i \<Rightarrow> Some i | None \<Rightarrow> newestItem (filter it_isDefault (bs_items sub)))"
  from assms Some obtain item where item: "chosen = Some item"
    by (cases chosen) (auto simp: normalizeBillingSubscription_def unavailableBilling_def paid_def [symmetric]
        chosen_def [symmetric] Let_def)
  let ?key = "planKeyOf (paid \<noteq> None) item"
  have access: "opens_access ?key (stateOf (bs_status sub) ?key item now)"
    and ents: "wb_entitlements (normalizeBillingSubscription subscription now slug) = workspacePlanCatalog ?key"
    using assms Some item
    by (simp_all add: normalizeBillingSubscription_def Let_def paid_def [symmetric] chosen_def [symmetric])
  have "paid \<noteq> None \<and> item \<in> set (bs_items sub) \<and> it_planSlug item = Some slug \<and>
        (\<forall>other\<in>set (bs_items sub). it_planSlug other = Some slug \<longrightarrow> it_updatedAt other \<le> it_updatedAt item) \<or>
      paid = None \<and> item \<in> set (bs_items sub) \<and> it_isDefault item \<and>
        (\<forall>other\<in>set (bs_items sub). it_isDefault other \<longrightarrow> it_updatedAt other \<le> it_updatedAt item)"
    using item by (auto simp: chosen_def paid_def split: option.splits if_splits dest!: newestItem_Some)
  then show ?thesis
    using stateOf_live [OF access] Some ents by (auto simp: planKeyOf_def)
qed

definition demo_item :: BillingSubscriptionItemSnapshot where
  "demo_item = \<lparr>it_id = ''i1'', it_isDefault = False, it_isFreeTrial = False, it_periodEnd = Some 90,
     it_periodStart = Some 10, it_planId = Some ''p1'', it_planName = None, it_planSlug = Some ''v1-workspace'',
     it_status = sub_canceled, it_updatedAt = 20\<rparr>"

definition demo_subscription :: BillingSubscriptionSnapshot where
  "demo_subscription = \<lparr>bs_id = ''s1'', bs_items = [demo_item], bs_status = sub_active, bs_updatedAt = 15\<rparr>"

theorem access_needs_a_live_item_witness:
  "wb_accessAllowed (normalizeBillingSubscription (Some demo_subscription) 50 ''v1-workspace'') \<and>
   bs_status demo_subscription \<noteq> sub_past_due"
proof -
  have "wb_accessAllowed (normalizeBillingSubscription (Some demo_subscription) 50 ''v1-workspace'')" by code_simp
  with access_needs_a_live_item [OF this] show ?thesis by auto
qed

text \<open>
  a metered feature never runs over its limit. Under configured billing, a feature other
  than recording is allowed exactly when access is open and one more use still fits the plan's
  limit; so the decision is monotone: what is allowed at some usage is allowed at any lower
  one, and what is refused for usage stays refused at any higher one.
\<close>
theorem entitlement_respects_limit:
  assumes "wb_state billing \<noteq> st_unconfigured" and "feature \<noteq> feature_recording"
  defines "limit \<equiv> (if feature = published_roles then activeRoleLimit (wb_entitlements billing)
      else candidateInterviewLimit (wb_entitlements billing))"
  shows "(evaluateWorkspaceEntitlement billing feature usage = Allowed (Some limit) usage) =
      (wb_accessAllowed billing \<and> usage + 1 \<le> limit) \<and>
    (evaluateWorkspaceEntitlement billing feature usage = Denied usage_limit_reached (Some limit) usage) =
      (wb_accessAllowed billing \<and> limit \<le> usage) \<and>
    (evaluateWorkspaceEntitlement billing feature usage = Denied billing_unavailable (Some limit) usage) =
      (\<not> wb_accessAllowed billing)"
  using assms by (auto simp: evaluateWorkspaceEntitlement_def limitFor_def Let_def)

theorem entitlement_respects_limit_witness:
  "evaluateWorkspaceEntitlement (normalizeBillingSubscription (Some demo_subscription) 50 ''v1-workspace'')
     candidate_interviews 249 = Allowed (Some 250) 249"
proof -
  let ?b = "normalizeBillingSubscription (Some demo_subscription) 50 ''v1-workspace''"
  have "wb_accessAllowed ?b" "wb_state ?b \<noteq> st_unconfigured" "candidateInterviewLimit (wb_entitlements ?b) = 250"
    by code_simp+
  with entitlement_respects_limit [of ?b candidate_interviews 249] show ?thesis by simp
qed

text \<open>
  without a billing period of its own a workspace is metered by the UTC calendar month:
  the period starts and ends at midnight, contains the present instant, and is never empty.
\<close>
theorem usage_period_contains_now:
  assumes "wb_periodStart billing = None \<or> wb_periodEnd billing = None"
  shows "fst (resolveBillingUsagePeriod billing now) \<le> now \<and> now < snd (resolveBillingUsagePeriod billing now) \<and>
    fst (resolveBillingUsagePeriod billing now) mod MS_PER_DAY = 0 \<and>
    snd (resolveBillingUsagePeriod billing now) mod MS_PER_DAY = 0"
  using assms utc_month_contains [of now]
  by (auto simp: resolveBillingUsagePeriod_def Date_UTC_def Let_def split: option.split)

theorem usage_period_contains_now_witness:
  "fst (resolveBillingUsagePeriod (unavailableBilling 0) 1700000000000) \<le> 1700000000000 \<and>
   1700000000000 < snd (resolveBillingUsagePeriod (unavailableBilling 0) 1700000000000)"
  using usage_period_contains_now [of "unavailableBilling 0" 1700000000000]
  by (simp add: unavailableBilling_def)

end
