(* ===== verification/BillingService.thy ===== *)
theory BillingService
  imports BillingPolicy Effects
begin

text \<open>
  The local billing projection: \<open>packages/billing/src/server.ts\<close>. A table of one row per
  organization, fed from Clerk and read by every entitlement check. The statements of the
  conditional upsert are separate: what other writers do between them is a parameter.
\<close>

section \<open>Data\<close>

record BillingProjection =
  bp_organizationId :: string
  bp_clerkPlanId :: "string option"
  bp_clerkSubscriptionId :: "string option"
  bp_isFreeTrial :: bool
  bp_periodEnd :: "int option"
  bp_periodStart :: "int option"
  bp_planName :: "string option"
  bp_planSlug :: "string option"
  bp_sourceUpdatedAt :: int
  bp_state :: string
  bp_syncedAt :: int
  bp_subscriptionItemId :: "string option"
  bp_subscriptionItemStatus :: "string option"
  bp_subscriptionStatus :: "string option"

record session_row =
  ss_organizationId :: string
  ss_startedAt :: "int option"
  ss_status :: string
  ss_realtimeSessionId :: "string option"

record job_row =
  jb_organizationId :: string
  jb_interviewStatuses :: "string list"

record billing_store =
  projections :: "BillingProjection list"
  candidate_sessions :: "session_row list"
  jobs :: "job_row list"
  organizations :: "(string \<times> string) list"   \<comment> \<open>id, Clerk id\<close>

record BillingServiceOptions =
  op_appEnv :: "string option"
  op_billingEnabled :: bool
  op_paidPlanSlug :: string
  op_projectionMaxAgeMs :: rat

definition DEFAULT_PROJECTION_MAX_AGE_MS :: int where
  "DEFAULT_PROJECTION_MAX_AGE_MS = 35 * 24 * 60 * 60 * 1000"

definition BOOTSTRAP_SOURCE_UPDATED_AT :: int where
  "BOOTSTRAP_SOURCE_UPDATED_AT = 0"

definition defaultPaidPlanSlug :: string where
  "defaultPaidPlanSlug = ''v1-workspace''"

section \<open>The store\<close>

definition findBillingProjection :: "string \<Rightarrow> billing_store \<Rightarrow> BillingProjection option" where
  "findBillingProjection organizationId s = find_row bp_organizationId organizationId (projections s)"

definition findOrganizationIdByClerkId :: "string \<Rightarrow> billing_store \<Rightarrow> string option" where
  "findOrganizationIdByClerkId clerkId s = map_option fst (find_row snd clerkId (organizations s))"

definition countCandidateInterviews :: "string \<Rightarrow> int option \<Rightarrow> int option \<Rightarrow> billing_store \<Rightarrow> int" where
  "countCandidateInterviews organizationId periodEnd periodStart s =
     int (length (filter (\<lambda>c. ss_organizationId c = organizationId \<and>
       (periodStart = None \<and> periodEnd = None \<or>
        (case ss_startedAt c of None \<Rightarrow> False
         | Some t \<Rightarrow> (case periodStart of None \<Rightarrow> True | Some a \<Rightarrow> a \<le> t) \<and>
                     (case periodEnd of None \<Rightarrow> True | Some b \<Rightarrow> t < b))) \<and>
       (ss_status c \<noteq> ''failed'' \<or> ss_realtimeSessionId c \<noteq> None)) (candidate_sessions s)))"

definition countPublishedRoles :: "string \<Rightarrow> billing_store \<Rightarrow> int" where
  "countPublishedRoles organizationId s =
     int (length (filter (\<lambda>j. jb_organizationId j = organizationId \<and> ''published'' \<in> set (jb_interviewStatuses j)) (jobs s)))"

text \<open>\<open>projectionData\<close> stamps the moment of the write.\<close>

definition projectionData :: "int \<Rightarrow> BillingProjection \<Rightarrow> BillingProjection" where
  "projectionData now projection = projection\<lparr>bp_syncedAt := now\<rparr>"

text \<open>\<open>updateMany\<close> of the row of an organization whose source is not newer; answers the count.\<close>

definition updateIfNotNewer :: "BillingProjection \<Rightarrow> billing_store \<Rightarrow> nat \<times> billing_store" where
  "updateIfNotNewer data s =
     (let hit = (\<lambda>r. bp_organizationId r = bp_organizationId data \<and> bp_sourceUpdatedAt r \<le> bp_sourceUpdatedAt data)
      in (length (filter hit (projections s)),
          s\<lparr>projections := map (\<lambda>r. if hit r then data else r) (projections s)\<rparr>))"

definition createProjection :: "BillingProjection \<Rightarrow> billing_store \<Rightarrow> bool \<times> billing_store" where
  "createProjection data s =
     (if findBillingProjection (bp_organizationId data) s \<noteq> None then (False, s)
      else (True, s\<lparr>projections := projections s @ [data]\<rparr>))"

definition upsertBillingProjectionIfNewer ::
  "(billing_store \<Rightarrow> billing_store) \<times> (billing_store \<Rightarrow> billing_store) \<Rightarrow> int \<Rightarrow> BillingProjection \<Rightarrow>
   billing_store \<Rightarrow> bool \<times> billing_store" where
  "upsertBillingProjectionIfNewer others now projection s =
     (let data = projectionData now projection;
          (count, s1) = updateIfNotNewer data s
      in if 0 < count then (True, s1)
         else
           let (created, s2) = createProjection data (fst others s1)
           in if created then (True, s2)
              else let (retried, s3) = updateIfNotNewer data (snd others s2)
                   in (0 < retried, s3))"

section \<open>Reading a projection\<close>

definition state_word :: "WorkspaceBillingState \<Rightarrow> string" where
  "state_word st = (case st of
     st_active \<Rightarrow> ''active'' | st_canceled \<Rightarrow> ''canceled'' | st_free \<Rightarrow> ''free'' | st_past_due \<Rightarrow> ''past_due''
   | st_trialing \<Rightarrow> ''trialing'' | st_unavailable \<Rightarrow> ''unavailable'' | st_unconfigured \<Rightarrow> ''unconfigured'')"

definition projectedState :: "string \<Rightarrow> WorkspaceBillingState option" where
  "projectedState value =
     find (\<lambda>st. state_word st = value) [st_active, st_canceled, st_free, st_past_due, st_trialing, st_unavailable]"

definition freeBillingFromExpiredProjection :: "BillingProjection \<Rightarrow> WorkspaceBilling" where
  "freeBillingFromExpiredProjection projection =
     \<lparr>wb_accessAllowed = True, wb_entitlements = workspacePlanCatalog plan_free, wb_isFreeTrial = False,
      wb_periodEnd = None, wb_periodStart = None, wb_planId = None, wb_planKey = plan_free,
      wb_planName = ''Free'', wb_planSlug = Some ''free'', wb_sourceUpdatedAt = bp_sourceUpdatedAt projection,
      wb_state = st_free, wb_subscriptionId = bp_clerkSubscriptionId projection, wb_subscriptionItemId = None,
      wb_subscriptionItemStatus = None, wb_subscriptionStatus = bp_subscriptionStatus projection\<rparr>"

definition billingFromProjection :: "BillingProjection \<Rightarrow> string \<Rightarrow> int \<Rightarrow> rat \<Rightarrow> WorkspaceBilling" where
  "billingFromProjection projection paidPlanSlug now projectionMaxAgeMs =
     (if bp_state projection = ''canceled'' \<and> past (bp_periodEnd projection) now
      then freeBillingFromExpiredProjection projection
      else if bp_planSlug projection = Some paidPlanSlug \<and>
         (past (bp_periodEnd projection) now \<or> projectionMaxAgeMs < of_int (now - bp_syncedAt projection))
      then (unavailableBilling now)\<lparr>wb_sourceUpdatedAt := bp_sourceUpdatedAt projection\<rparr>
      else
        let state = (case projectedState (bp_state projection) of Some st \<Rightarrow> st | None \<Rightarrow> st_unavailable);
            planKey = (if bp_planSlug projection = Some paidPlanSlug then plan_v1_workspace
                       else if state = st_free then plan_free else plan_unknown);
            accessAllowed = opens_access planKey state
        in \<lparr>wb_accessAllowed = accessAllowed,
            wb_entitlements = workspacePlanCatalog (if accessAllowed then planKey else plan_unknown),
            wb_isFreeTrial = bp_isFreeTrial projection,
            wb_periodEnd = bp_periodEnd projection, wb_periodStart = bp_periodStart projection,
            wb_planId = bp_clerkPlanId projection, wb_planKey = planKey,
            wb_planName = (case bp_planName projection of Some n \<Rightarrow> n
              | None \<Rightarrow> if planKey = plan_free then ''Free'' else ''Billing unavailable''),
            wb_planSlug = bp_planSlug projection, wb_sourceUpdatedAt = bp_sourceUpdatedAt projection,
            wb_state = state, wb_subscriptionId = bp_clerkSubscriptionId projection,
            wb_subscriptionItemId = bp_subscriptionItemId projection,
            wb_subscriptionItemStatus = bp_subscriptionItemStatus projection,
            wb_subscriptionStatus = bp_subscriptionStatus projection\<rparr>)"

section \<open>The service\<close>

definition getWorkspaceBilling :: "BillingServiceOptions \<Rightarrow> string \<Rightarrow> int \<Rightarrow> billing_store \<Rightarrow> WorkspaceBilling" where
  "getWorkspaceBilling opts organizationId now s =
     (case resolveBillingRuntime (op_appEnv opts) (op_billingEnabled opts) of
        rt_unconfigured \<Rightarrow> unconfiguredBilling now
      | rt_unavailable \<Rightarrow> unavailableBilling now
      | rt_configured \<Rightarrow>
          (case findBillingProjection organizationId s of
             None \<Rightarrow> unavailableBilling now
           | Some projection \<Rightarrow>
               billingFromProjection projection (op_paidPlanSlug opts) now (op_projectionMaxAgeMs opts)))"

record workspace_overview =
  ov_billing :: WorkspaceBilling
  ov_candidateInterviewLimit :: int
  ov_publishedRoleLimit :: int
  ov_candidateInterviews :: int
  ov_publishedRoles :: int

definition getWorkspaceBillingOverview ::
  "BillingServiceOptions \<Rightarrow> string \<Rightarrow> int \<Rightarrow> billing_store \<Rightarrow> workspace_overview" where
  "getWorkspaceBillingOverview opts organizationId now s =
     (let billing = getWorkspaceBilling opts organizationId now s;
          (start, finish) = resolveBillingUsagePeriod billing now
      in \<lparr>ov_billing = billing,
          ov_candidateInterviewLimit = candidateInterviewLimit (wb_entitlements billing),
          ov_publishedRoleLimit = activeRoleLimit (wb_entitlements billing),
          ov_candidateInterviews = countCandidateInterviews organizationId (Some finish) (Some start) s,
          ov_publishedRoles = countPublishedRoles organizationId s\<rparr>)"

definition toProjection :: "string \<Rightarrow> WorkspaceBilling \<Rightarrow> int \<Rightarrow> BillingProjection" where
  "toProjection organizationId billing now =
     \<lparr>bp_organizationId = organizationId, bp_clerkPlanId = wb_planId billing,
      bp_clerkSubscriptionId = wb_subscriptionId billing, bp_isFreeTrial = wb_isFreeTrial billing,
      bp_periodEnd = wb_periodEnd billing, bp_periodStart = wb_periodStart billing,
      bp_planName = Some (wb_planName billing), bp_planSlug = wb_planSlug billing,
      bp_sourceUpdatedAt = wb_sourceUpdatedAt billing, bp_state = state_word (wb_state billing),
      bp_syncedAt = now, bp_subscriptionItemId = wb_subscriptionItemId billing,
      bp_subscriptionItemStatus = wb_subscriptionItemStatus billing,
      bp_subscriptionStatus = wb_subscriptionStatus billing\<rparr>"

datatype sync_result = SyncApplied | SyncRefused string

definition runtime_word :: "billing_runtime \<Rightarrow> string" where
  "runtime_word rt = (case rt of rt_configured \<Rightarrow> ''configured'' | rt_unavailable \<Rightarrow> ''unavailable''
     | rt_unconfigured \<Rightarrow> ''unconfigured'')"

definition syncClerkOrganizationBilling ::
  "BillingServiceOptions \<Rightarrow> (string \<Rightarrow> app_error + ClerkBillingSubscription) \<Rightarrow>
   (billing_store \<Rightarrow> billing_store) \<times> (billing_store \<Rightarrow> billing_store) \<Rightarrow> string \<Rightarrow> int option \<Rightarrow> int \<Rightarrow>
   (app_error, billing_store, sync_result) prog" where
  "syncClerkOrganizationBilling opts clerk others clerkOrganizationId sourceUpdatedAt now s =
     (let runtime = resolveBillingRuntime (op_appEnv opts) (op_billingEnabled opts)
      in if runtime \<noteq> rt_configured then (Inr (SyncRefused (''billing_'' @ runtime_word runtime)), s)
         else case truthy_id (findOrganizationIdByClerkId clerkOrganizationId s) of
                None \<Rightarrow> (Inr (SyncRefused ''organization_not_found''), s)
              | Some organizationId \<Rightarrow>
                  if (case (sourceUpdatedAt, findBillingProjection organizationId s) of
                        (Some t, Some current) \<Rightarrow> t \<le> bp_sourceUpdatedAt current
                      | _ \<Rightarrow> False)
                  then (Inr (SyncRefused ''stale_source_update''), s)
                  else case clerk clerkOrganizationId of
                         Inl e \<Rightarrow> (Inl e, s)
                       | Inr subscription \<Rightarrow>
                           let billing = normalizeBillingSubscription (Some (mapClerkBillingSubscription subscription))
                                 now (op_paidPlanSlug opts);
                               (applied, t) = upsertBillingProjectionIfNewer others now (toProjection organizationId billing now) s
                           in (Inr (if applied then SyncApplied else SyncRefused ''stale_source_update''), t))"

definition initializeFreeWorkspaceBilling ::
  "BillingServiceOptions \<Rightarrow> (billing_store \<Rightarrow> billing_store) \<times> (billing_store \<Rightarrow> billing_store) \<Rightarrow> string \<Rightarrow> int \<Rightarrow>
   billing_store \<Rightarrow> bool \<times> billing_store" where
  "initializeFreeWorkspaceBilling opts others organizationId now s =
     (if resolveBillingRuntime (op_appEnv opts) (op_billingEnabled opts) \<noteq> rt_configured then (False, s)
      else upsertBillingProjectionIfNewer others now
             \<lparr>bp_organizationId = organizationId, bp_clerkPlanId = None, bp_clerkSubscriptionId = None,
              bp_isFreeTrial = False, bp_periodEnd = None, bp_periodStart = None, bp_planName = Some ''Free'',
              bp_planSlug = Some ''free'', bp_sourceUpdatedAt = BOOTSTRAP_SOURCE_UPDATED_AT, bp_state = ''free'',
              bp_syncedAt = now, bp_subscriptionItemId = None, bp_subscriptionItemStatus = Some ''active'',
              bp_subscriptionStatus = Some ''active''\<rparr> s)"

section \<open>Its configuration\<close>

definition isEnabled :: "string option \<Rightarrow> bool" where
  "isEnabled value = ((case value of None \<Rightarrow> '''' | Some v \<Rightarrow> js_toLowerCase (js_trim v)) \<in> {''1'', ''true'', ''yes''})"

definition projectionMaxAgeMsFromEnv :: "string option \<Rightarrow> rat" where
  "projectionMaxAgeMsFromEnv value =
     (case js_Number value of
        Some seconds \<Rightarrow> if 0 < seconds then seconds * 1000 else of_int DEFAULT_PROJECTION_MAX_AGE_MS
      | None \<Rightarrow> of_int DEFAULT_PROJECTION_MAX_AGE_MS)"

definition billingServiceOptions :: "(string \<Rightarrow> string option) \<Rightarrow> BillingServiceOptions" where
  "billingServiceOptions env =
     \<lparr>op_appEnv = env ''NODE_ENV'',
      op_billingEnabled = (isEnabled (env ''CLERK_BILLING_ENABLED'') \<and> truthy (env ''CLERK_SECRET_KEY'')),
      op_paidPlanSlug = (case env ''CLERK_BILLING_V1_PLAN_SLUG'' of Some v \<Rightarrow> v | None \<Rightarrow> defaultPaidPlanSlug),
      op_projectionMaxAgeMs = projectionMaxAgeMsFromEnv (env ''CLERK_BILLING_PROJECTION_MAX_AGE_SECONDS'')\<rparr>"

section \<open>Writers of the table\<close>

definition store_ok :: "billing_store \<Rightarrow> bool" where
  "store_ok s \<longleftrightarrow> distinct (map bp_organizationId (projections s))"

definition newer :: "billing_store \<Rightarrow> billing_store \<Rightarrow> bool" where
  "newer s t \<longleftrightarrow> (\<forall>org r. findBillingProjection org s = Some r \<longrightarrow>
     (\<exists>q. findBillingProjection org t = Some q \<and> bp_sourceUpdatedAt r \<le> bp_sourceUpdatedAt q))"

lemma newer_refl: "newer s s"
  by (simp add: newer_def)

lemma newer_trans: "newer s t \<Longrightarrow> newer t u \<Longrightarrow> newer s u"
  unfolding newer_def by (meson order_trans)

text \<open>What any other writer of the projection table promises.\<close>

locale projection_writer =
  fixes writer :: "billing_store \<Rightarrow> billing_store"
  assumes keeps_ok: "store_ok s \<Longrightarrow> store_ok (writer s)"
    and keeps_newer: "store_ok s \<Longrightarrow> newer s (writer s)"

lemma map_hit_keys:
  "map bp_organizationId (map (\<lambda>r. if bp_organizationId r = bp_organizationId d \<and> P r then d else r) rs) = map bp_organizationId rs"
  by (induction rs) auto

lemma find_hit:
  assumes "distinct (map bp_organizationId rs)"
  shows "find_row bp_organizationId org (map (\<lambda>r. if bp_organizationId r = bp_organizationId d \<and> P r then d else r) rs) =
    (case find_row bp_organizationId org rs of None \<Rightarrow> None
     | Some r \<Rightarrow> Some (if org = bp_organizationId d \<and> P r then d else r))"
  using assms by (induction rs) (auto split: option.split)

lemma count_hit:
  assumes "distinct (map bp_organizationId rs)"
  shows "0 < length (filter (\<lambda>r. bp_organizationId r = bp_organizationId d \<and> P r) rs) \<longleftrightarrow>
    (\<exists>r. find_row bp_organizationId (bp_organizationId d) rs = Some r \<and> P r)"
  by (auto simp: find_row_iff [OF assms] filter_empty_conv)

lemma updateIfNotNewer_cases:
  assumes "store_ok s" and "updateIfNotNewer d s = (n, t)"
  shows "store_ok t \<and> newer s t \<and>
    (if \<exists>r. findBillingProjection (bp_organizationId d) s = Some r \<and> bp_sourceUpdatedAt r \<le> bp_sourceUpdatedAt d
     then 0 < n \<and> findBillingProjection (bp_organizationId d) t = Some d
     else n = 0 \<and> findBillingProjection (bp_organizationId d) t = findBillingProjection (bp_organizationId d) s)"
proof -
  let ?P = "\<lambda>r. bp_sourceUpdatedAt r \<le> bp_sourceUpdatedAt d"
  have n: "n = length (filter (\<lambda>r. bp_organizationId r = bp_organizationId d \<and> ?P r) (projections s))"
    and t: "t = s\<lparr>projections := map (\<lambda>r. if bp_organizationId r = bp_organizationId d \<and> ?P r then d else r) (projections s)\<rparr>"
    using assms(2) by (simp_all add: updateIfNotNewer_def Let_def)
  have ok: "distinct (map bp_organizationId (projections s))" using assms(1) by (simp add: store_ok_def)
  have "findBillingProjection org t = (case findBillingProjection org s of None \<Rightarrow> None
     | Some r \<Rightarrow> Some (if org = bp_organizationId d \<and> ?P r then d else r))" for org
    unfolding findBillingProjection_def t using find_hit [OF ok, of org d ?P] by simp
  moreover have "0 < n \<longleftrightarrow> (\<exists>r. findBillingProjection (bp_organizationId d) s = Some r \<and> ?P r)"
    unfolding n findBillingProjection_def by (rule count_hit [OF ok])
  moreover have "store_ok t"
    using ok map_hit_keys [of d ?P "projections s"] by (simp add: store_ok_def t del: map_map)
  ultimately show ?thesis by (auto simp: newer_def split: option.split)
qed

lemma createProjection_cases:
  assumes "store_ok s" and "createProjection d s = (c, t)"
  shows "store_ok t \<and> newer s t \<and>
    (if findBillingProjection (bp_organizationId d) s = None
     then c \<and> findBillingProjection (bp_organizationId d) t = Some d else \<not> c \<and> t = s)"
proof (cases "findBillingProjection (bp_organizationId d) s")
  case None
  then have t: "c" "t = s\<lparr>projections := projections s @ [d]\<rparr>" using assms(2) by (simp_all add: createProjection_def)
  have "bp_organizationId d \<notin> bp_organizationId ` set (projections s)"
    using None by (simp add: findBillingProjection_def find_row_None_iff)
  then have "store_ok t" using assms(1) by (simp add: store_ok_def t)
  moreover have "findBillingProjection org t = (case findBillingProjection org s of Some r \<Rightarrow> Some r
      | None \<Rightarrow> if bp_organizationId d = org then Some d else None)" for org
    by (simp add: findBillingProjection_def t find_row_append split: option.split)
  ultimately show ?thesis using t None by (auto simp: newer_def)
next
  case (Some r)
  then show ?thesis using assms by (simp add: createProjection_def newer_refl)
qed

lemma upsert_cases:
  assumes "projection_writer w1" and "projection_writer w2" and ok: "store_ok s"
    and run: "upsertBillingProjectionIfNewer (w1, w2) now projection s = (applied, t)"
  shows "store_ok t \<and> newer s t \<and>
    (if applied then findBillingProjection (bp_organizationId projection) t = Some (projectionData now projection)
     else \<exists>r. findBillingProjection (bp_organizationId projection) t = Some r \<and>
       bp_sourceUpdatedAt projection < bp_sourceUpdatedAt r)"
proof -
  let ?d = "projectionData now projection" and ?org = "bp_organizationId projection"
  have d: "bp_organizationId ?d = ?org" "bp_sourceUpdatedAt ?d = bp_sourceUpdatedAt projection"
    by (simp_all add: projectionData_def)
  obtain n s1 where first: "updateIfNotNewer ?d s = (n, s1)" by (metis surj_pair)
  note u1 = updateIfNotNewer_cases [OF ok first, unfolded d]
  show ?thesis
  proof (cases "0 < n")
    case True
    then show ?thesis using run first u1 by (auto simp: upsertBillingProjectionIfNewer_def Let_def split: if_splits)
  next
    case False
    have ok1: "store_ok (w1 s1)" "newer s (w1 s1)"
      using u1 projection_writer.keeps_ok [OF assms(1)] projection_writer.keeps_newer [OF assms(1)] newer_trans by blast+
    obtain c s2 where made: "createProjection ?d (w1 s1) = (c, s2)" by (metis surj_pair)
    note c = createProjection_cases [OF ok1(1) made, unfolded d]
    show ?thesis
    proof (cases c)
      case True
      then show ?thesis
        using run first made False c ok1(2) newer_trans
        by (auto simp: upsertBillingProjectionIfNewer_def Let_def split: if_splits)
    next
      case lost: False
      have ok2: "store_ok (w2 s2)" "newer s2 (w2 s2)"
        using c projection_writer.keeps_ok [OF assms(2)] projection_writer.keeps_newer [OF assms(2)] by blast+
      obtain k s3 where again: "updateIfNotNewer ?d (w2 s2) = (k, s3)" by (metis surj_pair)
      note u2 = updateIfNotNewer_cases [OF ok2(1) again, unfolded d]
      have t: "applied = (0 < k)" "t = s3"
        using run first made again False lost by (simp_all add: upsertBillingProjectionIfNewer_def Let_def)
      have "\<exists>r. findBillingProjection ?org s2 = Some r" using c lost by (auto split: if_splits)
      then obtain q where "findBillingProjection ?org (w2 s2) = Some q" using ok2(2) by (auto simp: newer_def)
      moreover have "newer s s3" using c ok1(2) ok2(2) u2 newer_trans by blast
      ultimately show ?thesis using u2 t by (auto split: if_splits)
    qed
  qed
qed

text \<open>The upsert is itself a writer that keeps the promise, so any number of them may overlap.\<close>

lemma upsert_writer:
  assumes "projection_writer w1" and "projection_writer w2"
  shows "projection_writer (\<lambda>s. snd (upsertBillingProjectionIfNewer (w1, w2) now projection s))"
  by unfold_locales (use upsert_cases [OF assms _ surjective_pairing] in blast)+

interpretation idle: projection_writer "\<lambda>s. s"
  by unfold_locales (simp_all add: newer_refl)

interpretation rival: projection_writer "\<lambda>s. snd (upsertBillingProjectionIfNewer (\<lambda>s. s, \<lambda>s. s) now projection s)"
  by (rule upsert_writer) (rule idle.projection_writer_axioms)+

text \<open>
  C11: a stale update never overwrites a newer one. Whatever another upsert does between the
  statements of this one, no organization's row ever gets an older source or disappears; the
  call answers \<open>true\<close> exactly with its own projection stored, and \<open>false\<close> only when a strictly
  newer one is there.
\<close>
theorem projection_upsert_keeps_newest:
  assumes "store_ok s"
    and "upsertBillingProjectionIfNewer
      (\<lambda>s. snd (upsertBillingProjectionIfNewer (\<lambda>s. s, \<lambda>s. s) now1 other1 s),
       \<lambda>s. snd (upsertBillingProjectionIfNewer (\<lambda>s. s, \<lambda>s. s) now2 other2 s)) now projection s = (applied, t)"
  shows "store_ok t \<and>
    (\<forall>org r. findBillingProjection org s = Some r \<longrightarrow>
       (\<exists>q. findBillingProjection org t = Some q \<and> bp_sourceUpdatedAt r \<le> bp_sourceUpdatedAt q)) \<and>
    (if applied then findBillingProjection (bp_organizationId projection) t = Some (projectionData now projection)
     else \<exists>r. findBillingProjection (bp_organizationId projection) t = Some r \<and>
       bp_sourceUpdatedAt projection < bp_sourceUpdatedAt r)"
  using upsert_cases [OF rival.projection_writer_axioms rival.projection_writer_axioms assms] by (simp add: newer_def)

definition demo_projection :: BillingProjection where
  "demo_projection = toProjection ''org'' (normalizeBillingSubscription (Some demo_subscription) 50 ''v1-workspace'') 50"

definition demo_store :: billing_store where
  "demo_store = \<lparr>projections = [demo_projection], candidate_sessions = [], jobs = [], organizations = [(''org'', ''ck_1'')]\<rparr>"

lemma demo_source: "bp_organizationId demo_projection = ''org''" "bp_sourceUpdatedAt demo_projection = 20"
  by (simp add: demo_projection_def toProjection_def) code_simp

theorem projection_upsert_keeps_newest_witness:
  "\<exists>t. upsertBillingProjectionIfNewer
      (\<lambda>s. snd (upsertBillingProjectionIfNewer (\<lambda>s. s, \<lambda>s. s) 1 demo_projection s),
       \<lambda>s. snd (upsertBillingProjectionIfNewer (\<lambda>s. s, \<lambda>s. s) 2 demo_projection s)) 60
      (demo_projection\<lparr>bp_sourceUpdatedAt := 3\<rparr>) demo_store = (False, t) \<and>
    (\<exists>r. findBillingProjection ''org'' t = Some r \<and> 3 < bp_sourceUpdatedAt r)"
proof -
  let ?run = "upsertBillingProjectionIfNewer
      (\<lambda>s. snd (upsertBillingProjectionIfNewer (\<lambda>s. s, \<lambda>s. s) 1 demo_projection s),
       \<lambda>s. snd (upsertBillingProjectionIfNewer (\<lambda>s. s, \<lambda>s. s) 2 demo_projection s)) 60
      (demo_projection\<lparr>bp_sourceUpdatedAt := 3\<rparr>) demo_store"
  have ok: "store_ok demo_store" by (simp add: store_ok_def demo_store_def)
  have no: "\<not> fst ?run"
    by (simp add: upsertBillingProjectionIfNewer_def updateIfNotNewer_def createProjection_def projectionData_def
        findBillingProjection_def demo_store_def demo_source Let_def)
  obtain applied t where run: "?run = (applied, t)" by (metis surj_pair)
  then have "\<not> applied" using no by simp
  then show ?thesis using projection_upsert_keeps_newest [OF ok run] run by (auto simp: demo_source)
qed

section \<open>Reading what was written\<close>

lemma projectedState_word:
  "projectedState (state_word st) = (if st = st_unconfigured then None else Some st)"
  by (cases st) (simp_all add: projectedState_def state_word_def)

lemma stateOf_never_unconfigured: "stateOf subscription key item now \<noteq> st_unconfigured"
  by (simp add: stateOf_def Let_def)

lemma stateOf_free: "stateOf subscription key item now = st_free \<Longrightarrow> key = plan_free"
  by (simp add: stateOf_def Let_def split: if_splits)

lemma stateOf_active: "stateOf subscription key item now = st_active \<Longrightarrow> key = plan_v1_workspace"
  by (simp add: stateOf_def Let_def split: if_splits)



text \<open>
  paid access always rests on a fresh, running projection. If the service grants the paid
  plan's entitlements, billing is configured and the organization has a projection of the paid
  plan, in a live state, whose period is not over and which was synced within the allowed age.
\<close>
theorem paid_access_is_fresh:
  assumes "getWorkspaceBilling opts org now s = b" and "wb_accessAllowed b" and "wb_planKey b = plan_v1_workspace"
  shows "op_billingEnabled opts \<and> (\<exists>p. findBillingProjection org s = Some p \<and>
    bp_planSlug p = Some (op_paidPlanSlug opts) \<and> bp_state p \<in> {''active'', ''canceled'', ''free'', ''trialing''} \<and>
    \<not> past (bp_periodEnd p) now \<and> of_int (now - bp_syncedAt p) \<le> op_projectionMaxAgeMs opts)"
  using assms
  by (auto simp: getWorkspaceBilling_def resolveBillingRuntime_def unconfiguredBilling_def unavailableBilling_def
      billingFromProjection_def freeBillingFromExpiredProjection_def Let_def opens_access_def projectedState_def
      state_word_def split: if_splits option.splits)

theorem paid_access_is_fresh_witness:
  "\<exists>p. findBillingProjection ''org'' demo_store = Some p \<and> \<not> past (bp_periodEnd p) 60"
proof -
  let ?o = "\<lparr>op_appEnv = Some ''production'', op_billingEnabled = True, op_paidPlanSlug = ''v1-workspace'',
     op_projectionMaxAgeMs = 1000\<rparr>"
  have "wb_accessAllowed (getWorkspaceBilling ?o ''org'' 60 demo_store)"
    "wb_planKey (getWorkspaceBilling ?o ''org'' 60 demo_store) = plan_v1_workspace"
    by code_simp+
  from paid_access_is_fresh [OF refl this] show ?thesis by auto
qed

text \<open>
  production fails closed. With billing switched off in production, or with no projection
  for the organization, every feature at every usage is denied as unavailable; a missing
  configuration never reads as unlimited.
\<close>
theorem production_fails_closed:
  assumes "op_appEnv opts = Some ''production''"
    and "\<not> op_billingEnabled opts \<or> findBillingProjection org s = None"
  shows "\<exists>limit. evaluateWorkspaceEntitlement (getWorkspaceBilling opts org now s) feature usage =
    Denied billing_unavailable limit usage"
  using assms
  by (auto simp: getWorkspaceBilling_def resolveBillingRuntime_def unavailableBilling_def evaluateWorkspaceEntitlement_def)

theorem production_fails_closed_witness:
  "\<exists>limit. evaluateWorkspaceEntitlement (getWorkspaceBilling (billingServiceOptions [''NODE_ENV'' \<mapsto> ''production''])
     ''org'' 60 demo_store) candidate_interviews 0 = Denied billing_unavailable limit 0"
  by (rule production_fails_closed) (simp_all add: billingServiceOptions_def isEnabled_def)

end
