(* ===== verification/CandidateLifecycle.thy ===== *)
theory CandidateLifecycle
  imports JsText
begin

text \<open>
  A candidate's path through an interview: \<open>packages/core/src/domain/candidate-lifecycle.ts\<close>,
  the consent versions of \<open>policies/ai.ts\<close>, and the recording flag of
  \<open>policies/recording.ts\<close>. Status words that are property names of every JavaScript object
  (such as \<open>constructor\<close>) do not occur in the status column and are not modelled.
\<close>

section \<open>Statuses\<close>

datatype CandidateLifecycleStatus =
    invited | opened | consent_required | ready | starting | in_progress | reconnecting
  | completed | abandoned | failed | expired | superseded

definition candidateLifecycleStatuses :: "(string \<times> CandidateLifecycleStatus) list" where
  "candidateLifecycleStatuses =
     [(''invited'', invited), (''opened'', opened), (''consent_required'', consent_required),
      (''ready'', ready), (''starting'', starting), (''in_progress'', in_progress),
      (''reconnecting'', reconnecting), (''completed'', completed), (''abandoned'', abandoned),
      (''failed'', failed), (''expired'', expired), (''superseded'', superseded)]"

definition candidateLifecycleTerminalStatuses :: "CandidateLifecycleStatus list" where
  "candidateLifecycleTerminalStatuses = [completed, expired, superseded]"

definition candidateLifecycleActiveStatuses :: "CandidateLifecycleStatus list" where
  "candidateLifecycleActiveStatuses = [starting, in_progress, reconnecting]"

definition candidateLifecycleLegacyStatusMap :: "(string \<times> CandidateLifecycleStatus) list" where
  "candidateLifecycleLegacyStatusMap =
     [(''agent_joining'', starting), (''created'', invited), (''paused'', reconnecting),
      (''started'', starting), (''waiting_candidate'', starting)]"

datatype CandidateLifecycleEvent =
    open_link | require_consent | confirm_ready | accept_consent | start | mark_in_progress
  | disconnect | recover | complete | abandon | fail | expire | retry | supersede

definition lifecycleTransitions ::
  "CandidateLifecycleStatus \<Rightarrow> CandidateLifecycleEvent \<Rightarrow> CandidateLifecycleStatus option" where
  "lifecycleTransitions status event =
     (case status of
        abandoned \<Rightarrow> (case event of retry \<Rightarrow> Some ready | supersede \<Rightarrow> Some superseded | _ \<Rightarrow> None)
      | completed \<Rightarrow> None
      | consent_required \<Rightarrow> (case event of accept_consent \<Rightarrow> Some ready | expire \<Rightarrow> Some expired | _ \<Rightarrow> None)
      | expired \<Rightarrow> None
      | failed \<Rightarrow> (case event of retry \<Rightarrow> Some ready | supersede \<Rightarrow> Some superseded | _ \<Rightarrow> None)
      | in_progress \<Rightarrow> (case event of abandon \<Rightarrow> Some abandoned | complete \<Rightarrow> Some completed
          | disconnect \<Rightarrow> Some reconnecting | fail \<Rightarrow> Some failed | _ \<Rightarrow> None)
      | invited \<Rightarrow> (case event of expire \<Rightarrow> Some expired | open_link \<Rightarrow> Some opened | _ \<Rightarrow> None)
      | opened \<Rightarrow> (case event of confirm_ready \<Rightarrow> Some ready | expire \<Rightarrow> Some expired
          | require_consent \<Rightarrow> Some consent_required | _ \<Rightarrow> None)
      | ready \<Rightarrow> (case event of expire \<Rightarrow> Some expired | start \<Rightarrow> Some starting | _ \<Rightarrow> None)
      | reconnecting \<Rightarrow> (case event of abandon \<Rightarrow> Some abandoned | fail \<Rightarrow> Some failed
          | recover \<Rightarrow> Some in_progress | _ \<Rightarrow> None)
      | starting \<Rightarrow> (case event of abandon \<Rightarrow> Some abandoned | fail \<Rightarrow> Some failed
          | mark_in_progress \<Rightarrow> Some in_progress | _ \<Rightarrow> None)
      | superseded \<Rightarrow> None)"

definition isCandidateLifecycleStatus :: "string option \<Rightarrow> bool" where
  "isCandidateLifecycleStatus value =
     (case value of None \<Rightarrow> False | Some v \<Rightarrow> v \<in> fst ` set candidateLifecycleStatuses)"

definition normalizeCandidateLifecycleStatus :: "string option \<Rightarrow> CandidateLifecycleStatus option" where
  "normalizeCandidateLifecycleStatus value =
     (case value of
        None \<Rightarrow> None
      | Some v \<Rightarrow>
          if v = [] then None
          else if isCandidateLifecycleStatus (Some v) then map_of candidateLifecycleStatuses v
          else map_of candidateLifecycleLegacyStatusMap v)"

datatype transition_error = invalid_transition | unknown_status

definition transitionCandidateLifecycle ::
  "string option \<Rightarrow> CandidateLifecycleEvent \<Rightarrow> transition_error + CandidateLifecycleStatus" where
  "transitionCandidateLifecycle currentStatus event =
     (case normalizeCandidateLifecycleStatus currentStatus of
        None \<Rightarrow> Inl unknown_status
      | Some status \<Rightarrow>
          (case lifecycleTransitions status event of
             None \<Rightarrow> Inl invalid_transition
           | Some nextStatus \<Rightarrow> Inr nextStatus))"

definition canTransitionCandidateLifecycle :: "string option \<Rightarrow> CandidateLifecycleEvent \<Rightarrow> bool" where
  "canTransitionCandidateLifecycle currentStatus event =
     (case transitionCandidateLifecycle currentStatus event of Inl _ \<Rightarrow> False | Inr _ \<Rightarrow> True)"

section \<open>Consent\<close>

definition candidateConsentCopyV3Version :: string where
  "candidateConsentCopyV3Version = ''candidate-consent-v3''"

definition candidateConsentCopyV3NoRecordingVersion :: string where
  "candidateConsentCopyV3NoRecordingVersion = ''candidate-consent-v3-no-recording''"

definition audioRecordingConsentCopyVersions :: "string list" where
  "audioRecordingConsentCopyVersions = [''candidate-consent-v2'', ''candidate-consent-v3'']"

definition validCandidateConsentCopyVersions :: "string list" where
  "validCandidateConsentCopyVersions =
     [''candidate-consent-v2'', ''candidate-consent-v3'', ''candidate-consent-v3-no-recording'']"

datatype GeneratedContentLanguage = lang_en | lang_fr

record CandidateCopySelection =
  copy_text :: string
  copy_version :: string

text \<open>The statutory texts themselves are parameters: English and French, with and without recording.\<close>

record consent_copies =
  v3_en :: string
  v3_fr :: string
  v3_no_recording_en :: string
  v3_no_recording_fr :: string

definition candidateConsentCopyFor ::
  "consent_copies \<Rightarrow> GeneratedContentLanguage \<Rightarrow> bool \<Rightarrow> CandidateCopySelection" where
  "candidateConsentCopyFor copies language recordingActive =
     (if recordingActive
      then \<lparr>copy_text = (if language = lang_fr then v3_fr copies else v3_en copies),
            copy_version = candidateConsentCopyV3Version\<rparr>
      else \<lparr>copy_text = (if language = lang_fr then v3_no_recording_fr copies else v3_no_recording_en copies),
            copy_version = candidateConsentCopyV3NoRecordingVersion\<rparr>)"

datatype CandidateConsentGateResult = ConsentAccepted | ConsentMissing | ConsentOutdated

definition resolveCandidateConsentGate ::
  "string option \<Rightarrow> string option \<Rightarrow> string list option \<Rightarrow> CandidateConsentGateResult" where
  "resolveCandidateConsentGate consentCopyVersion consentedAt requiredConsentCopyVersion =
     (if \<not> truthy consentedAt \<or> \<not> truthy consentCopyVersion then ConsentMissing
      else
        let accepted = (case requiredConsentCopyVersion of None \<Rightarrow> validCandidateConsentCopyVersions | Some vs \<Rightarrow> vs)
        in if consentCopyVersion \<notin> Some ` set accepted then ConsentOutdated else ConsentAccepted)"

definition consentGateStatus :: "CandidateConsentGateResult \<Rightarrow> CandidateLifecycleStatus" where
  "consentGateStatus gate = (case gate of ConsentAccepted \<Rightarrow> ready | _ \<Rightarrow> consent_required)"

definition recordingEnabledTruthyValues :: "string list" where
  "recordingEnabledTruthyValues = [''1'', ''true'', ''yes'']"

definition parseRecordingEnabled :: "string option \<Rightarrow> bool" where
  "parseRecordingEnabled value =
     (let normalized = js_toLowerCase (js_trim (case value of None \<Rightarrow> '''' | Some v \<Rightarrow> v))
      in list_ex (\<lambda>accepted. accepted = normalized) recordingEnabledTruthyValues)"

section \<open>Starting and mirroring the runtime\<close>

datatype start_rejection = rejected_completed | rejected_expired | rejected_superseded | rejected_unknown

datatype CandidateStartPolicy =
  StartNewAttempt | ResumeSameAttempt | RetryNewAttempt | RejectStart start_rejection

definition resolveCandidateStartPolicy :: "string option \<Rightarrow> CandidateStartPolicy" where
  "resolveCandidateStartPolicy currentStatus =
     (case normalizeCandidateLifecycleStatus currentStatus of
        None \<Rightarrow> RejectStart rejected_unknown
      | Some status \<Rightarrow>
          if status = completed then RejectStart rejected_completed
          else if status = expired then RejectStart rejected_expired
          else if status = superseded then RejectStart rejected_superseded
          else if status = failed \<or> status = abandoned then RetryNewAttempt
          else if status = starting \<or> status = in_progress \<or> status = reconnecting \<or> status = ready
          then ResumeSameAttempt
          else StartNewAttempt)"

definition mapRealtimeStatusToCandidateLifecycleStatus :: "string option \<Rightarrow> CandidateLifecycleStatus" where
  "mapRealtimeStatusToCandidateLifecycleStatus realtimeStatus =
     (if realtimeStatus = Some ''completed'' then completed
      else if realtimeStatus = Some ''failed'' then failed
      else if realtimeStatus = Some ''expired'' then expired
      else if realtimeStatus = Some ''in_progress'' then in_progress
      else if realtimeStatus = Some ''paused'' then reconnecting
      else starting)"

section \<open>Runs of the state machine\<close>

definition status_name :: "CandidateLifecycleStatus \<Rightarrow> string" where
  "status_name st = fst (the (find (\<lambda>p. snd p = st) candidateLifecycleStatuses))"

lemma normalize_status_name [simp]: "normalizeCandidateLifecycleStatus (Some (status_name st)) = Some st"
  by (cases st) (simp_all add: status_name_def normalizeCandidateLifecycleStatus_def isCandidateLifecycleStatus_def
      candidateLifecycleStatuses_def)

text \<open>A run applies events to the stored status word, as the services do.\<close>

inductive lifecycle_run :: "CandidateLifecycleStatus \<Rightarrow> CandidateLifecycleEvent list \<Rightarrow> CandidateLifecycleStatus \<Rightarrow> bool" where
  run_nil: "lifecycle_run st [] st"
| run_step: "lifecycle_run st es mid \<Longrightarrow> transitionCandidateLifecycle (Some (status_name mid)) e = Inr st' \<Longrightarrow>
    lifecycle_run st (es @ [e]) st'"

lemma transition_table:
  "transitionCandidateLifecycle (Some (status_name mid)) e = Inr st' \<longleftrightarrow> lifecycleTransitions mid e = Some st'"
  by (simp add: transitionCandidateLifecycle_def split: option.split)

text \<open>
  the end is the end. The terminal statuses are exactly those that no event leaves, and
  exactly those on which a new start is rejected.
\<close>
theorem terminal_statuses_are_final:
  "(st \<in> set candidateLifecycleTerminalStatuses) =
     (\<nexists>e st'. transitionCandidateLifecycle (Some (status_name st)) e = Inr st') \<and>
   (st \<in> set candidateLifecycleTerminalStatuses) =
     (\<exists>why. resolveCandidateStartPolicy (Some (status_name st)) = RejectStart why)"
proof -
  have dead: "(st \<in> {completed, expired, superseded}) = (\<forall>e. lifecycleTransitions st e = None)"
  proof (cases st)
    case invited
    then show ?thesis by (auto simp: lifecycleTransitions_def intro: exI [of _ open_link])
  next
    case opened
    then show ?thesis by (auto simp: lifecycleTransitions_def intro: exI [of _ confirm_ready])
  next
    case consent_required
    then show ?thesis by (auto simp: lifecycleTransitions_def intro: exI [of _ accept_consent])
  next
    case ready
    then show ?thesis by (auto simp: lifecycleTransitions_def intro: exI [of _ start])
  next
    case reconnecting
    then show ?thesis by (auto simp: lifecycleTransitions_def intro: exI [of _ recover])
  next
    case starting
    then show ?thesis by (auto simp: lifecycleTransitions_def intro: exI [of _ fail])
  next
    case in_progress
    then show ?thesis by (auto simp: lifecycleTransitions_def intro: exI [of _ fail])
  next
    case abandoned
    then show ?thesis by (auto simp: lifecycleTransitions_def intro: exI [of _ retry])
  next
    case failed
    then show ?thesis by (auto simp: lifecycleTransitions_def intro: exI [of _ retry])
  qed (auto simp: lifecycleTransitions_def)
  have "(\<exists>e st'. lifecycleTransitions st e = Some st') = (\<not> (\<forall>e. lifecycleTransitions st e = None))"
    by auto
  moreover have "(st \<in> {completed, expired, superseded}) =
      (\<exists>why. resolveCandidateStartPolicy (Some (status_name st)) = RejectStart why)"
    by (simp add: resolveCandidateStartPolicy_def)
  ultimately show ?thesis using dead by (simp add: candidateLifecycleTerminalStatuses_def transition_table)
qed


lemma demo_run: "lifecycle_run invited [open_link, confirm_ready, start, mark_in_progress] in_progress"
proof -
  note step = lifecycle_run.run_step [unfolded transition_table]
  have "lifecycle_run invited ([] @ [open_link]) opened" by (rule step [OF run_nil]) (simp add: lifecycleTransitions_def)
  then have "lifecycle_run invited (([] @ [open_link]) @ [confirm_ready]) ready"
    by (rule step) (simp add: lifecycleTransitions_def)
  then have "lifecycle_run invited ((([] @ [open_link]) @ [confirm_ready]) @ [start]) starting"
    by (rule step) (simp add: lifecycleTransitions_def)
  then have "lifecycle_run invited (((([] @ [open_link]) @ [confirm_ready]) @ [start]) @ [mark_in_progress]) in_progress"
    by (rule step) (simp add: lifecycleTransitions_def)
  then show ?thesis by simp
qed


text \<open>
  no candidate can be recorded who was not told. Whatever the deployment flag says and
  whatever the language, the consent text shown and the version stamped go together: the
  version authorizes audio exactly when the flag is on, and in every case it is one that the
  consent gate accepts once a moment of consent is stamped.
\<close>
theorem consent_matches_recording:
  "let copy = candidateConsentCopyFor copies language (parseRecordingEnabled flag) in
    (copy_version copy \<in> set audioRecordingConsentCopyVersions) = parseRecordingEnabled flag \<and>
    copy_text copy = (if parseRecordingEnabled flag
       then (if language = lang_fr then v3_fr copies else v3_en copies)
       else (if language = lang_fr then v3_no_recording_fr copies else v3_no_recording_en copies)) \<and>
    resolveCandidateConsentGate (Some (copy_version copy)) (Some (CHR ''2'' # rest)) None = ConsentAccepted"
  by (simp add: candidateConsentCopyFor_def Let_def audioRecordingConsentCopyVersions_def
      candidateConsentCopyV3Version_def candidateConsentCopyV3NoRecordingVersion_def
      resolveCandidateConsentGate_def validCandidateConsentCopyVersions_def)

end
