(* ===== verification/JsJson.thy ===== *)
theory JsJson
  imports JsText
begin

text \<open>
  JSON columns and payloads: what \<open>JSON.parse\<close> can answer. Numbers are exact rationals (every
  finite double is one); an object is its list of members, where the first of a key counts.
\<close>

datatype json =
    JNull
  | JBool bool
  | JNumber rat
  | JString string
  | JArray "json list"
  | JObject "(string \<times> json) list"

text \<open>\<open>record[key]\<close>; \<open>None\<close> is \<open>undefined\<close>.\<close>

definition json_member :: "(string \<times> json) list \<Rightarrow> string \<Rightarrow> json option" where
  "json_member members key = map_of members key"

text \<open>\<open>Array.isArray(value) ? value.length : 0\<close>\<close>

definition json_length :: "json \<Rightarrow> int" where
  "json_length v = (case v of JArray xs \<Rightarrow> int (length xs) | _ \<Rightarrow> 0)"

end
