(* ===== verification/CandidateCredits.thy ===== *)
theory CandidateCredits
  imports Effects StripePurchase BillingService BillableCompletion JsJson "HOL-Library.AList"
begin

text \<open>
  Candidate admission and settlement: \<open>apps/candidate/src/server/billing-admission.ts\<close> and
  \<open>credit-settlement.ts\<close>. A session is a row; starting or resuming it takes a credit, its end
  settles it. The ledger calls are the dependencies the source injects: a record of functions,
  and the contract the handlers rely on is a locale, interpreted on the ledger itself.
\<close>

section \<open>State\<close>

text \<open>
  The columns of \<open>CandidateSession\<close> the two files read or write. \<open>se_questions\<close> is the joined
  \<open>interview.questions\<close>; the remaining columns of the create and update data are not read here.
\<close>

record CandidateSession =
  se_id :: string
  se_organizationId :: string
  se_realtimeSessionId :: "string option"
  se_recordingEntitled :: bool
  se_status :: string
  se_startedAt :: "int option"
  se_billedAnsweredCount :: "int option"
  se_billedRequiredCount :: "int option"
  se_billedOutcome :: "string option"
  se_questions :: json

record LiveInterviewEvent =
  le_sessionId :: string
  le_type :: string
  le_sequenceNumber :: int
  le_payload :: json

record candidate_db =
  books :: credit_db
  candidateSession :: "CandidateSession list"
  liveInterviewEvent :: "LiveInterviewEvent list"

datatype candidate_error =
    LedgerFault ledger_error
  | PrismaCode string
  | OtherFault string

type_synonym 'a candidate_prog = "(candidate_error, candidate_db, 'a) prog"

text \<open>The calls of the ledger the two files are handed.\<close>

record credit_calls =
  reserveCredit :: "string \<Rightarrow> string \<Rightarrow> int \<Rightarrow> credit_db \<Rightarrow> (ledger_error + ReserveCreditResult) \<times> credit_db"
  captureCredit :: "string \<Rightarrow> string \<Rightarrow> int \<Rightarrow> credit_db \<Rightarrow> (ledger_error + CaptureReservationResult) \<times> credit_db"
  releaseCredit :: "string \<Rightarrow> string \<Rightarrow> int \<Rightarrow> string \<Rightarrow> credit_db \<Rightarrow>
    (ledger_error + ReleaseReservationResult) \<times> credit_db"

definition defaultCalls :: "faults \<times> faults \<Rightarrow> fresh_ids \<Rightarrow> credit_calls" where
  "defaultCalls flt ids = \<lparr>
     reserveCredit = reserveCreditForSession flt ids,
     captureCredit = captureReservationForSession (snd flt),
     releaseCredit = releaseReservationForSession (snd flt)\<rparr>"

definition on_books :: "(credit_db \<Rightarrow> (ledger_error + 'a) \<times> credit_db) \<Rightarrow> 'a candidate_prog" where
  "on_books call s =
     (case call (books s) of
        (Inl e, d) \<Rightarrow> (Inl (LedgerFault e), s\<lparr>books := d\<rparr>)
      | (Inr a, d) \<Rightarrow> (Inr a, s\<lparr>books := d\<rparr>))"

text \<open>Which of the direct database calls fail, and with what; \<open>tx_fault\<close> is per attempt.\<close>

record db_faults =
  read_fault :: "candidate_error option"
  create_fault :: "candidate_error option"
  update_fault :: "candidate_error option"
  delete_fault :: "candidate_error option"
  tx_fault :: "nat \<Rightarrow> candidate_error option"

definition calm :: db_faults where
  "calm = \<lparr>read_fault = None, create_fault = None, update_fault = None, delete_fault = None,
     tx_fault = (\<lambda>_. None)\<rparr>"

definition may_fail :: "candidate_error option \<Rightarrow> 'a candidate_prog \<Rightarrow> 'a candidate_prog" where
  "may_fail f m = (case f of None \<Rightarrow> m | Some e \<Rightarrow> prog_throw e)"

section \<open>Session rows\<close>

definition findSession :: "string \<Rightarrow> candidate_db \<Rightarrow> CandidateSession option" where
  "findSession k s = find_row se_id k (candidateSession s)"

text \<open>\<open>create\<close>: the id and a runtime session are unique.\<close>

definition createSession :: "CandidateSession \<Rightarrow> CandidateSession candidate_prog" where
  "createSession data s =
     (if findSession (se_id data) s \<noteq> None \<or>
         (se_realtimeSessionId data \<noteq> None \<and> se_realtimeSessionId data \<in> se_realtimeSessionId ` set (candidateSession s))
      then (Inl (PrismaCode ''P2002''), s)
      else (Inr data, s\<lparr>candidateSession := candidateSession s @ [data]\<rparr>))"

definition updateSession :: "string \<Rightarrow> (CandidateSession \<Rightarrow> CandidateSession) \<Rightarrow> CandidateSession candidate_prog" where
  "updateSession k f s =
     (case findSession k s of None \<Rightarrow> (Inl (PrismaCode ''P2025''), s)
      | Some row \<Rightarrow> (Inr (f row), s\<lparr>candidateSession := update_row se_id k f (candidateSession s)\<rparr>))"

definition deleteSession :: "string \<Rightarrow> unit candidate_prog" where
  "deleteSession k s =
     (if findSession k s = None then (Inl (PrismaCode ''P2025''), s)
      else (Inr (), s\<lparr>candidateSession := filter (\<lambda>c. se_id c \<noteq> k) (candidateSession s)\<rparr>))"

section \<open>Admission\<close>

type_synonym billing_loader = "string \<Rightarrow> int \<Rightarrow> candidate_error + WorkspaceBilling"

datatype admission_refusal = candidate_interview_limit_reached | admission_billing_unavailable

datatype admission = Admitted CandidateSession | NotAdmitted admission_refusal

definition recordingAllowed :: "WorkspaceBilling \<Rightarrow> bool" where
  "recordingAllowed billing =
     (case evaluateWorkspaceEntitlement billing feature_recording 0 of Allowed _ _ \<Rightarrow> True | Denied _ _ _ \<Rightarrow> False)"

text \<open>The count query: a null start is in no period.\<close>

definition countPeriodSessions :: "string \<Rightarrow> int \<times> int \<Rightarrow> candidate_db \<Rightarrow> int" where
  "countPeriodSessions organizationId period s =
     int (length (filter (\<lambda>c. se_organizationId c = organizationId \<and>
       (case se_startedAt c of None \<Rightarrow> False | Some t \<Rightarrow> fst period \<le> t \<and> t < snd period) \<and>
       (se_status c \<noteq> ''failed'' \<or> se_realtimeSessionId c \<noteq> None)) (candidateSession s)))"

text \<open>The transaction of the subscription path.\<close>

definition admitTx :: "db_faults \<Rightarrow> CandidateSession \<Rightarrow> string \<Rightarrow> WorkspaceBilling \<Rightarrow> int \<times> int \<Rightarrow> admission candidate_prog" where
  "admitTx flt data organizationId billing period =
     prog_bind (prog_get (countPeriodSessions organizationId period)) (\<lambda>usage.
       case evaluateWorkspaceEntitlement billing candidate_interviews usage of
         Denied code _ _ \<Rightarrow> prog_return (NotAdmitted (if code = usage_limit_reached
           then candidate_interview_limit_reached else admission_billing_unavailable))
       | Allowed _ _ \<Rightarrow>
           prog_bind (may_fail (create_fault flt)
               (createSession (data\<lparr>se_recordingEntitled := recordingAllowed billing\<rparr>)))
             (\<lambda>session. prog_return (Admitted session)))"

text \<open>An interactive transaction: a throw, its own or the database's, rolls the state back.\<close>

definition in_transaction :: "candidate_error option \<Rightarrow> 'a candidate_prog \<Rightarrow> 'a candidate_prog" where
  "in_transaction abort m s =
     (case abort of Some e \<Rightarrow> (Inl e, s)
      | None \<Rightarrow> (case m s of (Inl e, _) \<Rightarrow> (Inl e, s) | (Inr a, t) \<Rightarrow> (Inr a, t)))"

definition isSerializationConflict :: "candidate_error \<Rightarrow> bool" where
  "isSerializationConflict e \<longleftrightarrow> e = PrismaCode ''P2034''"

fun serializableAttempts :: "nat \<Rightarrow> nat \<Rightarrow> (nat \<Rightarrow> 'a candidate_prog) \<Rightarrow> 'a candidate_prog" where
  "serializableAttempts 0 attempt operation = prog_throw (OtherFault ''Unreachable serialization retry state.'')"
| "serializableAttempts (Suc n) attempt operation =
     prog_catch (operation attempt) (\<lambda>e.
       if \<not> isSerializationConflict e \<or> attempt = 2 then prog_throw e
       else serializableAttempts n (Suc attempt) operation)"

definition runSerializable :: "(nat \<Rightarrow> 'a candidate_prog) \<Rightarrow> 'a candidate_prog" where
  "runSerializable operation = serializableAttempts 3 0 operation"

definition deleteOrphanedSession :: "db_faults \<Rightarrow> string \<Rightarrow> unit candidate_prog" where
  "deleteOrphanedSession flt sessionId =
     prog_catch (may_fail (delete_fault flt) (deleteSession sessionId)) (\<lambda>e. prog_return ())"

definition createCreditBackedCandidateSession ::
  "credit_calls \<Rightarrow> db_faults \<Rightarrow> CandidateSession \<Rightarrow> int \<Rightarrow> string \<Rightarrow> WorkspaceBilling \<Rightarrow> admission candidate_prog" where
  "createCreditBackedCandidateSession calls flt data now organizationId billing =
     prog_bind (may_fail (create_fault flt) (createSession (data\<lparr>se_recordingEntitled := recordingAllowed billing\<rparr>)))
       (\<lambda>session.
         prog_bind (prog_catch (on_books (reserveCredit calls organizationId (se_id session) now))
             (\<lambda>e. prog_then (deleteOrphanedSession flt (se_id session)) (prog_throw e)))
           (\<lambda>reservation. case reservation of
             ReserveOk _ \<Rightarrow> prog_return (Admitted session)
           | NoCreditsAvailable \<Rightarrow> prog_then (deleteOrphanedSession flt (se_id session))
               (prog_return (NotAdmitted candidate_interview_limit_reached))))"

definition createEntitledCandidateSession ::
  "environment \<Rightarrow> billing_loader \<Rightarrow> credit_calls \<Rightarrow> db_faults \<Rightarrow> CandidateSession \<Rightarrow> int \<Rightarrow> string \<Rightarrow>
   admission candidate_prog" where
  "createEntitledCandidateSession env loadBilling calls flt data now organizationId =
     prog_bind (prog_lift (loadBilling organizationId now)) (\<lambda>billing.
       if isCreditBillingEnabled env
       then createCreditBackedCandidateSession calls flt data now organizationId billing
       else runSerializable (\<lambda>attempt. in_transaction (tx_fault flt attempt)
              (admitTx flt data organizationId billing (resolveBillingUsagePeriod billing now))))"

definition resumeEntitledCandidateSession ::
  "environment \<Rightarrow> credit_calls \<Rightarrow> db_faults \<Rightarrow> (CandidateSession \<Rightarrow> CandidateSession) \<Rightarrow> int \<Rightarrow> string \<Rightarrow> string \<Rightarrow>
   admission candidate_prog" where
  "resumeEntitledCandidateSession env calls flt data now organizationId sessionId =
     (let resume = prog_bind (may_fail (update_fault flt) (updateSession sessionId data))
                     (\<lambda>session. prog_return (Admitted session))
      in if isCreditBillingEnabled env
         then prog_bind (on_books (reserveCredit calls organizationId sessionId now)) (\<lambda>reservation.
           case reservation of
             NoCreditsAvailable \<Rightarrow> prog_return (NotAdmitted candidate_interview_limit_reached)
           | ReserveOk _ \<Rightarrow> resume)
         else resume)"

section \<open>Settlement\<close>

datatype settle_kind = abandoned | completed | expired | failed | superseded

definition kind_word :: "settle_kind \<Rightarrow> string" where
  "kind_word k = (case k of abandoned \<Rightarrow> ''abandoned'' | completed \<Rightarrow> ''completed'' | expired \<Rightarrow> ''expired''
     | failed \<Rightarrow> ''failed'' | superseded \<Rightarrow> ''superseded'')"

text \<open>The first of the keys whose value is a non-empty string, else the empty string.\<close>

fun readPayloadString :: "(string \<times> json) list \<Rightarrow> string list \<Rightarrow> string" where
  "readPayloadString payload [] = ''''"
| "readPayloadString payload (key # keys) =
     (case json_member payload key of
        Some (JString v) \<Rightarrow> if v \<noteq> '''' then v else readPayloadString payload keys
      | _ \<Rightarrow> readPayloadString payload keys)"

definition isRecord :: "json \<Rightarrow> bool" where
  "isRecord v = (case v of JObject _ \<Rightarrow> True | _ \<Rightarrow> False)"

text \<open>\<open>isRecord(event.payload) ? event.payload : {}\<close>\<close>

definition payloadFields :: "json \<Rightarrow> (string \<times> json) list" where
  "payloadFields v = (case v of JObject members \<Rightarrow> members | _ \<Rightarrow> [])"

text \<open>One pass of the loop; the \<open>Map\<close> keeps the place of the first key and the last value.\<close>

definition collectOutcome :: "json \<Rightarrow> (string \<times> QuestionOutcome) list \<Rightarrow> (string \<times> QuestionOutcome) list" where
  "collectOutcome p outcomes =
     (let payload = payloadFields p;
          questionId = readPayloadString payload [''question_id'', ''questionId'']
      in if questionId = '''' then outcomes
         else AList.update questionId
                \<lparr>completionReason = readPayloadString payload [''completion_reason'', ''completionReason'']\<rparr>
                outcomes)"

definition outcomeByQuestion :: "LiveInterviewEvent list \<Rightarrow> (string \<times> QuestionOutcome) list" where
  "outcomeByQuestion evs = fold (\<lambda>e. collectOutcome (le_payload e)) evs []"

definition questionEvents :: "string \<Rightarrow> candidate_db \<Rightarrow> LiveInterviewEvent list" where
  "questionEvents realtimeSessionId s =
     sort_key le_sequenceNumber (filter (\<lambda>e. le_sessionId e = realtimeSessionId \<and> le_type e = ''question_completed'')
       (liveInterviewEvent s))"

definition loadQuestionOutcomes :: "db_faults \<Rightarrow> string \<Rightarrow> QuestionOutcome list candidate_prog" where
  "loadQuestionOutcomes flt realtimeSessionId =
     prog_bind (may_fail (read_fault flt) (prog_get (questionEvents realtimeSessionId))) (\<lambda>events.
       prog_return (map snd (outcomeByQuestion events)))"

definition recordBilledCounts :: "db_faults \<Rightarrow> int \<Rightarrow> string \<Rightarrow> int \<Rightarrow> string \<Rightarrow> unit candidate_prog" where
  "recordBilledCounts flt answered outcome required sessionId =
     prog_bind (may_fail (update_fault flt) (updateSession sessionId
         (\<lambda>c. c\<lparr>se_billedAnsweredCount := Some answered, se_billedOutcome := Some outcome,
                se_billedRequiredCount := Some required\<rparr>)))
       (\<lambda>_. prog_return ())"

text \<open>A completed interview: its row is \<open>session\<close>.\<close>

definition settleCompleted ::
  "credit_calls \<Rightarrow> db_faults \<Rightarrow> int \<Rightarrow> string \<Rightarrow> CandidateSession \<Rightarrow> unit candidate_prog" where
  "settleCompleted calls flt now sessionId session =
     (let org = se_organizationId session;
          plannedQuestionCount = json_length (se_questions session)
      in if \<not> truthy (se_realtimeSessionId session)
         then prog_then (on_books (releaseCredit calls org sessionId now ''no_billable_evidence''))
                (recordBilledCounts flt 0 ''released''
                  (requiredCount (evaluateBillableCompletion plannedQuestionCount [] None)) sessionId)
         else
           prog_bind (loadQuestionOutcomes flt (the (se_realtimeSessionId session))) (\<lambda>outcomes.
             let decision = evaluateBillableCompletion plannedQuestionCount outcomes None
             in if billable decision
                then prog_then (on_books (captureCredit calls org sessionId now))
                       (recordBilledCounts flt (answeredCount decision) ''captured'' (requiredCount decision) sessionId)
                else prog_then (on_books (releaseCredit calls org sessionId now ''below_billable_threshold''))
                       (recordBilledCounts flt (answeredCount decision) ''released'' (requiredCount decision) sessionId)))"

definition settleCandidateSessionCredit ::
  "environment \<Rightarrow> credit_calls \<Rightarrow> db_faults \<Rightarrow> settle_kind \<Rightarrow> int \<Rightarrow> string \<Rightarrow> unit candidate_prog" where
  "settleCandidateSessionCredit env calls flt kind now sessionId =
     (if \<not> isCreditBillingEnabled env then prog_return ()
      else prog_catch
        (prog_bind (may_fail (read_fault flt) (prog_get (findSession sessionId))) (\<lambda>found.
           case found of
             None \<Rightarrow> prog_return ()
           | Some session \<Rightarrow>
               if kind \<noteq> completed
               then prog_then (on_books (releaseCredit calls (se_organizationId session) sessionId now (kind_word kind)))
                      (prog_return ())
               else settleCompleted calls flt now sessionId session))
        (\<lambda>e. prog_return ()))"

section \<open>The contract of the ledger calls\<close>

text \<open>A session is charged once its hold is captured; it is backed by a captured or a fresh hold.\<close>

definition charged :: "string \<Rightarrow> credit_db \<Rightarrow> bool" where
  "charged k d \<longleftrightarrow> (\<exists>r\<in>set (reservations d). cr_candidateSessionId r = k \<and> cr_status r = Known Captured)"

definition backed :: "string \<Rightarrow> string \<Rightarrow> int \<Rightarrow> credit_db \<Rightarrow> bool" where
  "backed org k now d \<longleftrightarrow> (case findReservation k d of None \<Rightarrow> False
     | Some r \<Rightarrow> cr_organizationId r = org \<and> (cr_status r = Known Captured \<or>
         cr_status r = Known Held \<and> cr_expiresAt r = now + RESERVATION_TTL_HOURS * HOUR_MS))"

definition spendable :: "string \<Rightarrow> int \<Rightarrow> credit_db \<Rightarrow> bool" where
  "spendable org now d \<longleftrightarrow> (\<exists>l\<in>set (lots d). cl_organizationId l = org \<and> cl_status l = Known Active \<and>
     now < cl_expiresAt l \<and> 0 < lotAvailable l)"

locale credit_service =
  fixes calls :: credit_calls
  assumes reserve_moves: "reserveCredit calls org k now d = (r1, d') \<Longrightarrow> ledger_step\<^sup>*\<^sup>* d d'"
    and capture_moves: "captureCredit calls org k now d = (r2, d') \<Longrightarrow> ledger_step\<^sup>*\<^sup>* d d'"
    and release_moves: "releaseCredit calls org k now reason d = (r3, d') \<Longrightarrow> ledger_step\<^sup>*\<^sup>* d d'"
    and reserve_backs: "ledger_reachable d \<Longrightarrow> reserveCredit calls org k now d = (Inr (ReserveOk i), d') \<Longrightarrow>
      backed org k now d'"
    and refuse_empty: "ledger_reachable d \<Longrightarrow> reserveCredit calls org k now d = (Inr NoCreditsAvailable, d') \<Longrightarrow>
      \<not> spendable org now d'"
    and capture_charges: "ledger_reachable d \<Longrightarrow> captureCredit calls org k now d = (r2, d') \<Longrightarrow>
      charged j d' \<Longrightarrow> charged j d \<or> j = k"
    and release_charges: "ledger_reachable d \<Longrightarrow> releaseCredit calls org k now reason d = (r3, d') \<Longrightarrow>
      charged j d' \<Longrightarrow> charged j d"

interpretation uncharged: state_preorder "\<lambda>s t. \<forall>k. charged k t \<longrightarrow> charged k s"
  by unfold_locales auto

lemma uncharged_calls [intro]:
  "moves (\<lambda>s t. \<forall>k. charged k t \<longrightarrow> charged k s) (updateLot i f)"
  "(\<And>x. cr_status (g x) \<noteq> Known Captured) \<Longrightarrow> moves (\<lambda>s t. \<forall>k. charged k t \<longrightarrow> charged k s) (updateReservation i g)"
  "moves (\<lambda>s t. \<forall>k. charged k t \<longrightarrow> charged k s) (createEntry e)"
  "moves (\<lambda>s t. \<forall>k. charged k t \<longrightarrow> charged k s) (moveCredits org a b)"
  by (auto simp: moves_def charged_def db_Inr moveCredits_def set_update_row split: if_splits)

lemma expireRows_charges: "moves (\<lambda>s t. \<forall>k. charged k t \<longrightarrow> charged k s) (expireRows org rows ids w)"
  by (induction rows arbitrary: ids w) (auto intro!: uncharged.structural uncharged_calls simp: Let_def)

lemma releaseTx_charges: "moves (\<lambda>s t. \<forall>k. charged k t \<longrightarrow> charged k s) (releaseTx org s now reason)"
  unfolding releaseTx_def releaseReservationRow_def expireDueLotsInTx_def Let_def
  by (auto intro!: uncharged.structural uncharged_calls expireRows_charges)

lemma captureTx_charges:
  assumes "ledger_inv d" and run: "captureTx org s now d = Inr (r, d')" and j: "charged j d'"
  shows "charged j d \<or> j = s"
proof -
  have wf: "wf d" using assms(1) by (simp add: ledger_inv_def)
  from run wf show ?thesis
  proof (cases rule: captureTx_cases)
    case same
    then show ?thesis using j by simp
  next
    case (captured x l w)
    have "reservations d' = update_row cr_id (cr_id x) (capture_marks now) (reservations d)"
      using captured by (auto simp: moveCredits_def updateWallet_Inr)
    then obtain y where y: "y \<in> set (reservations d)"
        "cr_id y = cr_id x \<and> cr_candidateSessionId y = j \<or> cr_candidateSessionId y = j \<and> cr_status y = Known Captured"
      using j by (auto simp: charged_def set_update_row capture_marks_def split: if_splits)
    have "cr_candidateSessionId x = s" using wf_find_reservation [OF wf] captured(1) by simp
    moreover have "y = x" if "cr_id y = cr_id x"
      using wf_reservation_by_id [OF wf] y(1) captured(2) that by (metis option.inject)
    ultimately show ?thesis using y by (auto simp: charged_def)
  qed
qed

lemma backed_iff:
  "backed org k now d \<longleftrightarrow> (\<exists>row. findReservation k d = Some row \<and> cr_organizationId row = org \<and>
     (cr_status row = Known Captured \<or>
      cr_status row = Known Held \<and> cr_expiresAt row = now + RESERVATION_TTL_HOURS * HOUR_MS))"
  by (simp add: backed_def split: option.split)

interpretation ledger_calls: credit_service "defaultCalls flt ids" for flt ids
proof
  fix org k now d d' i
  assume "ledger_reachable d" "reserveCredit (defaultCalls flt ids) org k now d = (Inr (ReserveOk i), d')"
  then show "backed org k now d'"
    using reserve_truth [of d flt ids org k now "ReserveOk i" d'] by (auto simp: defaultCalls_def backed_iff)
next
  fix org k now d d'
  assume "ledger_reachable d" "reserveCredit (defaultCalls flt ids) org k now d = (Inr NoCreditsAvailable, d')"
  then show "\<not> spendable org now d'"
    using reserve_truth [of d flt ids org k now NoCreditsAvailable d'] by (force simp: defaultCalls_def spendable_def)
next
  fix org k now d r d' j
  assume d: "ledger_reachable d" and run: "captureCredit (defaultCalls flt ids) org k now d = (r, d')"
    and j: "charged j d'"
  from run have "captureReservationForSession (snd flt) org k now d = (r, d')" by (simp add: defaultCalls_def)
  then show "charged j d \<or> j = k"
    unfolding captureReservationForSession_def
    by (rule runInWallet_cases) (use j captureTx_charges [OF reachable_inv [OF d]] in auto)
next
  fix org k now reason d r d' j
  assume run: "releaseCredit (defaultCalls flt ids) org k now reason d = (r, d')" and j: "charged j d'"
  from run have "releaseReservationForSession (snd flt) org k now reason d = (r, d')" by (simp add: defaultCalls_def)
  then show "charged j d"
    unfolding releaseReservationForSession_def
    by (rule runInWallet_cases) (use j movesD [OF releaseTx_charges] in auto)
qed (auto simp: defaultCalls_def intro: reserve_steps session_steps)

section \<open>One verdict per question\<close>

definition question_of :: "LiveInterviewEvent \<Rightarrow> string" where
  "question_of e = readPayloadString (payloadFields (le_payload e)) [''question_id'', ''questionId'']"

definition reason_of :: "LiveInterviewEvent \<Rightarrow> string" where
  "reason_of e = readPayloadString (payloadFields (le_payload e)) [''completion_reason'', ''completionReason'']"

text \<open>
  The specification: the questions some event names, each with the reason of the last event
  that names it.
\<close>

definition final_reason :: "LiveInterviewEvent list \<Rightarrow> string \<Rightarrow> string" where
  "final_reason evs q = reason_of (last (filter (\<lambda>e. question_of e = q) evs))"

definition answered_questions :: "LiveInterviewEvent list \<Rightarrow> string list" where
  "answered_questions evs = filter (\<lambda>q. final_reason evs q = ''answered'')
     (remdups (filter (\<lambda>q. q \<noteq> '''') (map question_of evs)))"

lemma collectOutcome_event:
  "collectOutcome (le_payload e) m =
     (if question_of e = '''' then m else AList.update (question_of e) \<lparr>completionReason = reason_of e\<rparr> m)"
  by (simp add: collectOutcome_def question_of_def reason_of_def Let_def)

lemma outcome_run [simp]:
  "outcomeByQuestion [] = []"
  "outcomeByQuestion (evs @ [e]) = (if question_of e = '''' then outcomeByQuestion evs
     else AList.update (question_of e) \<lparr>completionReason = reason_of e\<rparr> (outcomeByQuestion evs))"
  by (simp_all add: outcomeByQuestion_def collectOutcome_event)

lemma outcomes_map:
  "distinct (map fst (outcomeByQuestion evs))"
  "map_of (outcomeByQuestion evs) =
     (\<lambda>q. if q \<noteq> '''' \<and> q \<in> question_of ` set evs then Some \<lparr>completionReason = final_reason evs q\<rparr> else None)"
proof (induction evs rule: rev_induct)
  case (snoc e evs)
  {
    case 1
    show ?case using snoc(1) by (simp add: distinct_update)
  next
    case 2
    show ?case
      by (rule ext) (auto simp: update_conv' snoc(2) final_reason_def)
  }
qed simp_all

lemma count_by_key:
  "distinct (map fst m) \<Longrightarrow> length (filter P (map snd m)) = card {k \<in> fst ` set m. P (the (map_of m k))}"
proof (induction m)
  case (Cons x m)
  obtain k v where x: "x = (k, v)" by (cases x)
  have k: "k \<notin> fst ` set m" using Cons.prems x by auto
  have "{j \<in> fst ` set (x # m). P (the (map_of (x # m) j))} =
      (if P v then {k} else {}) \<union> {j \<in> fst ` set m. P (the (map_of m j))}"
    using x k by (auto split: if_splits)
  moreover have "k \<notin> {j \<in> fst ` set m. P (the (map_of m j))}" using k by simp
  ultimately show ?case using Cons x by simp
qed simp

lemma answered_count:
  "length (filter (\<lambda>o'. completionReason o' = ''answered'')
     (map snd (outcomeByQuestion evs))) = length (answered_questions evs)"
proof -
  let ?m = "outcomeByQuestion evs"
  have "{k \<in> fst ` set ?m. completionReason (the (map_of ?m k)) = ''answered''} = set (answered_questions evs)"
    by (auto simp: answered_questions_def dom_map_of_conv_image_fst [symmetric] outcomes_map(2) split: if_splits)
  moreover have "distinct (answered_questions evs)" by (simp add: answered_questions_def)
  ultimately show ?thesis
    using count_by_key [OF outcomes_map(1) [of evs], of "\<lambda>o'. completionReason o' = ''answered''"]
    by (simp add: distinct_card)
qed

text \<open>What a completed interview must show to be charged.\<close>

definition enough_answers :: "CandidateSession \<Rightarrow> candidate_db \<Rightarrow> bool" where
  "enough_answers row s \<longleftrightarrow> truthy (se_realtimeSessionId row) \<and>
     (let planned = json_length (se_questions row);
          n = length (answered_questions (questionEvents (the (se_realtimeSessionId row)) s))
      in 0 < planned \<and> 3 \<le> n \<and> planned \<le> 2 * int n)"

lemma decision_enough:
  "truthy (se_realtimeSessionId row) \<Longrightarrow>
   billable (evaluateBillableCompletion (json_length (se_questions row))
     (map snd (outcomeByQuestion (questionEvents (the (se_realtimeSessionId row)) s))) None)
   \<longleftrightarrow> enough_answers row s"
  unfolding enough_answers_def billable_half answered_count Let_def by auto

section \<open>What the handlers do with a ledger of that contract\<close>

lemma may_fail_run:
  "may_fail f m s = (case f of None \<Rightarrow> m s | Some e \<Rightarrow> (Inl e, s))"
  by (simp add: may_fail_def prog_throw_def split: option.split)

lemma on_books_run:
  "on_books call s = (case call (books s) of (r, d) \<Rightarrow>
     (case r of Inl e \<Rightarrow> Inl (LedgerFault e) | Inr a \<Rightarrow> Inr a, s\<lparr>books := d\<rparr>))"
  by (simp add: on_books_def split: prod.split sum.split)

lemma createSession_fresh:
  assumes "createSession data s = (Inr row, t)"
  shows "row = data \<and> findSession (se_id data) s = None \<and> t = s\<lparr>candidateSession := candidateSession s @ [data]\<rparr>"
  using assms by (auto simp: createSession_def split: if_splits)

lemma createSession_refused: "createSession data s = (Inl e, t) \<Longrightarrow> t = s"
  by (auto simp: createSession_def split: if_splits)

lemma delete_created:
  assumes "findSession (se_id row) s = None"
  shows "deleteOrphanedSession flt (se_id row) (s\<lparr>candidateSession := candidateSession s @ [row], books := d\<rparr>) =
    (Inr (), (if delete_fault flt = None then s\<lparr>books := d\<rparr>
              else s\<lparr>candidateSession := candidateSession s @ [row], books := d\<rparr>))"
proof -
  have "filter (\<lambda>c. se_id c \<noteq> se_id row) (candidateSession s) = candidateSession s"
    using assms unfolding findSession_def find_row_None_iff filter_id_conv by (metis image_eqI)
  then show ?thesis
    using assms
    by (simp add: deleteOrphanedSession_def prog_catch_def prog_return_def may_fail_run deleteSession_def
        findSession_def find_row_append split: option.split)
qed

text \<open>The three ways a credit-backed creation ends.\<close>

lemma createCreditBacked_cases:
  fixes data :: CandidateSession and s :: candidate_db
  assumes "createCreditBackedCandidateSession calls flt data now org billing s = (r, t)"
  obtains (not_created) e where "r = Inl e" "t = s"
  | (admitted) row d i where "row = data\<lparr>se_recordingEntitled := recordingAllowed billing\<rparr>"
      "reserveCredit calls org (se_id row) now (books s) = (Inr (ReserveOk i), d)" "r = Inr (Admitted row)"
      "findSession (se_id row) s = None" "t = s\<lparr>candidateSession := candidateSession s @ [row], books := d\<rparr>"
  | (undone) row a d where "row = data\<lparr>se_recordingEntitled := recordingAllowed billing\<rparr>"
      "reserveCredit calls org (se_id row) now (books s) = (a, d)"
      "a = Inr NoCreditsAvailable \<and> r = Inr (NotAdmitted candidate_interview_limit_reached) \<or>
       (\<exists>e. a = Inl e \<and> r = Inl (LedgerFault e))"
      "t = (if delete_fault flt = None then s\<lparr>books := d\<rparr>
            else s\<lparr>candidateSession := candidateSession s @ [row], books := d\<rparr>)"
proof -
  define row where "row = data\<lparr>se_recordingEntitled := recordingAllowed billing\<rparr>"
  obtain q u where create: "may_fail (create_fault flt) (createSession row) s = (q, u)" by (metis surj_pair)
  show thesis
  proof (cases q)
    case (Inl e)
    then have "r = Inl e" "t = u" "u = s"
      using assms create
      by (auto simp: createCreditBackedCandidateSession_def row_def [symmetric] prog_bind_def may_fail_run
          dest: createSession_refused split: option.splits)
    then show thesis using not_created by blast
  next
    case (Inr c)
    then have made: "c = row" "findSession (se_id row) s = None" "u = s\<lparr>candidateSession := candidateSession s @ [row]\<rparr>"
      using create by (auto simp: may_fail_run dest: createSession_fresh split: option.splits)
    obtain a d where call: "reserveCredit calls org (se_id row) now (books s) = (a, d)" by (metis surj_pair)
    have u: "u\<lparr>books := d\<rparr> = s\<lparr>candidateSession := candidateSession s @ [row], books := d\<rparr>" "books u = books s"
      using made by simp_all
    note run = assms [unfolded createCreditBackedCandidateSession_def prog_bind_def row_def [symmetric] create Inr]
    consider i where "a = Inr (ReserveOk i)" | "a = Inr NoCreditsAvailable" | e where "a = Inl e"
      by (cases a; cases "projr a") auto
    then show thesis
    proof cases
      case 1
      then have "r = Inr (Admitted row) \<and> t = u\<lparr>books := d\<rparr>"
        using run call u made(1)
        by (simp add: prog_bind_def prog_catch_def on_books_run prog_return_def)
      then show thesis using admitted [OF row_def] call 1 made(2) u by simp
    next
      case 2
      then have "r = Inr (NotAdmitted candidate_interview_limit_reached) \<and>
          t = snd (deleteOrphanedSession flt (se_id row) (u\<lparr>books := d\<rparr>))"
        using run call u made(1) delete_created [OF made(2)]
        by (simp add: prog_bind_def prog_catch_def on_books_run prog_return_def prog_then_def)
      then show thesis
        using undone [OF row_def call] 2 u delete_created [OF made(2), of flt d] by simp
    next
      case 3
      then have "r = Inl (LedgerFault e) \<and> t = snd (deleteOrphanedSession flt (se_id row) (u\<lparr>books := d\<rparr>))"
        using run call u made(1) delete_created [OF made(2)]
        by (simp add: prog_bind_def prog_catch_def on_books_run prog_throw_def prog_then_def)
      then show thesis
        using undone [OF row_def call] 3 u delete_created [OF made(2), of flt d] by simp
    qed
  qed
qed

context credit_service
begin

lemma admission_outcome:
  fixes data :: CandidateSession and s :: candidate_db
  assumes reach: "ledger_reachable (books s)"
    and run: "createCreditBackedCandidateSession calls flt data now org billing s = (r, t)"
  shows "ledger_step\<^sup>*\<^sup>* (books s) (books t) \<and>
    (case r of
       Inr (Admitted row) \<Rightarrow> candidateSession t = candidateSession s @ [row] \<and>
         se_recordingEntitled row = recordingAllowed billing \<and> backed org (se_id row) now (books t)
     | Inr (NotAdmitted why) \<Rightarrow> why = candidate_interview_limit_reached \<and> \<not> spendable org now (books t) \<and>
         (delete_fault flt = None \<longrightarrow> candidateSession t = candidateSession s)
     | Inl e \<Rightarrow> delete_fault flt = None \<longrightarrow> candidateSession t = candidateSession s)"
  using run
proof (cases rule: createCreditBacked_cases)
  case (admitted row d i)
  then show ?thesis using reserve_backs [OF reach admitted(2)] reserve_moves [OF admitted(2)] by simp
next
  case (undone row a d)
  from undone(3) show ?thesis
    using undone(4) reserve_moves [OF undone(2)] refuse_empty [OF reach, of org "se_id row" now d] undone(2) by auto
qed simp

lemma resume_outcome:
  fixes s :: candidate_db
  assumes reach: "ledger_reachable (books s)" and on: "isCreditBillingEnabled env"
    and run: "resumeEntitledCandidateSession env calls flt f now org k s = (r, t)"
  shows "ledger_step\<^sup>*\<^sup>* (books s) (books t) \<and>
    (case r of
       Inr (Admitted row) \<Rightarrow> backed org k now (books t) \<and> findSession k s \<noteq> None \<and> row = f (the (findSession k s)) \<and>
         candidateSession t = update_row se_id k f (candidateSession s)
     | Inr (NotAdmitted why) \<Rightarrow> why = candidate_interview_limit_reached \<and> \<not> spendable org now (books t) \<and>
         candidateSession t = candidateSession s
     | Inl e \<Rightarrow> candidateSession t = candidateSession s)"
proof -
  obtain a d where call: "reserveCredit calls org k now (books s) = (a, d)" by (metis surj_pair)
  have steps: "ledger_step\<^sup>*\<^sup>* (books s) d" by (rule reserve_moves [OF call])
  note unfolded = run [unfolded resumeEntitledCandidateSession_def Let_def, simplified on if_True prog_bind_def on_books_run call]
  consider i where "a = Inr (ReserveOk i)" | "a = Inr NoCreditsAvailable" | e where "a = Inl e"
    by (cases a; cases "projr a") auto
  then show ?thesis
  proof cases
    case 1
    note b = reserve_backs [OF reach call [unfolded 1]]
    from 1 unfolded show ?thesis using steps b
      by (auto simp: prog_bind_def may_fail_run updateSession_def prog_return_def findSession_def
          split: option.splits)
  next
    case 2
    note b = refuse_empty [OF reach call [unfolded 2]]
    from 2 unfolded show ?thesis using steps b by (auto simp: prog_return_def)
  next
    case 3
    from 3 unfolded show ?thesis using steps by auto
  qed
qed

end

text \<open>
  C6: under credit billing every admitted session is backed. Whatever the wallet, the faults and
  the billing answer, when \<open>createEntitledCandidateSession\<close> admits, the new row is the last of the
  table and the ledger holds, for the full TTL from now, a credit of that organization for that
  very session (or has already captured one); the ledger moved by ledger transactions only.
\<close>
theorem admitted_session_is_backed:
  fixes s :: candidate_db
  assumes "isCreditBillingEnabled env" and "ledger_reachable (books s)"
    and "createEntitledCandidateSession env load (defaultCalls flt ids) dbf data now org s = (Inr (Admitted row), t)"
  shows "backed org (se_id row) now (books t) \<and> candidateSession t = candidateSession s @ [row] \<and>
    ledger_reachable (books t)"
proof -
  obtain billing where "createCreditBackedCandidateSession (defaultCalls flt ids) dbf data now org billing s =
      (Inr (Admitted row), t)"
    using assms(1,3) by (auto simp: createEntitledCandidateSession_def prog_bind_def prog_lift_def split: sum.splits)
  from ledger_calls.admission_outcome [OF assms(2) this] show ?thesis
    using assms(2) by (auto simp: ledger_reachable_def)
qed

text \<open>
  a refusal leaves nothing to interview on. Under credit billing a creation that does not admit,
  by refusal or by error, leaves the session table as it was, unless the compensating delete
  failed; a refusal is the limit, and then no lot of the organization has a spendable credit.
\<close>
theorem refused_admission_leaves_no_session:
  fixes s :: candidate_db
  assumes "isCreditBillingEnabled env" and "ledger_reachable (books s)" and "delete_fault dbf = None"
    and "createEntitledCandidateSession env load (defaultCalls flt ids) dbf data now org s = (r, t)"
    and "\<nexists>row. r = Inr (Admitted row)"
  shows "candidateSession t = candidateSession s \<and>
    (isl r \<or> r = Inr (NotAdmitted candidate_interview_limit_reached) \<and> \<not> spendable org now (books t))"
proof (cases "load org now")
  case (Inl e)
  then show ?thesis using assms(4) by (auto simp: createEntitledCandidateSession_def prog_bind_def prog_lift_def)
next
  case (Inr billing)
  then have "createCreditBackedCandidateSession (defaultCalls flt ids) dbf data now org billing s = (r, t)"
    using assms(1,4) by (simp add: createEntitledCandidateSession_def prog_bind_def prog_lift_def)
  from ledger_calls.admission_outcome [OF assms(2) this] show ?thesis
    using assms(3,5) by (auto split: sum.splits admission.splits)
qed

text \<open>
  C12: no resume runs free. Under credit billing a resume succeeds only with a captured or fresh
  hold for that session; every other outcome leaves all session rows as they were. So a row whose
  compensating delete failed cannot be resumed while the organization has no spendable credit.
\<close>
theorem resume_needs_a_credit:
  fixes s :: candidate_db
  assumes "isCreditBillingEnabled env" and "ledger_reachable (books s)"
    and "resumeEntitledCandidateSession env (defaultCalls flt ids) dbf f now org k s = (r, t)"
  shows "(case r of
      Inr (Admitted row) \<Rightarrow> backed org k now (books t) \<and>
        (\<exists>old. findSession k s = Some old \<and> row = f old) \<and>
        candidateSession t = update_row se_id k f (candidateSession s)
    | Inr (NotAdmitted _) \<Rightarrow> \<not> spendable org now (books t) \<and> candidateSession t = candidateSession s
    | Inl _ \<Rightarrow> candidateSession t = candidateSession s)"
  using ledger_calls.resume_outcome [OF assms(2,1,3)] by (auto split: sum.splits admission.splits)

lemma serializable_outcome:
  assumes "serializableAttempts n k op s = (r, t)"
    and "\<And>i e t'. op i s = (Inl e, t') \<Longrightarrow> t' = s"
  shows "(\<exists>e. r = Inl e \<and> t = s) \<or> (\<exists>i a. r = Inr a \<and> op i s = (Inr a, t))"
  using assms(1)
proof (induction n arbitrary: k)
  case (Suc n)
  obtain q u where q: "op k s = (q, u)" by (metis surj_pair)
  show ?case
  proof (cases q)
    case (Inl e)
    then have "u = s" using q assms(2) by blast
    then show ?thesis
      using Suc q Inl by (auto simp: prog_catch_def prog_throw_def split: if_splits)
  next
    case (Inr a)
    then show ?thesis using Suc.prems q by (auto simp: prog_catch_def)
  qed
qed (auto simp: prog_throw_def)

lemma admitTx_run:
  assumes "admitTx dbf data org billing period s = (Inr a, t)"
  obtains (refused) why where "a = NotAdmitted why" "t = s"
  | (admitted) row where "a = Admitted row" "t = s\<lparr>candidateSession := candidateSession s @ [row]\<rparr>"
      "wb_state billing = st_unconfigured \<or> wb_accessAllowed billing \<and>
        (\<forall>n. limitFor billing candidate_interviews = Some n \<longrightarrow> countPeriodSessions org period s < n)"
proof (cases "evaluateWorkspaceEntitlement billing candidate_interviews (countPeriodSessions org period s)")
  case (Denied code limit u)
  then show thesis using assms refused by (auto simp: admitTx_def prog_bind_def prog_get_def prog_return_def)
next
  case (Allowed limit u)
  let ?make = "may_fail (create_fault dbf) (createSession (data\<lparr>se_recordingEntitled := recordingAllowed billing\<rparr>))"
  obtain q v where make: "?make s = (q, v)" by (metis surj_pair)
  then obtain row where "q = Inr row" "a = Admitted row" "t = v"
    using assms Allowed by (cases q) (auto simp: admitTx_def prog_bind_def prog_get_def prog_return_def)
  moreover from this make have "v = s\<lparr>candidateSession := candidateSession s @ [row]\<rparr>"
    by (auto simp: may_fail_run dest!: createSession_fresh split: option.splits)
  moreover have "wb_state billing = st_unconfigured \<or> wb_accessAllowed billing \<and>
        (\<forall>n. limitFor billing candidate_interviews = Some n \<longrightarrow> countPeriodSessions org period s < n)"
    using Allowed by (auto simp: evaluateWorkspaceEntitlement_def Let_def split: if_splits option.splits)
  ultimately show thesis using admitted by blast
qed

text \<open>
  the subscription path admits within the plan. With credit billing off, whatever the
  transaction attempts fail with, a creation either changes nothing or adds exactly one session;
  it adds one only when billing is unconfigured, or the workspace has access and the sessions
  counted in its usage period in the state the committed attempt saw were below the limit.
\<close>
theorem subscription_admission_respects_limit:
  fixes s :: candidate_db
  assumes "\<not> isCreditBillingEnabled env" and "load org now = Inr billing"
    and "createEntitledCandidateSession env load calls dbf data now org s = (r, t)"
  shows "(t = s \<and> (\<nexists>row. r = Inr (Admitted row))) \<or>
    (\<exists>row. r = Inr (Admitted row) \<and> t = s\<lparr>candidateSession := candidateSession s @ [row]\<rparr> \<and>
       (wb_state billing = st_unconfigured \<or> wb_accessAllowed billing \<and>
         (\<forall>n. limitFor billing candidate_interviews = Some n \<longrightarrow>
            countPeriodSessions org (resolveBillingUsagePeriod billing now) s < n)))"
proof -
  let ?op = "\<lambda>i. in_transaction (tx_fault dbf i) (admitTx dbf data org billing (resolveBillingUsagePeriod billing now))"
  have run: "serializableAttempts 3 0 ?op s = (r, t)"
    using assms by (simp add: createEntitledCandidateSession_def prog_bind_def prog_lift_def runSerializable_def)
  have rolled_back: "?op i s = (Inl e, t') \<Longrightarrow> t' = s" for i e t'
    by (auto simp: in_transaction_def split: option.splits prod.splits sum.splits)
  have "(\<exists>e. r = Inl e \<and> t = s) \<or> (\<exists>i a. r = Inr a \<and> ?op i s = (Inr a, t))"
    by (rule serializable_outcome [OF run]) (rule rolled_back)
  then show ?thesis
  proof (elim disjE exE conjE)
    fix i a
    assume a: "r = Inr a" and "?op i s = (Inr a, t)"
    then have "admitTx dbf data org billing (resolveBillingUsagePeriod billing now) s = (Inr a, t)"
      by (auto simp: in_transaction_def split: option.splits prod.splits sum.splits)
    then show ?thesis by (cases rule: admitTx_run) (use a in auto)
  qed simp
qed

section \<open>A run of each path\<close>

definition demo_lobby :: candidate_db where
  "demo_lobby = \<lparr>books = empty_db, candidateSession = [], liveInterviewEvent = []\<rparr>"

definition demo_candidate :: CandidateSession where
  "demo_candidate = \<lparr>se_id = ''s1'', se_organizationId = ''org'', se_realtimeSessionId = Some ''rt1'',
     se_recordingEntitled = True, se_status = ''starting'', se_startedAt = Some 0, se_billedAnsweredCount = None,
     se_billedRequiredCount = None, se_billedOutcome = None,
     se_questions = JArray [JNull, JNull, JNull, JNull]\<rparr>"

definition demo_create :: "faults \<times> faults \<Rightarrow> environment \<Rightarrow> (candidate_error + admission) \<times> candidate_db" where
  "demo_create flt env = createEntitledCandidateSession env (\<lambda>_ now. Inr (unconfiguredBilling now))
     (defaultCalls flt demo_ids) calm demo_candidate 0 ''org'' demo_lobby"

definition demo_admitted :: candidate_db where
  "demo_admitted = snd (demo_create (no_faults, no_faults) demo_env)"

lemma demo_billing: "isCreditBillingEnabled demo_env" "\<not> isCreditBillingEnabled (\<lambda>_. None)"
  by code_simp+

lemma demo_created: "demo_create (no_faults, no_faults) demo_env = (Inr (Admitted demo_candidate), demo_admitted)"
proof -
  have "fst (demo_create (no_faults, no_faults) demo_env) = Inr (Admitted demo_candidate)" by code_simp
  then show ?thesis by (simp add: demo_admitted_def prod_eq_iff)
qed

lemma demo_lobby_reachable: "ledger_reachable (books demo_lobby)"
  by (simp add: demo_lobby_def empty_reachable)

theorem admitted_session_is_backed_witness:
  "backed ''org'' ''s1'' 0 (books demo_admitted) \<and> candidateSession demo_admitted = [demo_candidate]"
  using admitted_session_is_backed [OF demo_billing(1) demo_lobby_reachable demo_created [unfolded demo_create_def]]
  by (simp add: demo_candidate_def demo_lobby_def)

definition demo_drained :: candidate_db where
  "demo_drained = demo_lobby\<lparr>books := reserve_six demo_one\<rparr>"

lemma demo_drained_reachable: "ledger_reachable (books demo_drained)"
proof -
  have "ledger_reachable demo_one"
    using grant_steps unfolding ledger_reachable_def demo_one_def empty_db_def [symmetric] by (metis prod.collapse)
  then show ?thesis by (simp add: demo_drained_def reserve_six_reachable)
qed

definition demo_refusal :: "(candidate_error + admission) \<times> candidate_db" where
  "demo_refusal = createEntitledCandidateSession demo_env (\<lambda>_ now. Inr (unconfiguredBilling now))
     (defaultCalls (no_faults, no_faults) demo_ids) calm demo_candidate 7 ''org'' demo_drained"

theorem refused_admission_leaves_no_session_witness:
  "candidateSession (snd demo_refusal) = [] \<and>
   fst demo_refusal = Inr (NotAdmitted candidate_interview_limit_reached) \<and> \<not> spendable ''org'' 7 (books (snd demo_refusal))"
proof -
  have r: "fst demo_refusal = Inr (NotAdmitted candidate_interview_limit_reached)" by code_simp
  then have run: "createEntitledCandidateSession demo_env (\<lambda>_ now. Inr (unconfiguredBilling now))
      (defaultCalls (no_faults, no_faults) demo_ids) calm demo_candidate 7 ''org'' demo_drained =
      (Inr (NotAdmitted candidate_interview_limit_reached), snd demo_refusal)"
    unfolding demo_refusal_def by (simp add: prod_eq_iff)
  have "delete_fault calm = None" by (simp add: calm_def)
  from refused_admission_leaves_no_session [OF demo_billing(1) demo_drained_reachable this run] r
  show ?thesis by (simp add: demo_drained_def demo_lobby_def)
qed

theorem resume_needs_a_credit_witness:
  "\<exists>t. resumeEntitledCandidateSession demo_env (defaultCalls (no_faults, no_faults) demo_ids) calm
       (\<lambda>c. c\<lparr>se_status := ''in_progress''\<rparr>) 5 ''org'' ''s1'' demo_admitted =
       (Inr (Admitted (demo_candidate\<lparr>se_status := ''in_progress''\<rparr>)), t) \<and> backed ''org'' ''s1'' 5 (books t)"
proof -
  let ?run = "resumeEntitledCandidateSession demo_env (defaultCalls (no_faults, no_faults) demo_ids) calm
       (\<lambda>c. c\<lparr>se_status := ''in_progress''\<rparr>) 5 ''org'' ''s1'' demo_admitted"
  have "fst ?run = Inr (Admitted (demo_candidate\<lparr>se_status := ''in_progress''\<rparr>))" by code_simp
  then have run: "?run = (Inr (Admitted (demo_candidate\<lparr>se_status := ''in_progress''\<rparr>)), snd ?run)"
    by (simp add: prod_eq_iff)
  have "ledger_reachable (books demo_admitted)"
    using ledger_calls.admission_outcome [OF demo_lobby_reachable, of "(no_faults, no_faults)" demo_ids calm demo_candidate 0 "''org''"]
      demo_created demo_lobby_reachable demo_billing(1)
    by (fastforce simp: demo_create_def createEntitledCandidateSession_def prog_bind_def prog_lift_def ledger_reachable_def)
  from resume_needs_a_credit [OF demo_billing(1) this run] run show ?thesis by auto
qed

theorem subscription_admission_respects_limit_witness:
  "\<exists>row. demo_create (no_faults, no_faults) (\<lambda>_. None) =
     (Inr (Admitted row), demo_lobby\<lparr>candidateSession := [row]\<rparr>)"
proof -
  obtain r t where run: "demo_create (no_faults, no_faults) (\<lambda>_. None) = (r, t)" by (metis surj_pair)
  have "\<exists>row. r = Inr (Admitted row)"
  proof -
    have "fst (demo_create (no_faults, no_faults) (\<lambda>_. None)) = Inr (Admitted demo_candidate)" by code_simp
    then show ?thesis using run by simp
  qed
  moreover have "candidateSession demo_lobby = []" by (simp add: demo_lobby_def)
  ultimately show ?thesis
    using subscription_admission_respects_limit [OF demo_billing(2) _ run [unfolded demo_create_def], of "unconfiguredBilling 0"] run
    by auto
qed

section \<open>Settlement charges the evidence and nothing else\<close>

lemma recordBilled_books:
  fixes s :: candidate_db
  shows "recordBilledCounts flt a w q k s = (r, t) \<Longrightarrow> books t = books s \<and> liveInterviewEvent t = liveInterviewEvent s \<and>
    (\<forall>j. j \<noteq> k \<longrightarrow> findSession j t = findSession j s)"
  by (auto simp: recordBilledCounts_def prog_bind_def may_fail_run updateSession_def prog_return_def findSession_def
      find_row_update split: option.splits)

text \<open>The trace after a call of the ledger: it is written exactly when the call did not throw.\<close>

lemma call_then_record:
  fixes s :: candidate_db
  assumes run: "prog_then (on_books call) (recordBilledCounts flt a w q k) s = (r, t)"
    and call: "call (books s) = (x, d)"
  shows "books t = d \<and> liveInterviewEvent t = liveInterviewEvent s \<and> (\<forall>j. j \<noteq> k \<longrightarrow> findSession j t = findSession j s) \<and>
    (isl x \<longrightarrow> candidateSession t = candidateSession s) \<and>
    (\<not> isl x \<longrightarrow> update_fault flt = None \<longrightarrow> findSession k t = map_option
       (\<lambda>c. c\<lparr>se_billedAnsweredCount := Some a, se_billedOutcome := Some w, se_billedRequiredCount := Some q\<rparr>)
       (findSession k s))"
proof (cases x)
  case (Inl e)
  then show ?thesis
    using run call by (auto simp: prog_then_def prog_bind_def on_books_run findSession_def)
next
  case (Inr y)
  then have rec: "recordBilledCounts flt a w q k (s\<lparr>books := d\<rparr>) = (r, t)"
    using run call by (simp add: prog_then_def prog_bind_def on_books_run)
  have "update_fault flt = None \<longrightarrow> findSession k t = map_option
       (\<lambda>c. c\<lparr>se_billedAnsweredCount := Some a, se_billedOutcome := Some w, se_billedRequiredCount := Some q\<rparr>)
       (findSession k s)"
    using rec by (auto simp: recordBilledCounts_def prog_bind_def may_fail_run updateSession_def prog_return_def
        findSession_def find_row_update split: option.splits)
  then show ?thesis using recordBilled_books [OF rec] Inr by (simp add: findSession_def)
qed

text \<open>What a settlement calls, and what it records.\<close>

definition verdict_of :: "CandidateSession \<Rightarrow> candidate_db \<Rightarrow> billable_decision" where
  "verdict_of row s = evaluateBillableCompletion (json_length (se_questions row))
     (if truthy (se_realtimeSessionId row)
      then map snd (outcomeByQuestion (questionEvents (the (se_realtimeSessionId row)) s)) else []) None"

definition recorded :: "db_faults \<Rightarrow> string \<Rightarrow> CandidateSession \<Rightarrow> string \<Rightarrow> int \<Rightarrow> int \<Rightarrow> candidate_db \<Rightarrow> bool" where
  "recorded flt k row w a q t \<longleftrightarrow> update_fault flt \<noteq> None \<or> findSession k t =
     Some (row\<lparr>se_billedAnsweredCount := Some a, se_billedOutcome := Some w, se_billedRequiredCount := Some q\<rparr>)"

lemma verdict_enough: "billable (verdict_of row s) \<longleftrightarrow> enough_answers row s"
proof (cases "truthy (se_realtimeSessionId row)")
  case True
  then show ?thesis using decision_enough by (simp add: verdict_of_def)
next
  case False
  then show ?thesis by (simp add: verdict_of_def enough_answers_def billable_half)
qed

lemma verdict_unevidenced:
  "\<not> truthy (se_realtimeSessionId row) \<Longrightarrow> answeredCount (verdict_of row s) = 0"
  by (simp add: verdict_of_def evaluateBillableCompletion_def Let_def)

text \<open>A completed settlement is one ledger call followed by the trace of the verdict.\<close>

lemma settleCompleted_run:
  fixes s :: candidate_db
  assumes "read_fault flt = None"
  shows "settleCompleted calls flt now k row s =
    (if enough_answers row s
     then prog_then (on_books (captureCredit calls (se_organizationId row) k now))
            (recordBilledCounts flt (answeredCount (verdict_of row s)) ''captured'' (requiredCount (verdict_of row s)) k)
     else prog_then (on_books (releaseCredit calls (se_organizationId row) k now
              (if truthy (se_realtimeSessionId row) then ''below_billable_threshold'' else ''no_billable_evidence'')))
            (recordBilledCounts flt (answeredCount (verdict_of row s)) ''released'' (requiredCount (verdict_of row s)) k)) s"
proof (cases "truthy (se_realtimeSessionId row)")
  case True
  with assms show ?thesis
    by (simp add: settleCompleted_def Let_def loadQuestionOutcomes_def prog_bind_def may_fail_run prog_get_def
        prog_return_def verdict_enough [symmetric]) (simp add: verdict_of_def)
next
  case False
  then have "\<not> enough_answers row s" by (simp add: enough_answers_def)
  with False verdict_unevidenced [OF False, of s] show ?thesis
    by (simp add: settleCompleted_def Let_def) (simp add: verdict_of_def)
qed

lemma settle_never_throws:
  "fst (settleCandidateSessionCredit env calls flt kind now k s) = Inr ()"
  by (auto simp: settleCandidateSessionCredit_def prog_catch_def prog_return_def split: prod.split sum.split)

lemma settle_run:
  fixes s :: candidate_db
  shows "snd (settleCandidateSessionCredit env calls flt kind now k s) =
    (if \<not> isCreditBillingEnabled env \<or> read_fault flt \<noteq> None then s
     else case findSession k s of
         None \<Rightarrow> s
       | Some row \<Rightarrow> snd ((if kind \<noteq> completed
             then prog_then (on_books (releaseCredit calls (se_organizationId row) k now (kind_word kind))) (prog_return ())
             else settleCompleted calls flt now k row) s))"
  by (auto simp: settleCandidateSessionCredit_def prog_catch_def prog_return_def prog_bind_def prog_get_def may_fail_run
      split: prod.split sum.split option.split)

text \<open>
  The two effects a settlement can have: a release, or, for a completed interview with enough
  answers, a capture.
\<close>

lemma settle_cases:
  fixes s :: candidate_db
  assumes "settleCandidateSessionCredit env calls flt kind now k s = (r, t)"
  obtains (idle) "t = s"
  | (released) row reason x d where "isCreditBillingEnabled env" "findSession k s = Some row"
      "releaseCredit calls (se_organizationId row) k now reason (books s) = (x, d)" "books t = d"
      "liveInterviewEvent t = liveInterviewEvent s" "\<forall>j. j \<noteq> k \<longrightarrow> findSession j t = findSession j s"
  | (captured) row x d where "isCreditBillingEnabled env" "findSession k s = Some row" "kind = completed"
      "enough_answers row s"
      "captureCredit calls (se_organizationId row) k now (books s) = (x, d)" "books t = d"
      "liveInterviewEvent t = liveInterviewEvent s" "\<forall>j. j \<noteq> k \<longrightarrow> findSession j t = findSession j s"
proof (cases "isCreditBillingEnabled env \<and> read_fault flt = None \<and> findSession k s \<noteq> None")
  case False
  then have "t = s" using settle_run [of env calls flt kind now k s] assms by auto
  then show thesis by (rule idle)
next
  case True
  then obtain row where on: "isCreditBillingEnabled env" and rf: "read_fault flt = None" and row: "findSession k s = Some row"
    by auto
  show thesis
  proof (cases "kind = completed \<and> enough_answers row s")
    case b: True
    obtain x d where call: "captureCredit calls (se_organizationId row) k now (books s) = (x, d)" by (metis surj_pair)
    obtain q where "prog_then (on_books (captureCredit calls (se_organizationId row) k now))
        (recordBilledCounts flt (answeredCount (verdict_of row s)) ''captured'' (requiredCount (verdict_of row s)) k) s = (q, t)"
      using settle_run [of env calls flt kind now k s] assms on rf row b
      by (simp add: settleCompleted_run) (metis prod.collapse)
    from call_then_record [OF this call] show thesis using captured [OF on row _ _ call] b by blast
  next
    case b: False
    define reason where "reason = (if kind \<noteq> completed then kind_word kind
      else if truthy (se_realtimeSessionId row) then ''below_billable_threshold'' else ''no_billable_evidence'')"
    obtain x d where call: "releaseCredit calls (se_organizationId row) k now reason (books s) = (x, d)" by (metis surj_pair)
    show thesis
    proof (cases "kind = completed")
      case True
      obtain q where "prog_then (on_books (releaseCredit calls (se_organizationId row) k now reason))
          (recordBilledCounts flt (answeredCount (verdict_of row s)) ''released'' (requiredCount (verdict_of row s)) k) s = (q, t)"
        using settle_run [of env calls flt kind now k s] assms on rf row b True
        by (simp add: settleCompleted_run reason_def) (metis prod.collapse)
      from call_then_record [OF this call] show thesis using released [OF on row call] by blast
    next
      case False
      then have "t = s\<lparr>books := d\<rparr>"
        using settle_run [of env calls flt kind now k s] assms on rf row call
        by (cases x) (auto simp: reason_def prog_then_def prog_bind_def on_books_run prog_return_def)
      then show thesis using released [OF on row call] by (simp add: findSession_def)
    qed
  qed
qed

context credit_service
begin

lemma settle_outcome:
  fixes s :: candidate_db
  assumes reach: "ledger_reachable (books s)"
    and run: "settleCandidateSessionCredit env calls flt kind now k s = (r, t)"
  shows "ledger_step\<^sup>*\<^sup>* (books s) (books t)"
    and "charged j (books t) \<Longrightarrow> \<not> charged j (books s) \<Longrightarrow> j = k \<and> kind = completed \<and>
      isCreditBillingEnabled env \<and> (\<exists>row. findSession k s = Some row \<and> enough_answers row s)"
  using run
  by (cases rule: settle_cases; use capture_moves release_moves capture_charges [OF reach] release_charges [OF reach] in fastforce)+

end

text \<open>
  C7: a settlement never throws and never charges without evidence. Whatever fails, it answers
  normally, the ledger moves by ledger transactions only, events and other sessions stay as they
  were, and a session can turn charged only if it is the settled one, its end is a completion,
  and its runtime session shows at least three distinct answered questions that are at least half
  of a non-empty plan, where the last event of a question decides and unattributed events are
  void.
\<close>
theorem settlement_charges_only_evidence:
  fixes s :: candidate_db
  assumes "ledger_reachable (books s)"
    and "settleCandidateSessionCredit env (defaultCalls flt ids) dbf kind now k s = (r, t)"
  shows "r = Inr () \<and> ledger_reachable (books t) \<and> liveInterviewEvent t = liveInterviewEvent s \<and>
    (\<forall>j. j \<noteq> k \<longrightarrow> findSession j t = findSession j s) \<and>
    (\<forall>j. charged j (books t) \<longrightarrow> charged j (books s) \<or>
       j = k \<and> kind = completed \<and> (\<exists>row. findSession k s = Some row \<and> enough_answers row s))"
proof -
  note eff = ledger_calls.settle_outcome [OF assms]
  have "r = Inr ()" using settle_never_throws [of env "defaultCalls flt ids" dbf kind now k s] assms(2) by simp
  moreover have "ledger_reachable (books t)" using eff(1) assms(1) by (auto simp: ledger_reachable_def)
  moreover from assms(2) have "liveInterviewEvent t = liveInterviewEvent s \<and> (\<forall>j. j \<noteq> k \<longrightarrow> findSession j t = findSession j s)"
    by (cases rule: settle_cases) auto
  ultimately show ?thesis using eff(2) by blast
qed

text \<open>
  C8: a completed interview is settled exactly. With the ledger and the database up and a live
  hold of the organization behind the session, settling the completion captures the hold when the
  evidence reaches the threshold and releases it otherwise, and the trace columns record the
  verdict: how many answers counted, how many were required, and which of the two happened.
\<close>
theorem completed_settlement_is_exact:
  fixes s :: candidate_db
  assumes "isCreditBillingEnabled env" and "ledger_reachable (books s)"
    and "findSession k s = Some row"
    and "findReservation k (books s) = Some hold" and "cr_organizationId hold = se_organizationId row"
    and "cr_status hold = Known Held"
    and "settleCandidateSessionCredit env (defaultCalls (f, no_faults) ids) calm completed now k s = (r, t)"
  shows "map_option cr_status (findReservation k (books t)) =
      Some (Known (if enough_answers row s then Captured else Released)) \<and>
    findSession k t = Some (row\<lparr>
      se_billedAnsweredCount := Some (answeredCount (verdict_of row s)),
      se_billedOutcome := Some (if enough_answers row s then ''captured'' else ''released''),
      se_billedRequiredCount := Some (requiredCount (verdict_of row s))\<rparr>)"
proof -
  let ?org = "se_organizationId row"
  have inv: "ledger_inv (books s)" by (rule reachable_inv [OF assms(2)])
  let ?run = "settleCompleted (defaultCalls (f, no_faults) ids) calm now k row s"
  have t: "t = snd ?run"
    using settle_run [of env "defaultCalls (f, no_faults) ids" calm completed now k s] assms(1,3,7) by (simp add: calm_def)
  then obtain q where run: "?run = (q, t)" by (metis prod.collapse)
  have rf: "read_fault calm = None" "update_fault calm = None" by (simp_all add: calm_def)
  note run' = run [unfolded settleCompleted_run [OF rf(1)]]
  show ?thesis
  proof (cases "enough_answers row s")
    case True
    obtain d where d: "captureReservationForSession no_faults ?org k now (books s) = (Inr CaptureDone, d)"
        "findReservation k d = Some (capture_marks now hold)"
      using held_capture [OF inv assms(4,5,6)] by blast
    have call: "captureCredit (defaultCalls (f, no_faults) ids) ?org k now (books s) = (Inr CaptureDone, d)"
      using d(1) by (simp add: defaultCalls_def)
    from call_then_record [OF run' [unfolded if_P [OF True]] call] show ?thesis
      using True assms(3) d(2) rf(2) by (simp add: capture_marks_def)
  next
    case False
    define reason where "reason = (if truthy (se_realtimeSessionId row) then ''below_billable_threshold'' else ''no_billable_evidence'')"
    obtain d where d: "releaseReservationForSession no_faults ?org k now reason (books s) = (Inr ReleaseDone, d)"
        "findReservation k d = Some (hold\<lparr>cr_status := Known Released, cr_resolvedAt := Some now\<rparr>)"
      using held_release [OF inv assms(4,5,6)] by blast
    have call: "releaseCredit (defaultCalls (f, no_faults) ids) ?org k now reason (books s) = (Inr ReleaseDone, d)"
      using d(1) by (simp add: defaultCalls_def)
    from call_then_record [OF run' [unfolded if_not_P [OF False], folded reason_def] call] show ?thesis
      using False assms(3) d(2) rf(2) by simp
  qed
qed

text \<open>
  C40: the trace does not read the answer of the ledger. A completed interview with enough answers
  and no hold at all, so that the capture answers \<open>no_reservation\<close> and moves nothing, is still
  recorded as \<open>captured\<close>.
\<close>
theorem trace_says_captured_without_capture:
  fixes s :: candidate_db
  assumes "isCreditBillingEnabled env" and "findSession k s = Some row" and "enough_answers row s"
    and "findReservation k (books s) = None" and "findWallet (se_organizationId row) (books s) = Some w"
    and "settleCandidateSessionCredit env (defaultCalls (f, no_faults) ids) calm completed now k s = (r, t)"
  shows "books t = books s \<and> map_option se_billedOutcome (findSession k t) = Some (Some ''captured'')"
proof -
  let ?run = "settleCompleted (defaultCalls (f, no_faults) ids) calm now k row s"
  have t: "t = snd ?run"
    using settle_run [of env "defaultCalls (f, no_faults) ids" calm completed now k s] assms(1,2,6) by (simp add: calm_def)
  then obtain q where run: "?run = (q, t)" by (metis prod.collapse)
  have rf: "read_fault calm = None" "update_fault calm = None" by (simp_all add: calm_def)
  have "captureTx (se_organizationId row) k now (books s) = Inr (CaptureNoReservation, books s)"
    using assms(4) by (simp add: captureTx_def tx_bind_def tx_get_def tx_return_def)
  then have call: "captureCredit (defaultCalls (f, no_faults) ids) (se_organizationId row) k now (books s) =
      (Inr CaptureNoReservation, books s)"
    using runInWallet_no_faults [where work = "captureTx (se_organizationId row) k now", OF assms(5)]
    by (simp add: defaultCalls_def captureReservationForSession_def)
  from call_then_record [OF run [unfolded settleCompleted_run [OF rf(1)] if_P [OF assms(3)]] call] show ?thesis
    using assms(2) rf(2) by simp
qed

definition demo_event :: "int \<Rightarrow> string \<Rightarrow> LiveInterviewEvent" where
  "demo_event n q = \<lparr>le_sessionId = ''rt1'', le_type = ''question_completed'', le_sequenceNumber = n,
     le_payload = JObject [(''question_id'', JString q), (''completion_reason'', JString ''answered'')]\<rparr>"

definition demo_interviewed :: candidate_db where
  "demo_interviewed = demo_admitted\<lparr>liveInterviewEvent :=
     [demo_event 3 ''q1'', demo_event 1 ''q1'', demo_event 2 ''q2'', demo_event 4 ''q3'']\<rparr>"

definition demo_settled :: "candidate_db \<Rightarrow> (candidate_error + unit) \<times> candidate_db" where
  "demo_settled s = settleCandidateSessionCredit demo_env (defaultCalls (no_faults, no_faults) demo_ids) calm completed 9 ''s1'' s"

lemma demo_interviewed_reachable: "ledger_reachable (books demo_interviewed)"
  using ledger_calls.admission_outcome [OF demo_lobby_reachable, of "(no_faults, no_faults)" demo_ids calm demo_candidate 0 "''org''"]
    demo_created demo_lobby_reachable demo_billing(1)
  by (fastforce simp: demo_interviewed_def demo_create_def createEntitledCandidateSession_def prog_bind_def prog_lift_def
      ledger_reachable_def)

lemma demo_evidence: "findSession ''s1'' demo_interviewed = Some demo_candidate" "enough_answers demo_candidate demo_interviewed"
  by code_simp+

lemma demo_hold:
  "\<exists>hold. findReservation ''s1'' (books demo_interviewed) = Some hold \<and> cr_organizationId hold = ''org'' \<and> cr_status hold = Known Held"
proof -
  have "map_option cr_organizationId (findReservation ''s1'' (books demo_interviewed)) = Some ''org''"
    "map_option cr_status (findReservation ''s1'' (books demo_interviewed)) = Some (Known Held)" by code_simp+
  then show ?thesis by auto
qed

theorem settlement_charges_only_evidence_witness:
  "fst (demo_settled demo_drained) = Inr () \<and> ledger_reachable (books (snd (demo_settled demo_drained)))"
  using settlement_charges_only_evidence [OF demo_drained_reachable, of demo_env "(no_faults, no_faults)" demo_ids calm completed 9 "''s1''"]
  unfolding demo_settled_def by (metis prod.collapse)

theorem completed_settlement_is_exact_witness:
  "map_option cr_status (findReservation ''s1'' (books (snd (demo_settled demo_interviewed)))) = Some (Known Captured)"
proof -
  obtain hold where hold: "findReservation ''s1'' (books demo_interviewed) = Some hold" "cr_organizationId hold = ''org''"
      "cr_status hold = Known Held"
    using demo_hold by blast
  obtain r t where run: "demo_settled demo_interviewed = (r, t)" by (metis surj_pair)
  have "se_organizationId demo_candidate = ''org''" by (simp add: demo_candidate_def)
  then have "map_option cr_status (findReservation ''s1'' (books t)) = Some (Known Captured)"
    using completed_settlement_is_exact [OF demo_billing(1) demo_interviewed_reachable demo_evidence(1) hold(1) _ hold(3)
        run [unfolded demo_settled_def]] hold(2) demo_evidence(2) by simp
  then show ?thesis using run by simp
qed

definition demo_unheld :: candidate_db where
  "demo_unheld = demo_interviewed\<lparr>books := snd (ensureWallet no_faults demo_ids ''org'' 0 None empty_db)\<rparr>"

theorem trace_says_captured_without_capture_witness:
  "books (snd (demo_settled demo_unheld)) = books demo_unheld \<and>
   map_option se_billedOutcome (findSession ''s1'' (snd (demo_settled demo_unheld))) = Some (Some ''captured'')"
proof -
  have s: "findSession ''s1'' demo_unheld = Some demo_candidate" "enough_answers demo_candidate demo_unheld"
    by code_simp+
  have "findReservation ''s1'' (books demo_unheld) = None" by code_simp
  moreover have "map_option cw_id (findWallet (se_organizationId demo_candidate) (books demo_unheld)) = Some (fresh_walletId demo_ids)"
    by code_simp
  then obtain w where "findWallet (se_organizationId demo_candidate) (books demo_unheld) = Some w" by auto
  moreover obtain r t where run: "demo_settled demo_unheld = (r, t)" by (metis surj_pair)
  ultimately show ?thesis
    using trace_says_captured_without_capture [OF demo_billing(1) s _ _ run [unfolded demo_settled_def]] by simp
qed

end
