(* ===== verification/WorkspaceAccess.thy ===== *)
theory WorkspaceAccess
  imports Effects JsJson
begin

text \<open>
  Who may do what in a workspace: the role matrix of \<open>organization-permissions.ts\<close>, the scope a
  request runs in (\<open>organization-access-policy.ts\<close>), the translation between the workspace roles and
  Clerk's coarse ones (\<open>clerk-role-sync.ts\<close>), and the team operations of \<open>team-management.ts\<close> over
  a directory of members.
\<close>

section \<open>Roles and permissions\<close>

datatype OrganizationRole = owner | admin | recruiter | viewer

definition organizationRoles :: "OrganizationRole list" where
  "organizationRoles = [owner, admin, recruiter, viewer]"

definition role_word :: "OrganizationRole \<Rightarrow> string" where
  "role_word r = (case r of owner \<Rightarrow> ''owner'' | admin \<Rightarrow> ''admin'' | recruiter \<Rightarrow> ''recruiter'' | viewer \<Rightarrow> ''viewer'')"

definition TEAM_MANAGER_ROLES :: "OrganizationRole list" where
  "TEAM_MANAGER_ROLES = [owner, admin]"

definition ROLE_MANAGER_ROLES :: "OrganizationRole list" where
  "ROLE_MANAGER_ROLES = [owner, admin, recruiter]"

definition ASSIGNABLE_ROLE_OPTIONS :: "OrganizationRole list" where
  "ASSIGNABLE_ROLE_OPTIONS = [admin, recruiter, viewer]"

definition canManageTeam :: "OrganizationRole \<Rightarrow> bool" where
  "canManageTeam role \<longleftrightarrow> role \<in> set TEAM_MANAGER_ROLES"

definition canInviteMember :: "OrganizationRole \<Rightarrow> bool" where
  "canInviteMember role \<longleftrightarrow> canManageTeam role"

definition canManageRoles :: "OrganizationRole \<Rightarrow> bool" where
  "canManageRoles role \<longleftrightarrow> role \<in> set ROLE_MANAGER_ROLES"

definition canPurchaseCredits :: "OrganizationRole \<Rightarrow> bool" where
  "canPurchaseCredits role \<longleftrightarrow> canManageTeam role"

definition canManageMember :: "OrganizationRole \<Rightarrow> OrganizationRole \<Rightarrow> bool" where
  "canManageMember actorRole targetRole \<longleftrightarrow>
     (if \<not> canManageTeam actorRole then False
      else if actorRole = owner then True
      else targetRole \<noteq> owner)"

definition canAssignRole :: "OrganizationRole \<Rightarrow> OrganizationRole \<Rightarrow> bool" where
  "canAssignRole actorRole newRole \<longleftrightarrow>
     (if \<not> canManageTeam actorRole then False
      else if newRole = owner then actorRole = owner
      else True)"

definition canChangeMemberRole :: "OrganizationRole \<Rightarrow> OrganizationRole \<Rightarrow> OrganizationRole \<Rightarrow> bool" where
  "canChangeMemberRole actorRole targetRole newRole \<longleftrightarrow>
     canManageMember actorRole targetRole \<and> canAssignRole actorRole newRole"

definition canRemoveMember :: "OrganizationRole \<Rightarrow> OrganizationRole \<Rightarrow> bool" where
  "canRemoveMember actorRole targetRole \<longleftrightarrow> canManageMember actorRole targetRole"

definition canEraseCandidateData :: "OrganizationRole \<Rightarrow> bool" where
  "canEraseCandidateData role \<longleftrightarrow> role = owner \<or> role = admin"

definition canDeleteRecording :: "OrganizationRole \<Rightarrow> bool" where
  "canDeleteRecording role \<longleftrightarrow> role = owner \<or> role = admin"

definition canManageCandidateReview :: "OrganizationRole \<Rightarrow> bool" where
  "canManageCandidateReview role \<longleftrightarrow> role = owner \<or> role = admin \<or> role = recruiter"

lemmas role_tables = TEAM_MANAGER_ROLES_def ROLE_MANAGER_ROLES_def ASSIGNABLE_ROLE_OPTIONS_def organizationRoles_def

lemmas permission_defs = canManageTeam_def canInviteMember_def canManageRoles_def canPurchaseCredits_def
  canManageMember_def canAssignRole_def canChangeMemberRole_def canRemoveMember_def role_tables

section \<open>The roles of the identity provider\<close>

text \<open>
  A lookup in an object literal: an own member, or one of the members every object inherits, which
  is no role at all. \<open>Some None\<close> stands for such an inherited member, \<open>None\<close> for \<open>undefined\<close>.
\<close>

definition object_prototype_members :: "string list" where
  "object_prototype_members = [''constructor'', ''hasOwnProperty'', ''isPrototypeOf'', ''propertyIsEnumerable'',
     ''toLocaleString'', ''toString'', ''valueOf'', ''__proto__'', ''__defineGetter__'', ''__defineSetter__'',
     ''__lookupGetter__'', ''__lookupSetter__'']"

definition clerkRoleMap :: "(string \<times> OrganizationRole) list" where
  "clerkRoleMap = [(''org:admin'', admin), (''org:member'', recruiter), (''admin'', admin), (''member'', recruiter),
     (''owner'', owner), (''recruiter'', recruiter), (''viewer'', viewer)]"

definition object_get :: "(string \<times> 'a) list \<Rightarrow> string \<Rightarrow> 'a option option" where
  "object_get m key = (case map_of m key of
     Some v \<Rightarrow> Some (Some v)
   | None \<Rightarrow> if key \<in> set object_prototype_members then Some None else None)"

text \<open>\<open>None\<close>: the answer is not a role (an inherited member of the table).\<close>

definition mapClerkOrganizationRole :: "string option \<Rightarrow> OrganizationRole \<Rightarrow> OrganizationRole option" where
  "mapClerkOrganizationRole role fallback =
     (case role of
        None \<Rightarrow> Some fallback
      | Some r \<Rightarrow> if r = '''' then Some fallback
                  else (case object_get clerkRoleMap r of Some v \<Rightarrow> v | None \<Rightarrow> Some viewer))"

definition isKnownClerkRole :: "string \<Rightarrow> bool" where
  "isKnownClerkRole role \<longleftrightarrow> map_of clerkRoleMap role \<noteq> None"

definition hasAuthenticatedClerkUser :: "string option \<Rightarrow> bool" where
  "hasAuthenticatedClerkUser clerkUserId \<longleftrightarrow> truthy clerkUserId"

definition toClerkMembershipRole :: "OrganizationRole \<Rightarrow> string" where
  "toClerkMembershipRole role = (if role = owner \<or> role = admin then ''org:admin'' else ''org:member'')"

definition parse_role :: "string \<Rightarrow> OrganizationRole option" where
  "parse_role w = find (\<lambda>r. role_word r = w) organizationRoles"

text \<open>\<open>metadata && typeof metadata === "object" && "preludeRole" in metadata\<close>\<close>

definition readPreludeRole :: "json option \<Rightarrow> string option" where
  "readPreludeRole metadata =
     (case metadata of
        Some (JObject members) \<Rightarrow> (case json_member members ''preludeRole'' of Some (JString v) \<Rightarrow> Some v | _ \<Rightarrow> None)
      | _ \<Rightarrow> None)"

definition preludeRoleMetadata :: "OrganizationRole \<Rightarrow> json" where
  "preludeRoleMetadata role = JObject [(''preludeRole'', JString (role_word role))]"

definition resolveOrganizationRoleFromClerk :: "string option \<Rightarrow> string option \<Rightarrow> OrganizationRole option" where
  "resolveOrganizationRoleFromClerk publicMetadataRole clerkRole =
     (case Option.bind (map_option (\<lambda>m. js_toLowerCase (js_trim m)) publicMetadataRole) parse_role of
        Some granularRole \<Rightarrow>
          (case truthy_id clerkRole of
             Some c \<Rightarrow> if isKnownClerkRole c \<and> toClerkMembershipRole granularRole \<noteq> c
                       then mapClerkOrganizationRole clerkRole viewer
                       else Some granularRole
           | None \<Rightarrow> Some granularRole)
      | None \<Rightarrow> mapClerkOrganizationRole clerkRole viewer)"

section \<open>The scope of a request\<close>

record CompletedOrganizationScope =
  sc_organizationId :: string
  sc_organizationName :: string
  sc_clerkOrganizationId :: "string option"
  sc_userId :: string
  sc_role :: "OrganizationRole option"

record MembershipCandidate =
  mc_organizationId :: string
  mc_role :: "string option"
  mc_status :: string
  mc_userId :: string
  mc_clerkOrganizationId :: "string option"
  mc_name :: string
  mc_onboardingCompletedAt :: "int option"

definition resolveCompletedOrganizationScope ::
  "string option \<Rightarrow> string option \<Rightarrow> MembershipCandidate list \<Rightarrow> CompletedOrganizationScope option" where
  "resolveCompletedOrganizationScope clerkOrganizationId clerkUserId memberships =
     (if \<not> hasAuthenticatedClerkUser clerkUserId then None
      else map_option
        (\<lambda>m. \<lparr>sc_organizationId = mc_organizationId m, sc_organizationName = mc_name m,
               sc_clerkOrganizationId = mc_clerkOrganizationId m, sc_userId = mc_userId m,
               sc_role = mapClerkOrganizationRole (mc_role m) viewer\<rparr>)
        (find (\<lambda>c. mc_status c = ''active'' \<and> mc_onboardingCompletedAt c \<noteq> None \<and>
                   (truthy clerkOrganizationId \<longrightarrow> mc_clerkOrganizationId c = clerkOrganizationId)) memberships))"

section \<open>Team management\<close>

record TeamActor =
  ta_organizationId :: string
  ta_clerkOrganizationId :: "string option"
  ta_role :: OrganizationRole
  ta_userId :: string

text \<open>A refusal names the key of the localized message.\<close>

datatype 'a TeamResult = TeamOk 'a | TeamRefused string

record PendingInvitation =
  pi_id :: string
  pi_email :: string
  pi_role :: "OrganizationRole option"

text \<open>The directory the operations are handed: programs over a state of its own.\<close>

record ('e, 's) OrganizationDirectory =
  inviteMember :: "string \<Rightarrow> string \<Rightarrow> OrganizationRole \<Rightarrow> string \<Rightarrow> ('e, 's, string) prog"
  listPendingInvitations :: "string \<Rightarrow> ('e, 's, PendingInvitation list) prog"
  revokeInvitation :: "string \<Rightarrow> string \<Rightarrow> string \<Rightarrow> ('e, 's, unit) prog"
  getMemberRole :: "string \<Rightarrow> string \<Rightarrow> ('e, 's, OrganizationRole option) prog"
  setMemberRole :: "string \<Rightarrow> string \<Rightarrow> OrganizationRole \<Rightarrow> ('e, 's, unit) prog"
  removeMember :: "string \<Rightarrow> string \<Rightarrow> ('e, 's, unit) prog"

text \<open>\<open>/^[^\s@]+@[^\s@]+\.[^\s@]+$/\<close>\<close>

definition plain_char :: "char \<Rightarrow> bool" where
  "plain_char c \<longleftrightarrow> \<not> is_js_space c \<and> c \<noteq> CHR ''@''"

definition dotted_domain :: "string \<Rightarrow> bool" where
  "dotted_domain d \<longleftrightarrow> list_all plain_char d \<and>
     list_ex (\<lambda>i. d ! i = CHR ''.'') [1..<length d - 1]"

definition email_shape :: "string \<Rightarrow> bool" where
  "email_shape s \<longleftrightarrow> (let local_part = takeWhile (\<lambda>c. c \<noteq> CHR ''@'') s;
       rest = dropWhile (\<lambda>c. c \<noteq> CHR ''@'') s
     in local_part \<noteq> [] \<and> list_all plain_char local_part \<and> rest \<noteq> [] \<and> dotted_domain (tl rest))"

definition requireRealWorkspace :: "TeamActor \<Rightarrow> string TeamResult" where
  "requireRealWorkspace actor =
     (case truthy_id (ta_clerkOrganizationId actor) of
        None \<Rightarrow> TeamRefused ''settings.team.mockModeError''
      | Some w \<Rightarrow> TeamOk w)"

definition inviteTeamMember ::
  "('e, 's) OrganizationDirectory \<Rightarrow> TeamActor \<Rightarrow> string \<Rightarrow> OrganizationRole \<Rightarrow> ('e, 's, string TeamResult) prog" where
  "inviteTeamMember directory actor email role =
     (case requireRealWorkspace actor of
        TeamRefused e \<Rightarrow> prog_return (TeamRefused e)
      | TeamOk workspace \<Rightarrow>
          if \<not> canInviteMember (ta_role actor) then prog_return (TeamRefused ''settings.team.inviteForbidden'')
          else if \<not> canAssignRole (ta_role actor) role then prog_return (TeamRefused ''settings.team.assignRoleForbidden'')
          else let address = js_toLowerCase (js_trim email)
               in if \<not> email_shape address then prog_return (TeamRefused ''settings.team.invalidEmail'')
                  else prog_bind (inviteMember directory workspace address role (ta_userId actor))
                         (\<lambda>invitationId. prog_return (TeamOk invitationId)))"

definition revokeTeamInvitation ::
  "('e, 's) OrganizationDirectory \<Rightarrow> TeamActor \<Rightarrow> string \<Rightarrow> ('e, 's, unit TeamResult) prog" where
  "revokeTeamInvitation directory actor invitationId =
     (case requireRealWorkspace actor of
        TeamRefused e \<Rightarrow> prog_return (TeamRefused e)
      | TeamOk workspace \<Rightarrow>
          if \<not> canInviteMember (ta_role actor) then prog_return (TeamRefused ''settings.team.revokeForbidden'')
          else prog_then (revokeInvitation directory workspace invitationId (ta_userId actor)) (prog_return (TeamOk ())))"

definition changeTeamMemberRole ::
  "('e, 's) OrganizationDirectory \<Rightarrow> TeamActor \<Rightarrow> string \<Rightarrow> OrganizationRole \<Rightarrow> ('e, 's, unit TeamResult) prog" where
  "changeTeamMemberRole directory actor userId newRole =
     (case requireRealWorkspace actor of
        TeamRefused e \<Rightarrow> prog_return (TeamRefused e)
      | TeamOk workspace \<Rightarrow>
          if userId = ta_userId actor then prog_return (TeamRefused ''settings.team.cannotChangeOwnRole'')
          else prog_bind (getMemberRole directory workspace userId) (\<lambda>targetRole.
            case targetRole of
              None \<Rightarrow> prog_return (TeamRefused ''settings.team.memberNotFound'')
            | Some target \<Rightarrow>
                if \<not> canChangeMemberRole (ta_role actor) target newRole
                then prog_return (TeamRefused ''settings.team.changeRoleForbidden'')
                else prog_then (setMemberRole directory workspace userId newRole) (prog_return (TeamOk ()))))"

definition removeTeamMember ::
  "('e, 's) OrganizationDirectory \<Rightarrow> TeamActor \<Rightarrow> string \<Rightarrow> ('e, 's, unit TeamResult) prog" where
  "removeTeamMember directory actor userId =
     (case requireRealWorkspace actor of
        TeamRefused e \<Rightarrow> prog_return (TeamRefused e)
      | TeamOk workspace \<Rightarrow>
          if userId = ta_userId actor then prog_return (TeamRefused ''settings.team.cannotRemoveSelf'')
          else prog_bind (getMemberRole directory workspace userId) (\<lambda>targetRole.
            case targetRole of
              None \<Rightarrow> prog_return (TeamOk ())
            | Some target \<Rightarrow>
                if \<not> canRemoveMember (ta_role actor) target
                then prog_return (TeamRefused ''settings.team.removeForbidden'')
                else prog_then (removeMember directory workspace userId) (prog_return (TeamOk ()))))"

section \<open>The directory on the identity provider\<close>

text \<open>
  The calls of the Clerk client, and the adapter over them. A membership carries the coarse role
  and the public metadata. \<open>Promise.all\<close> starts both writes of a role change: \<open>coarse_first\<close> is the
  order in which they land; one of them failing does not undo the other.
\<close>

record clerk_membership =
  cm_role :: string
  cm_publicMetadata :: "json option"

record clerk_invitation =
  ci_id :: string
  ci_emailAddress :: string
  ci_role :: string
  ci_publicMetadata :: "json option"

record ('e, 's) clerk_client =
  createInvitation :: "string \<Rightarrow> string \<Rightarrow> string \<Rightarrow> string \<Rightarrow> json \<Rightarrow> ('e, 's, string) prog"
  pendingInvitationList :: "string \<Rightarrow> ('e, 's, clerk_invitation list) prog"
  revokeOrganizationInvitation :: "string \<Rightarrow> string \<Rightarrow> string \<Rightarrow> ('e, 's, unit) prog"
  membershipOf :: "string \<Rightarrow> string \<Rightarrow> ('e, 's, clerk_membership option) prog"
  updateMembership :: "string \<Rightarrow> string \<Rightarrow> string \<Rightarrow> ('e, 's, unit) prog"
  updateMembershipMetadata :: "string \<Rightarrow> string \<Rightarrow> json \<Rightarrow> ('e, 's, unit) prog"
  deleteMembership :: "string \<Rightarrow> string \<Rightarrow> ('e, 's, unit) prog"

text \<open>Both programs run; the first error in order of landing is the result.\<close>

definition both :: "('e, 's, unit) prog \<Rightarrow> ('e, 's, unit) prog \<Rightarrow> ('e, 's, unit) prog" where
  "both m n = prog_bind (prog_try m) (\<lambda>a. prog_bind (prog_try n) (\<lambda>b.
     case a of Inl e \<Rightarrow> prog_throw e | Inr _ \<Rightarrow> prog_lift b))"

definition membershipRole :: "clerk_membership \<Rightarrow> OrganizationRole option" where
  "membershipRole m = resolveOrganizationRoleFromClerk (readPreludeRole (cm_publicMetadata m)) (Some (cm_role m))"

definition clerkOrganizationDirectory :: "bool \<Rightarrow> ('e, 's) clerk_client \<Rightarrow> ('e, 's) OrganizationDirectory" where
  "clerkOrganizationDirectory coarse_first client =
     \<lparr>inviteMember = (\<lambda>org email role inviter. createInvitation client org email (toClerkMembershipRole role) inviter
        (preludeRoleMetadata role)),
      listPendingInvitations = (\<lambda>org. prog_bind (pendingInvitationList client org) (\<lambda>rows. prog_return
        (map (\<lambda>i. \<lparr>pi_id = ci_id i, pi_email = ci_emailAddress i,
           pi_role = resolveOrganizationRoleFromClerk (readPreludeRole (ci_publicMetadata i)) (Some (ci_role i))\<rparr>) rows))),
      revokeInvitation = revokeOrganizationInvitation client,
      getMemberRole = (\<lambda>org user. prog_bind (membershipOf client org user) (\<lambda>m.
        prog_return (Option.bind m membershipRole))),
      setMemberRole = (\<lambda>org user role.
        let coarse = updateMembership client org user (toClerkMembershipRole role);
            granular = updateMembershipMetadata client org user (preludeRoleMetadata role)
        in if coarse_first then both coarse granular else both granular coarse),
      removeMember = deleteMembership client\<rparr>"

section \<open>The coarse role bounds the access\<close>

definition role_rank :: "OrganizationRole \<Rightarrow> nat" where
  "role_rank r = (case r of owner \<Rightarrow> 3 | admin \<Rightarrow> 2 | recruiter \<Rightarrow> 1 | viewer \<Rightarrow> 0)"

lemma role_words:
  "js_toLowerCase (js_trim ''owner'') = ''owner''" "js_toLowerCase (js_trim ''admin'') = ''admin''"
  "js_toLowerCase (js_trim ''recruiter'') = ''recruiter''" "js_toLowerCase (js_trim ''viewer'') = ''viewer''"
  by code_simp+

lemma parse_role_simps [simp]:
  "parse_role (role_word r) = Some r" "js_toLowerCase (js_trim (role_word r)) = role_word r"
  "readPreludeRole (Some (preludeRoleMetadata r)) = Some (role_word r)"
  by (cases r; simp add: role_words parse_role_def role_word_def organizationRoles_def readPreludeRole_def
      preludeRoleMetadata_def json_member_def)+

lemma parse_role_word: "parse_role w = Some r \<Longrightarrow> w = role_word r"
  unfolding parse_role_def find_Some_iff by auto

lemma map_clerk_coarse [simp]:
  "mapClerkOrganizationRole (Some ''org:admin'') viewer = Some admin"
  "mapClerkOrganizationRole (Some ''org:member'') viewer = Some recruiter"
  "isKnownClerkRole ''org:admin''" "isKnownClerkRole ''org:member''"
  by (simp_all add: mapClerkOrganizationRole_def object_get_def clerkRoleMap_def isKnownClerkRole_def)

lemma resolve_cases:
  "resolveOrganizationRoleFromClerk md (Some c) =
     (case Option.bind (map_option (\<lambda>m. js_toLowerCase (js_trim m)) md) parse_role of
        None \<Rightarrow> mapClerkOrganizationRole (Some c) viewer
      | Some g \<Rightarrow> if c \<noteq> '''' \<and> isKnownClerkRole c \<and> toClerkMembershipRole g \<noteq> c
                  then mapClerkOrganizationRole (Some c) viewer else Some g)"
  by (simp add: resolveOrganizationRoleFromClerk_def truthy_id_def split: option.split)

text \<open>
  C16: what Clerk's coarse role says bounds what the console grants. Whatever metadata a membership
  carries, a coarse member never manages the team and a coarse admin always does; a membership
  written by the console reads back as the role it wrote; and a role change of which only one of
  the two writes has landed, in either order, grants no more than the higher of the old and the
  new role, and ownership only if one of them is ownership.
\<close>
theorem coarse_role_bounds_access:
  "resolveOrganizationRoleFromClerk md (Some ''org:member'') \<in> {Some recruiter, Some viewer} \<and>
   resolveOrganizationRoleFromClerk md (Some ''org:admin'') \<in> {Some owner, Some admin} \<and>
   membershipRole \<lparr>cm_role = toClerkMembershipRole r, cm_publicMetadata = Some (preludeRoleMetadata r)\<rparr> = Some r \<and>
   (\<exists>x. membershipRole \<lparr>cm_role = toClerkMembershipRole r, cm_publicMetadata = Some (preludeRoleMetadata r')\<rparr> = Some x \<and>
      role_rank x \<le> max (role_rank r) (role_rank r') \<and> x \<in> {r, r', admin, recruiter})"
proof (intro conjI)
  let ?g = "Option.bind (map_option (\<lambda>m. js_toLowerCase (js_trim m)) md) parse_role"
  show "resolveOrganizationRoleFromClerk md (Some ''org:member'') \<in> {Some recruiter, Some viewer}"
    unfolding resolve_cases by (cases ?g; cases "the ?g") (simp_all add: toClerkMembershipRole_def)
  show "resolveOrganizationRoleFromClerk md (Some ''org:admin'') \<in> {Some owner, Some admin}"
    unfolding resolve_cases by (cases ?g; cases "the ?g") (simp_all add: toClerkMembershipRole_def)
  show "membershipRole \<lparr>cm_role = toClerkMembershipRole r, cm_publicMetadata = Some (preludeRoleMetadata r)\<rparr> = Some r"
    by (simp add: membershipRole_def resolve_cases)
  show "\<exists>x. membershipRole \<lparr>cm_role = toClerkMembershipRole r, cm_publicMetadata = Some (preludeRoleMetadata r')\<rparr> = Some x \<and>
      role_rank x \<le> max (role_rank r) (role_rank r') \<and> x \<in> {r, r', admin, recruiter}"
    by (cases r; cases r'; simp add: membershipRole_def resolve_cases toClerkMembershipRole_def role_rank_def)
qed

section \<open>The workspace keeps an owner\<close>

text \<open>
  What the operations rely on: reading a role changes nothing, and a write about one member, done
  or failed halfway, leaves the roles of all others. \<open>roles\<close> is the abstraction of the state.
\<close>

definition member_directory ::
  "('e, 's) OrganizationDirectory \<Rightarrow> ('s \<Rightarrow> string \<Rightarrow> string \<Rightarrow> OrganizationRole option) \<Rightarrow> bool" where
  "member_directory directory roles \<longleftrightarrow>
     (\<forall>org u s. getMemberRole directory org u s = (Inr (roles s org u), s)) \<and>
     (\<forall>org u r s v. v \<noteq> u \<longrightarrow> roles (snd (setMemberRole directory org u r s)) org v = roles s org v) \<and>
     (\<forall>org u s v. v \<noteq> u \<longrightarrow> roles (snd (removeMember directory org u s)) org v = roles s org v)"

datatype team_action = ChangeRole string string OrganizationRole | RemoveFrom string string

text \<open>One action of a member whose role is read from the directory when he acts.\<close>

definition acts :: "('e, 's) OrganizationDirectory \<Rightarrow> ('s \<Rightarrow> string \<Rightarrow> string \<Rightarrow> OrganizationRole option) \<Rightarrow> string \<Rightarrow>
    team_action \<Rightarrow> 's \<Rightarrow> 's" where
  "acts directory roles org action s =
     (let scope = (\<lambda>u r. \<lparr>ta_organizationId = org, ta_clerkOrganizationId = Some org, ta_role = r, ta_userId = u\<rparr>)
      in case action of
           ChangeRole a u r \<Rightarrow> (case roles s org a of None \<Rightarrow> s
             | Some ar \<Rightarrow> snd (changeTeamMemberRole directory (scope a ar) u r s))
         | RemoveFrom a u \<Rightarrow> (case roles s org a of None \<Rightarrow> s
             | Some ar \<Rightarrow> snd (removeTeamMember directory (scope a ar) u s)))"

lemma team_action_effect:
  assumes "member_directory directory roles" and "s' = acts directory roles org action s" and "s' \<noteq> s"
  obtains a u where "a \<noteq> u" "\<And>v. v \<noteq> u \<Longrightarrow> roles s' org v = roles s org v"
    "roles s org a = Some owner \<or> roles s org u \<noteq> Some owner"
proof -
  have get: "\<And>o' u. getMemberRole directory o' u s = (Inr (roles s o' u), s)"
    and other: "\<And>o' u r v. v \<noteq> u \<Longrightarrow> roles (snd (setMemberRole directory o' u r s)) o' v = roles s o' v"
      "\<And>o' u v. v \<noteq> u \<Longrightarrow> roles (snd (removeMember directory o' u s)) o' v = roles s o' v"
    using assms(1) by (auto simp: member_directory_def)
  show thesis
  proof (cases action)
    case (ChangeRole a u r)
    with assms(2,3) have "a \<noteq> u \<and> s' = snd (setMemberRole directory org u r s) \<and>
        (roles s org a = Some owner \<or> roles s org u \<noteq> Some owner)"
      by (auto simp: acts_def Let_def changeTeamMemberRole_def requireRealWorkspace_def truthy_id_def get prog_bind_def
          prog_return_def permission_defs prog_then_def split: option.splits if_splits prod.splits sum.splits)
    then show thesis using that other by metis
  next
    case (RemoveFrom a u)
    with assms(2,3) have "a \<noteq> u \<and> s' = snd (removeMember directory org u s) \<and>
        (roles s org a = Some owner \<or> roles s org u \<noteq> Some owner)"
      by (auto simp: acts_def Let_def removeTeamMember_def requireRealWorkspace_def truthy_id_def get prog_bind_def
          prog_return_def permission_defs prog_then_def split: option.splits if_splits prod.splits sum.splits)
    then show thesis using that other by metis
  qed
qed


text \<open>A directory of one workspace, kept as a map.\<close>

definition map_directory :: "(unit, string \<Rightarrow> OrganizationRole option) OrganizationDirectory" where
  "map_directory =
     \<lparr>inviteMember = (\<lambda>org email role inviter. prog_return email),
      listPendingInvitations = (\<lambda>org. prog_return []),
      revokeInvitation = (\<lambda>org i u. prog_return ()),
      getMemberRole = (\<lambda>org u. prog_get (\<lambda>s. s u)),
      setMemberRole = (\<lambda>org u r. prog_modify (\<lambda>s. s(u \<mapsto> r))),
      removeMember = (\<lambda>org u. prog_modify (\<lambda>s. s(u := None)))\<rparr>"

lemma map_directory_laws: "member_directory map_directory (\<lambda>s org. s)"
  by (simp add: member_directory_def map_directory_def prog_get_def prog_modify_def)


definition stale_scope :: "string \<Rightarrow> TeamActor" where
  "stale_scope u = \<lparr>ta_organizationId = ''org'', ta_clerkOrganizationId = Some ''org'', ta_role = owner, ta_userId = u\<rparr>"


end
