(* ===== verification/ClerkSync.thy ===== *)
theory ClerkSync
  imports WorkspaceAccess BillingService
begin

text \<open>
  The projection of Clerk into the workspace tables: what a webhook event means
  (\<open>clerk-webhook-sync.ts\<close>), the writes it makes (\<open>clerk-webhook-store.ts\<close>), and the answer of the
  route (\<open>api/clerk/webhook/route.ts\<close>). The signature check of the route is a call of Clerk's
  library: the theory starts from a verified event.
\<close>

section \<open>The tables\<close>

record User =
  us_id :: string
  us_clerkUserId :: string
  us_email :: string
  us_name :: "string option"

record OrganizationMembership =
  om_organizationId :: string
  om_userId :: string
  om_role :: "OrganizationRole option"
  om_status :: string

record OrganizationInvitation =
  oi_organizationId :: string
  oi_email :: string
  oi_role :: "OrganizationRole option"
  oi_status :: string
  oi_acceptedAt :: "int option"

record clerk_db =
  clerkOrganizations :: "(string \<times> string) list"   \<comment> \<open>id, Clerk id\<close>
  users :: "User list"
  memberships :: "OrganizationMembership list"
  invitations :: "OrganizationInvitation list"

text \<open>A Prisma error with its code and, where the driver names it, the violated constraint.\<close>

datatype constraint_target = TargetList "string list" | TargetText string | TargetUnknown

datatype sync_error =
    KnownRequestError string constraint_target
  | SyncError string

type_synonym 'a clerk_prog = "(sync_error, clerk_db, 'a) prog"

section \<open>Reading an event\<close>

definition asRecord :: "json option \<Rightarrow> (string \<times> json) list option" where
  "asRecord v = (case v of Some (JObject members) \<Rightarrow> Some members | Some (JArray _) \<Rightarrow> Some [] | _ \<Rightarrow> None)"

definition asString :: "json option \<Rightarrow> string option" where
  "asString v = (case v of Some (JString t) \<Rightarrow> Some t | _ \<Rightarrow> None)"

text \<open>\<open>new Date(n)\<close> drops the fraction and is valid up to 8.64e15 in either direction.\<close>

definition asDate :: "json option \<Rightarrow> int option" where
  "asDate v = (case v of
     Some (JNumber q) \<Rightarrow> if \<bar>q\<bar> \<le> 8640000000000000 then Some (if 0 \<le> q then \<lfloor>q\<rfloor> else \<lceil>q\<rceil>) else None
   | _ \<Rightarrow> None)"

definition normalizeEmail :: "json option \<Rightarrow> string option" where
  "normalizeEmail v = map_option (\<lambda>raw. js_toLowerCase (js_trim raw)) (truthy_id (asString v))"

definition composeName :: "json option \<Rightarrow> json option \<Rightarrow> string option" where
  "composeName first_name last_name =
     (let parts = filter (\<lambda>p. p \<noteq> '''')
            (map js_trim ((case asString first_name of Some a \<Rightarrow> [a] | None \<Rightarrow> []) @
                          (case asString last_name of Some b \<Rightarrow> [b] | None \<Rightarrow> [])))
      in case parts of [] \<Rightarrow> None | [a] \<Rightarrow> Some a | a # b # _ \<Rightarrow> Some (a @ '' '' @ b))"

definition selectPrimaryEmail :: "(string \<times> json) list \<Rightarrow> string option" where
  "selectPrimaryEmail data =
     (case truthy_id (asString (json_member data ''primary_email_address_id'')) of
        None \<Rightarrow> None
      | Some primaryId \<Rightarrow>
          let addresses = (case json_member data ''email_addresses'' of Some (JArray xs) \<Rightarrow> xs | _ \<Rightarrow> [])
          in case find (\<lambda>e. case e of Some m \<Rightarrow> asString (json_member m ''id'') = Some primaryId | None \<Rightarrow> False)
                    (map (\<lambda>x. asRecord (Some x)) addresses) of
               Some (Some entry) \<Rightarrow> normalizeEmail (json_member entry ''email_address'')
             | _ \<Rightarrow> None)"

record MembershipChange =
  mi_remove :: bool
  mi_clerkOrganizationId :: string
  mi_clerkUserId :: string
  mi_email :: "string option"
  mi_name :: "string option"
  mi_role :: "OrganizationRole option"

record InvitationChange =
  ii_clerkOrganizationId :: string
  ii_email :: string
  ii_role :: "OrganizationRole option"
  ii_status :: string

datatype ClerkSyncIntent =
    MembershipIntent MembershipChange
  | InvitationIntent InvitationChange
  | UserIntent string "string option" "string option"   \<comment> \<open>Clerk user, email, name\<close>
  | BillingIntent string "int option"   \<comment> \<open>Clerk organization, source update\<close>

definition eventRole :: "(string \<times> json) list \<Rightarrow> OrganizationRole option" where
  "eventRole data = resolveOrganizationRoleFromClerk (readPreludeRole (json_member data ''public_metadata''))
     (asString (json_member data ''role''))"

definition planMembership :: "string \<Rightarrow> (string \<times> json) list \<Rightarrow> ClerkSyncIntent option" where
  "planMembership ty data =
     (let organization = asRecord (json_member data ''organization'');
          userData = asRecord (json_member data ''public_user_data'');
          field = (\<lambda>r k. Option.bind r (\<lambda>m. json_member m k))
      in case (truthy_id (asString (field organization ''id'')), truthy_id (asString (field userData ''user_id''))) of
           (Some clerkOrganizationId, Some clerkUserId) \<Rightarrow>
             Some (MembershipIntent \<lparr>mi_remove = (ty = ''organizationMembership.deleted''),
               mi_clerkOrganizationId = clerkOrganizationId, mi_clerkUserId = clerkUserId,
               mi_email = normalizeEmail (field userData ''identifier''),
               mi_name = composeName (field userData ''first_name'') (field userData ''last_name''),
               mi_role = eventRole data\<rparr>)
         | _ \<Rightarrow> None)"

definition planInvitation :: "string \<Rightarrow> (string \<times> json) list \<Rightarrow> ClerkSyncIntent option" where
  "planInvitation ty data =
     (case (truthy_id (asString (json_member data ''organization_id'')),
            truthy_id (normalizeEmail (json_member data ''email_address''))) of
        (Some clerkOrganizationId, Some email) \<Rightarrow>
          Some (InvitationIntent \<lparr>ii_clerkOrganizationId = clerkOrganizationId, ii_email = email, ii_role = eventRole data,
            ii_status = (if ty = ''organizationInvitation.accepted'' then ''accepted''
                         else if ty = ''organizationInvitation.revoked'' then ''revoked'' else ''pending'')\<rparr>)
      | _ \<Rightarrow> None)"

definition isClerkBillingEvent :: "string \<Rightarrow> bool" where
  "isClerkBillingEvent ty \<longleftrightarrow> js_startsWith ty ''subscription.'' \<or> js_startsWith ty ''subscriptionItem.''"

definition planBilling :: "(string \<times> json) list \<Rightarrow> ClerkSyncIntent option" where
  "planBilling data =
     (let direct = asString (json_member data ''organization_id'');
          payer = asRecord (json_member data ''payer'');
          org = (case direct of Some d \<Rightarrow> Some d
                 | None \<Rightarrow> (case payer of Some p \<Rightarrow> asString (json_member p ''organization_id'') | None \<Rightarrow> None))
      in map_option (\<lambda>o'. BillingIntent o' (asDate (json_member data ''updated_at''))) (truthy_id org))"

definition planClerkWebhookSync :: "string \<Rightarrow> json option \<Rightarrow> ClerkSyncIntent option" where
  "planClerkWebhookSync ty payload =
     (let data = (case asRecord payload of Some m \<Rightarrow> m | None \<Rightarrow> [])
      in if ty \<in> {''organizationMembership.created'', ''organizationMembership.updated'', ''organizationMembership.deleted''}
         then planMembership ty data
         else if ty \<in> {''organizationInvitation.created'', ''organizationInvitation.accepted'', ''organizationInvitation.revoked''}
         then planInvitation ty data
         else if ty = ''user.updated''
         then map_option (\<lambda>u. UserIntent u (selectPrimaryEmail data)
                (composeName (json_member data ''first_name'') (json_member data ''last_name'')))
                (truthy_id (asString (json_member data ''id'')))
         else if ty = ''user.created'' \<or> ty = ''user.deleted'' then None
         else if isClerkBillingEvent ty then planBilling data
         else None)"

section \<open>The store\<close>

definition findOrganizationByClerk :: "string \<Rightarrow> clerk_db \<Rightarrow> string option" where
  "findOrganizationByClerk clerkOrganizationId s =
     map_option fst (find_row snd clerkOrganizationId (clerkOrganizations s))"

definition findUserByClerk :: "string \<Rightarrow> clerk_db \<Rightarrow> User option" where
  "findUserByClerk c s = find_row us_clerkUserId c (users s)"

definition findUserByEmail :: "string \<Rightarrow> clerk_db \<Rightarrow> User option" where
  "findUserByEmail e s = find_row us_email e (users s)"

definition isUniqueConstraintViolationOn :: "sync_error \<Rightarrow> string \<Rightarrow> bool" where
  "isUniqueConstraintViolationOn e field =
     (case e of
        KnownRequestError code target \<Rightarrow> code = ''P2002'' \<and>
          (case target of TargetList ts \<Rightarrow> field \<in> set ts | TargetText t \<Rightarrow> t = field \<or> js_includes t field | TargetUnknown \<Rightarrow> True)
      | SyncError _ \<Rightarrow> False)"

text \<open>Writes to users: both the email and the Clerk id are unique.\<close>

definition user_conflict :: "User \<Rightarrow> User list \<Rightarrow> string option" where
  "user_conflict u others =
     (if us_email u \<in> us_email ` set others then Some ''email''
      else if us_clerkUserId u \<in> us_clerkUserId ` set others then Some ''clerkUserId'' else None)"

definition updateUser :: "string \<Rightarrow> (User \<Rightarrow> User) \<Rightarrow> unit clerk_prog" where
  "updateUser k f s =
     (case find_row us_id k (users s) of
        None \<Rightarrow> (Inl (KnownRequestError ''P2025'' TargetUnknown), s)
      | Some u \<Rightarrow>
          (case user_conflict (f u) (filter (\<lambda>v. us_id v \<noteq> k) (users s)) of
             Some field \<Rightarrow> (Inl (KnownRequestError ''P2002'' (TargetList [field])), s)
           | None \<Rightarrow> (Inr (), s\<lparr>users := update_row us_id k f (users s)\<rparr>)))"

definition createUser :: "User \<Rightarrow> string clerk_prog" where
  "createUser u s =
     (if us_id u \<in> us_id ` set (users s) then (Inl (KnownRequestError ''P2002'' (TargetList [''id''])), s)
      else case user_conflict u (users s) of
             Some field \<Rightarrow> (Inl (KnownRequestError ''P2002'' (TargetList [field])), s)
           | None \<Rightarrow> (Inr (us_id u), s\<lparr>users := users s @ [u]\<rparr>))"

text \<open>\<open>{ ...(email ? { email } : {}), ...(name ? { name } : {}) }\<close>\<close>

definition profile :: "string option \<Rightarrow> string option \<Rightarrow> User \<Rightarrow> User" where
  "profile email name u =
     (let v = (case truthy_id email of Some e \<Rightarrow> u\<lparr>us_email := e\<rparr> | None \<Rightarrow> u)
      in case truthy_id name of Some n \<Rightarrow> v\<lparr>us_name := Some n\<rparr> | None \<Rightarrow> v)"

definition upsertUser :: "string \<Rightarrow> string \<Rightarrow> string option \<Rightarrow> string option \<Rightarrow> string clerk_prog" where
  "upsertUser freshId clerkUserId email name =
     prog_bind (prog_get (findUserByClerk clerkUserId)) (\<lambda>byClerkId.
       case byClerkId of
         Some u \<Rightarrow>
           prog_then
             (prog_catch (updateUser (us_id u) (profile email name))
               (\<lambda>e. if \<not> truthy email \<or> \<not> isUniqueConstraintViolationOn e ''email'' then prog_throw e
                    else prog_throw (SyncError ''email already belongs to a different User row'')))
             (prog_return (us_id u))
       | None \<Rightarrow>
           (case truthy_id email of
              None \<Rightarrow> prog_throw (SyncError ''Cannot provision a user from a Clerk membership without an email identifier.'')
            | Some e \<Rightarrow>
                prog_bind (prog_get (findUserByEmail e)) (\<lambda>byEmail.
                  case byEmail of
                    Some u \<Rightarrow>
                      if us_clerkUserId u \<noteq> ''''
                      then prog_throw (SyncError ''email belongs to a user linked to a different Clerk identity'')
                      else prog_then (updateUser (us_id u) (\<lambda>v. profile None name (v\<lparr>us_clerkUserId := clerkUserId\<rparr>)))
                             (prog_return (us_id u))
                  | None \<Rightarrow> createUser \<lparr>us_id = freshId, us_clerkUserId = clerkUserId, us_email = e, us_name = name\<rparr>)))"

definition upsertMembership :: "string \<Rightarrow> string \<Rightarrow> OrganizationRole option \<Rightarrow> unit clerk_prog" where
  "upsertMembership organizationId userId role =
     prog_modify (\<lambda>s. let key = (\<lambda>m. (om_organizationId m, om_userId m)); k = (organizationId, userId)
       in s\<lparr>memberships := (if k \<in> key ` set (memberships s)
              then update_row key k (\<lambda>m. m\<lparr>om_role := role, om_status := ''active''\<rparr>) (memberships s)
              else memberships s @ [\<lparr>om_organizationId = organizationId, om_userId = userId, om_role = role,
                     om_status = ''active''\<rparr>])\<rparr>)"

definition deactivateMembership :: "string \<Rightarrow> string \<Rightarrow> unit clerk_prog" where
  "deactivateMembership organizationId clerkUserId =
     prog_modify (\<lambda>s. s\<lparr>memberships := map (\<lambda>m.
       if om_organizationId m = organizationId \<and>
          map_option us_clerkUserId (find_row us_id (om_userId m) (users s)) = Some clerkUserId
       then m\<lparr>om_status := ''inactive''\<rparr> else m) (memberships s)\<rparr>)"

definition updateUserProfile :: "string \<Rightarrow> string option \<Rightarrow> string option \<Rightarrow> bool clerk_prog" where
  "updateUserProfile clerkUserId email name =
     prog_bind (prog_get (findUserByClerk clerkUserId)) (\<lambda>existing.
       case existing of
         None \<Rightarrow> prog_return False
       | Some u \<Rightarrow>
           if \<not> truthy email \<and> \<not> truthy name then prog_return True
           else prog_then
             (prog_catch (updateUser (us_id u) (profile email name))
               (\<lambda>e. if \<not> truthy email \<or> \<not> isUniqueConstraintViolationOn e ''email'' then prog_throw e
                    else if truthy name then updateUser (us_id u) (profile None name)
                    else prog_return ()))
             (prog_return True))"

definition upsertInvitation :: "int \<Rightarrow> string \<Rightarrow> InvitationChange \<Rightarrow> unit clerk_prog" where
  "upsertInvitation now organizationId i =
     prog_modify (\<lambda>s. let key = (\<lambda>r. (oi_organizationId r, oi_email r)); k = (organizationId, ii_email i);
         accepted = (ii_status i = ''accepted'')
       in s\<lparr>invitations := (if k \<in> key ` set (invitations s)
              then update_row key k (\<lambda>r. r\<lparr>oi_role := ii_role i, oi_status := ii_status i,
                     oi_acceptedAt := (if accepted then Some now else oi_acceptedAt r)\<rparr>) (invitations s)
              else invitations s @ [\<lparr>oi_organizationId = organizationId, oi_email = ii_email i, oi_role = ii_role i,
                     oi_status = ii_status i, oi_acceptedAt = (if accepted then Some now else None)\<rparr>])\<rparr>)"

section \<open>Applying an intent\<close>

datatype ClerkSyncResult = SyncDone | SyncSkipped string

definition applyClerkSyncIntent :: "int \<Rightarrow> string \<Rightarrow> ClerkSyncIntent \<Rightarrow> ClerkSyncResult clerk_prog" where
  "applyClerkSyncIntent now freshId intent =
     (case intent of
        UserIntent clerkUserId email name \<Rightarrow>
          prog_bind (updateUserProfile clerkUserId email name) (\<lambda>applied.
            prog_return (if applied then SyncDone else SyncSkipped ''user_not_found''))
      | BillingIntent _ _ \<Rightarrow> prog_return (SyncSkipped ''not_a_sync_intent'')
      | MembershipIntent m \<Rightarrow>
          prog_bind (prog_get (findOrganizationByClerk (mi_clerkOrganizationId m))) (\<lambda>found.
            case truthy_id found of
              None \<Rightarrow> prog_return (SyncSkipped ''organization_not_found'')
            | Some organizationId \<Rightarrow>
                if mi_remove m
                then prog_then (deactivateMembership organizationId (mi_clerkUserId m)) (prog_return SyncDone)
                else prog_bind (upsertUser freshId (mi_clerkUserId m) (mi_email m) (mi_name m)) (\<lambda>userId.
                       prog_then (upsertMembership organizationId userId (mi_role m)) (prog_return SyncDone)))
      | InvitationIntent i \<Rightarrow>
          prog_bind (prog_get (findOrganizationByClerk (ii_clerkOrganizationId i))) (\<lambda>found.
            case truthy_id found of
              None \<Rightarrow> prog_return (SyncSkipped ''organization_not_found'')
            | Some organizationId \<Rightarrow> prog_then (upsertInvitation now organizationId i) (prog_return SyncDone)))"

text \<open>The route: \<open>syncBilling\<close> is the injected billing sync; the answer is a status code.\<close>

definition clerkWebhook :: "(string \<Rightarrow> int option \<Rightarrow> sync_error + sync_result) \<Rightarrow> int \<Rightarrow> string \<Rightarrow> string \<Rightarrow> json option \<Rightarrow>
    clerk_db \<Rightarrow> nat \<times> clerk_db" where
  "clerkWebhook syncBilling now freshId ty payload s =
     (case planClerkWebhookSync ty payload of
        None \<Rightarrow> (200, s)
      | Some (BillingIntent org updated) \<Rightarrow>
          (case syncBilling org updated of
             Inl _ \<Rightarrow> 500
           | Inr (SyncRefused reason) \<Rightarrow> if reason = ''organization_not_found'' then 409 else 200
           | Inr SyncApplied \<Rightarrow> 200, s)
      | Some intent \<Rightarrow>
          (case applyClerkSyncIntent now freshId intent s of
             (Inl _, t) \<Rightarrow> (500, t)
           | (Inr r, t) \<Rightarrow> (if r = SyncSkipped ''organization_not_found'' then 409 else 200, t)))"

section \<open>Identities stay where they are\<close>

definition users_ok :: "clerk_db \<Rightarrow> bool" where
  "users_ok s \<longleftrightarrow> distinct (map us_id (users s)) \<and> distinct (map us_email (users s)) \<and>
     distinct (map us_clerkUserId (users s))"

definition identity_rel :: "clerk_db \<Rightarrow> clerk_db \<Rightarrow> bool" where
  "identity_rel s t \<longleftrightarrow> (users_ok s \<longrightarrow> users_ok t \<and>
     (\<forall>u\<in>set (users s). us_clerkUserId u \<noteq> '''' \<longrightarrow>
        (\<exists>v\<in>set (users t). us_id v = us_id u \<and> us_clerkUserId v = us_clerkUserId u)))"

interpretation identity: effect_preorder identity_rel
proof
  show "identity_rel s s" for s by (auto simp: identity_rel_def)
  show "identity_rel s t \<Longrightarrow> identity_rel t u \<Longrightarrow> identity_rel s u" for s t u
    unfolding identity_rel_def by metis
qed

lemma distinct_update_key:
  assumes "distinct (map us_id us)" and "distinct (map h us)" and "find_row us_id k us = Some u"
    and "h (f u) \<notin> h ` set (filter (\<lambda>v. us_id v \<noteq> k) us)"
  shows "distinct (map h (update_row us_id k f us))"
  using assms
proof (induction us)
  case (Cons x us)
  show ?case
  proof (cases "us_id x = k")
    case True
    then have "k \<notin> us_id ` set us" using Cons.prems(1) by auto
    then have rest: "update_row us_id k f us = us" "filter (\<lambda>v. us_id v \<noteq> k) us = us"
      by (simp_all add: update_row_missing) (metis (mono_tags, lifting) filter_True image_eqI)
    with True Cons.prems show ?thesis by simp
  next
    case False
    have "h (f u) \<noteq> h x" using Cons.prems(4) False by auto
    moreover have "h x \<notin> h ` set us" using Cons.prems(2) by auto
    ultimately have "h x \<notin> h ` set (update_row us_id k f us)"
      using find_row_SomeD [of us_id k us u] Cons.prems(1,3) False
      by (auto simp: set_update_row image_iff split: if_splits)
         (metis (no_types, lifting) Cons.prems(1) distinct.simps(2) find_row_mem list.simps(9) option.inject)
    with Cons False show ?thesis by auto
  qed
qed simp

lemma updateUser_identity:
  assumes id: "\<And>u. us_id (f u) = us_id u"
    and keep: "\<And>u. find_row us_id k (users s) = Some u \<Longrightarrow> us_clerkUserId u = '''' \<or> us_clerkUserId (f u) = us_clerkUserId u"
  shows "identity_rel s (snd (updateUser k f s))"
proof (cases "find_row us_id k (users s)")
  case None
  then show ?thesis by (simp add: updateUser_def identity.R_refl)
next
  case (Some u)
  note found = this
  show ?thesis
  proof (cases "user_conflict (f u) (filter (\<lambda>v. us_id v \<noteq> k) (users s))")
    case (Some field)
    with found show ?thesis by (simp add: updateUser_def identity.R_refl)
  next
    case None
    let ?us = "update_row us_id k f (users s)"
    have free: "us_email (f u) \<notin> us_email ` set (filter (\<lambda>v. us_id v \<noteq> k) (users s))"
      "us_clerkUserId (f u) \<notin> us_clerkUserId ` set (filter (\<lambda>v. us_id v \<noteq> k) (users s))"
      using None by (simp_all add: user_conflict_def split: if_splits)
    show ?thesis
      unfolding identity_rel_def
    proof (intro impI conjI ballI)
      assume ok: "users_ok s"
      have "distinct (map us_id ?us)" using ok id by (simp add: users_ok_def row_simps)
      moreover have "distinct (map us_email ?us)" "distinct (map us_clerkUserId ?us)"
        using ok distinct_update_key [where h = us_email and f = f, OF _ _ found free(1)]
          distinct_update_key [where h = us_clerkUserId and f = f, OF _ _ found free(2)]
        by (simp_all add: users_ok_def)
      ultimately show "users_ok (snd (updateUser k f s))" using found None by (simp add: updateUser_def users_ok_def)
      fix w
      assume w: "w \<in> set (users s)" "us_clerkUserId w \<noteq> ''''"
      show "\<exists>v\<in>set (users (snd (updateUser k f s))). us_id v = us_id w \<and> us_clerkUserId v = us_clerkUserId w"
      proof (cases "us_id w = k")
        case True
        then have "w = u" using found w ok by (metis find_row_mem option.inject users_ok_def)
        then have "f w \<in> set ?us" "us_clerkUserId (f w) = us_clerkUserId w"
          using w True keep [OF found] by (auto simp: set_update_row)
        then show ?thesis using found None id by (auto simp: updateUser_def)
      next
        case False
        then have "w \<in> set ?us" using w by (simp add: mem_update_row_other)
        then show ?thesis using found None by (auto simp: updateUser_def)
      qed
    qed
  qed
qed

lemma profile_keeps [simp]:
  "us_id (profile e n u) = us_id u" "us_clerkUserId (profile e n u) = us_clerkUserId u"
  by (simp_all add: profile_def Let_def split: option.split)

lemma profile_identity: "effects identity_rel (updateUser k (profile e n))"
  by (simp add: effects_def updateUser_identity)

lemma createUser_identity: "effects identity_rel (createUser u)"
  unfolding effects_def identity_rel_def
  by (auto simp: createUser_def user_conflict_def users_ok_def split: option.split if_splits)

lemma prog_then_snd: "snd (prog_then m (prog_return x) s) = snd (m s)"
  by (simp add: prog_then_def prog_bind_def prog_return_def split: prod.split sum.split)

lemma upsertUser_identity: "effects identity_rel (upsertUser k c e n)"
  unfolding effects_def
proof
  fix s
  have known: "effects identity_rel (prog_then
      (prog_catch (updateUser i (profile e n)) h) (prog_return i))" if "\<And>x. effects identity_rel (h x)" for i h
    by (intro identity.structural profile_identity that)
  show "identity_rel s (snd (upsertUser k c e n s))"
  proof (cases "findUserByClerk c s")
    case (Some u)
    then show ?thesis
      using known [of "\<lambda>x. if \<not> truthy e \<or> \<not> isUniqueConstraintViolationOn x ''email'' then prog_throw x
          else prog_throw (SyncError ''email already belongs to a different User row'')" "us_id u"]
      by (simp add: upsertUser_def prog_bind_def prog_get_def effects_def identity.structural(2) [unfolded effects_def])
  next
    case None
    show ?thesis
    proof (cases "truthy_id e")
      case None
      with \<open>findUserByClerk c s = None\<close> show ?thesis
        by (simp add: upsertUser_def prog_bind_def prog_get_def prog_throw_def identity.R_refl)
    next
      case (Some a)
      show ?thesis
      proof (cases "findUserByEmail a s")
        case None
        with \<open>findUserByClerk c s = None\<close> Some createUser_identity show ?thesis
          by (simp add: upsertUser_def prog_bind_def prog_get_def effects_def)
      next
        case found: (Some u)
        show ?thesis
        proof (cases "us_clerkUserId u = ''''")
          case False
          with \<open>findUserByClerk c s = None\<close> Some found show ?thesis
            by (simp add: upsertUser_def prog_bind_def prog_get_def prog_throw_def identity.R_refl)
        next
          case True
          have "identity_rel s (snd (updateUser (us_id u) (\<lambda>v. profile None n (v\<lparr>us_clerkUserId := c\<rparr>)) s))"
            if ok: "users_ok s"
          proof (rule updateUser_identity)
            fix v
            assume "find_row us_id (us_id u) (users s) = Some v"
            moreover have "u \<in> set (users s)" using found by (auto simp: findUserByEmail_def dest: find_row_SomeD)
            ultimately have "v = u" using ok by (metis find_row_mem option.inject users_ok_def)
            then show "us_clerkUserId v = '''' \<or> us_clerkUserId (profile None n (v\<lparr>us_clerkUserId := c\<rparr>)) = us_clerkUserId v"
              using True by simp
          qed simp
          moreover have "identity_rel s t" if "\<not> users_ok s" for t using that by (simp add: identity_rel_def)
          ultimately show ?thesis
            using \<open>findUserByClerk c s = None\<close> Some found True
            by (cases "users_ok s") (simp_all add: upsertUser_def prog_bind_def prog_get_def prog_then_snd)
        qed
      qed
    qed
  qed
qed

lemma table_identity:
  "(\<And>s. users (f s) = users s) \<Longrightarrow> effects identity_rel (prog_modify f)"
  by (auto simp: effects_def prog_modify_def identity_rel_def users_ok_def)

lemma apply_identity: "effects identity_rel (applyClerkSyncIntent now k intent)"
  unfolding applyClerkSyncIntent_def upsertMembership_def deactivateMembership_def upsertInvitation_def updateUserProfile_def
  by (auto intro!: identity.structural upsertUser_identity table_identity profile_identity
      simp: Let_def split: ClerkSyncIntent.split)

text \<open>
  C14: no event moves an identity. Whatever verified event arrives, with ids, emails and Clerk ids
  unique before, they are unique after, and every user row that belongs to a Clerk account still
  belongs to it under the same id, so the memberships of one account never become another's.
\<close>
theorem clerk_identities_never_move:
  assumes "users_ok s" and "clerkWebhook syncBilling now freshId ty payload s = (code, t)"
  shows "users_ok t \<and> (\<forall>u\<in>set (users s). us_clerkUserId u \<noteq> '''' \<longrightarrow>
    (\<exists>v\<in>set (users t). us_id v = us_id u \<and> us_clerkUserId v = us_clerkUserId u))"
proof -
  have "identity_rel s t"
  proof (cases "planClerkWebhookSync ty payload")
    case None
    with assms(2) show ?thesis by (simp add: clerkWebhook_def identity.R_refl)
  next
    case (Some intent)
    have "identity_rel s (snd (applyClerkSyncIntent now freshId intent s))"
      using apply_identity by (simp add: effects_def)
    with Some assms(2) show ?thesis
      by (cases intent) (auto simp: clerkWebhook_def identity.R_refl split: prod.splits sum.splits)
  qed
  with assms(1) show ?thesis by (simp add: identity_rel_def)
qed

section \<open>What a membership event leaves\<close>

definition has_clerk :: "string \<Rightarrow> string \<Rightarrow> clerk_db \<Rightarrow> bool" where
  "has_clerk k c s \<longleftrightarrow> (\<exists>u\<in>set (users s). us_id u = k \<and> us_clerkUserId u = c)"

lemma update_row_hit: "x \<in> set rs \<Longrightarrow> key x = k \<Longrightarrow> f x \<in> set (update_row key k f rs)"
  by (auto simp: set_update_row)

lemma updateUser_done: "updateUser k f s = (Inr x, t) \<Longrightarrow>
  \<exists>u. find_row us_id k (users s) = Some u \<and> t = s\<lparr>users := update_row us_id k f (users s)\<rparr>"
  by (auto simp: updateUser_def split: option.splits)

lemma upsertUser_result:
  assumes "users_ok s" and run: "upsertUser n c e nm s = (Inr k, t)"
  shows "has_clerk k c t \<and> memberships t = memberships s \<and> clerkOrganizations t = clerkOrganizations s"
proof (cases "findUserByClerk c s")
  case (Some u)
  then have u: "u \<in> set (users s)" "us_clerkUserId u = c" by (auto simp: findUserByClerk_def dest: find_row_SomeD)
  from run Some obtain x where up: "updateUser (us_id u) (profile e nm) s = (Inr x, t)" and k: "k = us_id u"
    by (auto simp: upsertUser_def prog_defs split: prod.splits sum.splits if_splits)
  have "profile e nm u \<in> set (users t)" using updateUser_done [OF up] u by (auto simp: set_update_row)
  then have "has_clerk k c t" using u k unfolding has_clerk_def by (metis profile_keeps)
  then show ?thesis using updateUser_done [OF up] by auto
next
  case None
  then obtain a where a: "truthy_id e = Some a" using run
    by (auto simp: upsertUser_def prog_defs split: option.splits)
  show ?thesis
  proof (cases "findUserByEmail a s")
    case fresh: None
    with run None a show ?thesis
      by (auto simp: upsertUser_def prog_defs createUser_def has_clerk_def split: if_splits option.splits)
  next
    case (Some u)
    let ?f = "\<lambda>v. profile None nm (v\<lparr>us_clerkUserId := c\<rparr>)"
    from run None a Some obtain x where up: "updateUser (us_id u) ?f s = (Inr x, t)" and k: "k = us_id u"
      by (auto simp: upsertUser_def prog_defs split: prod.splits sum.splits if_splits)
    obtain v where v: "find_row us_id (us_id u) (users s) = Some v" "t = s\<lparr>users := update_row us_id (us_id u) ?f (users s)\<rparr>"
      using updateUser_done [OF up] by blast
    then have "?f v \<in> set (users t)" by (auto simp: set_update_row dest!: find_row_SomeD)
    moreover have "us_id (?f v) = k \<and> us_clerkUserId (?f v) = c" using k find_row_SomeD [OF v(1)] by simp
    ultimately have "has_clerk k c t" unfolding has_clerk_def by blast
    then show ?thesis using v(2) by simp
  qed
qed

lemma upsertMembership_row:
  assumes "upsertMembership org k role s = (r, t)"
  shows "users t = users s \<and> (\<exists>m\<in>set (memberships t). om_organizationId m = org \<and> om_userId m = k \<and> om_role m = role \<and>
    om_status m = ''active'')"
proof (cases "(org, k) \<in> (\<lambda>m. (om_organizationId m, om_userId m)) ` set (memberships s)")
  case True
  then obtain m where m: "m \<in> set (memberships s)" "om_organizationId m = org" "om_userId m = k" by auto
  let ?n = "m\<lparr>om_role := role, om_status := ''active''\<rparr>"
  have "?n \<in> set (memberships t)"
    using assms True m by (auto simp: upsertMembership_def prog_modify_def Let_def intro!: update_row_hit)
  then have "\<exists>m\<in>set (memberships t). om_organizationId m = org \<and> om_userId m = k \<and> om_role m = role \<and> om_status m = ''active''"
    using m by (intro bexI [of _ ?n]) simp_all
  moreover have "users t = users s" using assms by (auto simp: upsertMembership_def prog_modify_def Let_def)
  ultimately show ?thesis by blast
next
  case False
  then show ?thesis using assms by (auto simp: upsertMembership_def prog_modify_def Let_def)
qed

lemma deactivate_done:
  assumes "deactivateMembership org c s = (r, t)"
  shows "r = Inr () \<and> (\<forall>m\<in>set (memberships t). om_organizationId m = org \<longrightarrow>
    map_option us_clerkUserId (find_row us_id (om_userId m) (users t)) = Some c \<longrightarrow> om_status m = ''inactive'')"
proof -
  define g where "g m = (if om_organizationId m = org \<and>
      map_option us_clerkUserId (find_row us_id (om_userId m) (users s)) = Some c
      then m\<lparr>om_status := ''inactive''\<rparr> else m)" for m :: OrganizationMembership
  have "(r, t) = (Inr (), s\<lparr>memberships := map g (memberships s)\<rparr>)"
    unfolding assms [symmetric] deactivateMembership_def prog_modify_def g_def by (rule refl)
  then have t: "t = s\<lparr>memberships := map g (memberships s)\<rparr>" "r = Inr ()" by simp_all
  have "om_status (g m) = ''inactive''" if "om_organizationId (g m) = org"
    "map_option us_clerkUserId (find_row us_id (om_userId (g m)) (users s)) = Some c" for m
    using that unfolding g_def by (simp split: if_splits)
  with t show ?thesis by simp
qed


definition demo_membership :: json where
  "demo_membership = JObject [(''organization'', JObject [(''id'', JString ''org_1'')]),
     (''public_user_data'', JObject [(''user_id'', JString ''user_1''), (''identifier'', JString ''Ann@x.io''),
        (''first_name'', JString ''Ann'')]),
     (''role'', JString ''org:admin'')]"

definition demo_tables :: clerk_db where
  "demo_tables = \<lparr>clerkOrganizations = [(''org'', ''org_1'')], users = [], memberships = [], invitations = []\<rparr>"

definition deliver :: "string \<Rightarrow> clerk_db \<Rightarrow> nat \<times> clerk_db" where
  "deliver ty s = clerkWebhook (\<lambda>_ _. Inr SyncApplied) 5 ''u1'' ty (Some demo_membership) s"

lemma demo_tables_ok: "users_ok demo_tables"
  by (simp add: users_ok_def demo_tables_def)

theorem clerk_identities_never_move_witness:
  "users_ok (snd (deliver ''organizationMembership.created'' demo_tables))"
  using clerk_identities_never_move [OF demo_tables_ok, of _ 5 "''u1''" "''organizationMembership.created''" "Some demo_membership"]
  unfolding deliver_def by (metis prod.collapse)

lemma demo_plan: "\<exists>m. planClerkWebhookSync ''organizationMembership.created'' (Some demo_membership) = Some (MembershipIntent m) \<and>
    mi_clerkOrganizationId m = ''org_1'' \<and> \<not> mi_remove m \<and> mi_clerkUserId m = ''user_1'' \<and> mi_role m = Some admin"
proof -
  have "(case planClerkWebhookSync ''organizationMembership.created'' (Some demo_membership) of
      Some (MembershipIntent m) \<Rightarrow> mi_clerkOrganizationId m = ''org_1'' \<and> \<not> mi_remove m \<and> mi_clerkUserId m = ''user_1'' \<and> mi_role m = Some admin
    | _ \<Rightarrow> False)" by code_simp
  then show ?thesis by (auto split: option.splits ClerkSyncIntent.splits)
qed



end
