(* ===== verification/BillingRoutes.thy ===== *)
theory BillingRoutes
  imports StripePurchase StripeWebhook WorkspaceAccess
begin

text \<open>
  The HTTP routes over the billing core: the scheduled sweep
  (\<open>api/internal/billing-sweep/route.ts\<close>), the browser return of a checkout
  (\<open>api/billing/checkout-return/route.ts\<close>) and Stripe's endpoint (\<open>api/stripe/webhook/route.ts\<close>).
  Clocks, the advisory lock, what Stripe lists and what the session resolves to are parameters.
\<close>

section \<open>The sweep: who may call it, and for which page\<close>

definition DEFAULT_ORGANIZATION_LIMIT :: nat where "DEFAULT_ORGANIZATION_LIMIT = 200"
definition MAX_ORGANIZATION_LIMIT :: nat where "MAX_ORGANIZATION_LIMIT = 2000"
definition SWEEP_TIME_BUDGET_MS :: int where "SWEEP_TIME_BUDGET_MS = 25000"
definition ENTRY_PASS_TIME_BUDGET_MS :: int where "ENTRY_PASS_TIME_BUDGET_MS = 10000"

text \<open>\<open>s.split(/\s+/)\<close>\<close>

function js_words :: "string \<Rightarrow> string list" where
  "js_words s =
     (let w = takeWhile (\<lambda>c. \<not> is_js_space c) s; r = dropWhile (\<lambda>c. \<not> is_js_space c) s
      in if r = [] then [w] else w # js_words (dropWhile is_js_space r))"
  by pat_completeness auto

termination js_words
proof (relation "measure length")
  fix s :: string and w r
  assume r: "r = dropWhile (\<lambda>c. \<not> is_js_space c) s" "r \<noteq> []"
  then have "is_js_space (hd r)" using hd_dropWhile [of "\<lambda>c. \<not> is_js_space c" s] by auto
  then have "dropWhile is_js_space r = dropWhile is_js_space (tl r)" using r(2) by (cases r) auto
  then have "length (dropWhile is_js_space r) \<le> length (tl r)" by (metis length_dropWhile_le)
  also have "\<dots> < length r" using r(2) by (cases r) auto
  also have "\<dots> \<le> length s" using r(1) by (simp add: length_dropWhile_le)
  finally show "(dropWhile is_js_space r, s) \<in> measure length" by simp
qed simp

declare js_words.simps [simp del]

text \<open>\<open>words.join(" ")\<close>\<close>

fun js_unwords :: "string list \<Rightarrow> string" where
  "js_unwords [] = ''''"
| "js_unwords [w] = w"
| "js_unwords (w # v # vs) = w @ '' '' @ js_unwords (v # vs)"

definition sweepSecret :: "environment \<Rightarrow> string option" where
  "sweepSecret env = truthy_id (map_option js_trim (env ''BILLING_SWEEP_SECRET''))"

definition isAuthorizedSweepCaller :: "environment \<Rightarrow> string option \<Rightarrow> bool" where
  "isAuthorizedSweepCaller env authorization =
     (case sweepSecret env of
        None \<Rightarrow> False
      | Some expected \<Rightarrow>
          let header = (case authorization of None \<Rightarrow> '''' | Some h \<Rightarrow> js_trim h)
          in case js_words header of
               [] \<Rightarrow> False
             | scheme # rest \<Rightarrow>
                 if js_toLowerCase scheme \<noteq> ''bearer'' then False
                 else let presented = js_unwords rest
                      in if length presented \<noteq> length expected then False else presented = expected)"

record PageRequest =
  pg_cursor :: "string option"
  pg_limit :: nat

definition digits_only :: "string \<Rightarrow> bool" where
  "digits_only s \<longleftrightarrow> s \<noteq> '''' \<and> list_all (\<lambda>c. let n = (of_char c :: nat) in 48 \<le> n \<and> n \<le> 57) s"

definition readPageRequest :: "string option \<Rightarrow> string option \<Rightarrow> PageRequest option" where
  "readPageRequest rawLimit rawCursor =
     (let cursor = truthy_id (map_option js_trim rawCursor)
      in case rawLimit of
           None \<Rightarrow> Some \<lparr>pg_cursor = cursor, pg_limit = DEFAULT_ORGANIZATION_LIMIT\<rparr>
         | Some raw \<Rightarrow>
             if \<not> digits_only (js_trim raw) then None
             else case js_Number (Some (js_trim raw)) of
                    None \<Rightarrow> None
                  | Some limit \<Rightarrow>
                      if limit < 1 \<or> of_nat MAX_ORGANIZATION_LIMIT < limit then None
                      else Some \<lparr>pg_cursor = cursor, pg_limit = nat \<lfloor>limit\<rfloor>\<rparr>)"

section \<open>The sweep: undelivered checkouts\<close>

datatype skip_reason = continuation_page | unconfigured

record MissedEventReport =
  me_failed :: nat
  me_granted :: nat
  me_scanned :: nat
  me_skipped :: "skip_reason option"
  me_yieldedToBudget :: bool

definition missed_report :: "skip_reason option \<Rightarrow> MissedEventReport" where
  "missed_report skipped =
     \<lparr>me_failed = 0, me_granted = 0, me_scanned = 0, me_skipped = skipped, me_yieldedToBudget = False\<rparr>"

text \<open>An event as Stripe lists it is an unknown value; only a \<open>cs_\<close> object is a checkout.\<close>

definition object_members :: "json option \<Rightarrow> (string \<times> json) list option" where
  "object_members v = (case v of Some (JObject m) \<Rightarrow> Some m | Some (JArray _) \<Rightarrow> Some [] | _ \<Rightarrow> None)"

definition readEventIdentity :: "json \<Rightarrow> (string \<times> string) option" where
  "readEventIdentity event =
     (case object_members (Some event) of
        None \<Rightarrow> None
      | Some members \<Rightarrow>
          (case (json_member members ''id'', object_members (json_member members ''data'')) of
             (Some (JString i), Some data) \<Rightarrow>
               (case object_members (json_member data ''object'') of
                  None \<Rightarrow> None
                | Some obj \<Rightarrow>
                    (case json_member obj ''id'' of
                       Some (JString sessionId) \<Rightarrow> if js_startsWith sessionId ''cs_'' then Some (sessionId, i) else None
                     | _ \<Rightarrow> None))
           | _ \<Rightarrow> None))"

type_synonym checkout_fulfilment = "fulfilment_input \<Rightarrow> CreditCheckoutFulfilment billing_prog"

text \<open>\<open>tick\<close> is the clock read before the events, in turn.\<close>

fun recoverEvents ::
  "checkout_fulfilment \<Rightarrow> int \<Rightarrow> int \<Rightarrow> (nat \<Rightarrow> int) \<Rightarrow> nat \<Rightarrow> json list \<Rightarrow> MissedEventReport \<Rightarrow> MissedEventReport billing_prog" where
  "recoverEvents fulfill now deadline tick i [] report = prog_return report"
| "recoverEvents fulfill now deadline tick i (event # events) report =
     (if deadline \<le> tick i then prog_return (report\<lparr>me_yieldedToBudget := True\<rparr>)
      else
        let report = report\<lparr>me_scanned := me_scanned report + 1\<rparr>
        in case readEventIdentity event of
             None \<Rightarrow> recoverEvents fulfill now deadline tick (Suc i) events report
           | Some (sessionId, eventId) \<Rightarrow>
               prog_bind (prog_try (fulfill \<lparr>fi_checkoutSessionId = sessionId, fi_expectedOrganizationId = None,
                   fi_stripeEventId = Some eventId, fi_now = now\<rparr>)) (\<lambda>outcome.
                 recoverEvents fulfill now deadline tick (Suc i) events
                   (case outcome of
                      Inl _ \<Rightarrow> report\<lparr>me_failed := me_failed report + 1\<rparr>
                    | Inr (FGranted _) \<Rightarrow> report\<lparr>me_granted := me_granted report + 1\<rparr>
                    | Inr _ \<Rightarrow> report)))"

definition recoverMissedCheckoutEvents ::
  "environment \<Rightarrow> app_error + json list \<Rightarrow> checkout_fulfilment \<Rightarrow> int \<Rightarrow> int \<Rightarrow> (nat \<Rightarrow> int) \<Rightarrow> MissedEventReport billing_prog" where
  "recoverMissedCheckoutEvents env listing fulfill now deadline tick =
     (if \<not> isStripePurchaseConfigured env then prog_return (missed_report (Some unconfigured))
      else case listing of
             Inl _ \<Rightarrow> prog_return ((missed_report None)\<lparr>me_failed := 1\<rparr>)
           | Inr events \<Rightarrow> recoverEvents fulfill now deadline tick 0 events (missed_report None))"

section \<open>The sweep: the wallets of a page\<close>

text \<open>The faults of the three ledger calls of an organization.\<close>

record wallet_faults =
  wf_release :: faults
  wf_expire :: faults
  wf_reconcile :: faults

record SweepTotals =
  st_driftDetected :: "string list"
  st_holdsReleased :: int
  st_lotsExpired :: nat
  st_organizationsFailed :: nat
  st_organizationsSwept :: nat
  st_nextCursor :: "string option"
  st_truncatedByBudget :: bool

text \<open>The audit reads its own clock: \<open>audited\<close> is when it does, \<open>now\<close> the clock of the sweep.\<close>

definition sweepWallet :: "wallet_faults \<Rightarrow> int \<Rightarrow> int \<Rightarrow> string \<Rightarrow> SweepTotals \<Rightarrow> SweepTotals billing_prog" where
  "sweepWallet flt now audited organizationId acc =
     (let failed = (\<lambda>a. prog_return (a\<lparr>st_organizationsFailed := st_organizationsFailed a + 1\<rparr>)) in
      prog_bind (prog_try (on_ledger (releaseExpiredReservations (wf_release flt) organizationId now))) (\<lambda>released.
        case released of
          Inl _ \<Rightarrow> failed acc
        | Inr releasedCount \<Rightarrow>
            let acc = acc\<lparr>st_holdsReleased := st_holdsReleased acc + releasedCount\<rparr> in
            prog_bind (prog_try (on_ledger (expireDueLots (wf_expire flt) organizationId now))) (\<lambda>expired.
              case expired of
                Inl _ \<Rightarrow> failed acc
              | Inr expiredLotIds \<Rightarrow>
                  let acc = acc\<lparr>st_lotsExpired := st_lotsExpired acc + length expiredLotIds\<rparr> in
                  prog_bind (prog_try (on_ledger (reconcileWallet (wf_reconcile flt) organizationId audited))) (\<lambda>audit.
                    case audit of
                      Inl _ \<Rightarrow> failed acc
                    | Inr reconciliation \<Rightarrow>
                        prog_return (acc\<lparr>
                          st_driftDetected := (if rec_consistent reconciliation then st_driftDetected acc
                                               else st_driftDetected acc @ [organizationId]),
                          st_organizationsSwept := st_organizationsSwept acc + 1\<rparr>)))))"

fun sweepWallets ::
  "(string \<Rightarrow> wallet_faults) \<Rightarrow> int \<Rightarrow> (string \<Rightarrow> int) \<Rightarrow> int \<Rightarrow> (nat \<Rightarrow> int) \<Rightarrow> nat \<Rightarrow> string list \<Rightarrow> SweepTotals \<Rightarrow> SweepTotals billing_prog" where
  "sweepWallets flt now audited startedAt tick i [] acc = prog_return acc"
| "sweepWallets flt now audited startedAt tick i (organizationId # rest) acc =
     (if 0 < i \<and> SWEEP_TIME_BUDGET_MS < tick i - startedAt
      then prog_return (acc\<lparr>st_truncatedByBudget := True\<rparr>)
      else prog_bind (sweepWallet (flt organizationId) now (audited organizationId) organizationId (acc\<lparr>st_nextCursor := Some organizationId\<rparr>))
             (sweepWallets flt now audited startedAt tick (Suc i) rest))"

text \<open>
  The page query: organization ids in the order of the database, one more than the page, from the
  row after the cursor's; a cursor whose row is gone gives no page.
\<close>

definition pageRows :: "(string list \<Rightarrow> string list) \<Rightarrow> PageRequest \<Rightarrow> credit_db \<Rightarrow> string list" where
  "pageRows ascending page d =
     (let ids = ascending (map cw_organizationId (wallets d))
      in take (pg_limit page + 1)
           (case pg_cursor page of None \<Rightarrow> ids | Some c \<Rightarrow> tl (dropWhile (\<lambda>i. i \<noteq> c) ids)))"

record BillingSweepReport =
  sr_totals :: SweepTotals
  sr_failedCount :: nat
  sr_hasMore :: bool
  sr_missedEvents :: MissedEventReport
  sr_needsAdminCount :: nat
  sr_nextCursor :: "string option"
  sr_reprocessed :: StripeEventReprocessReport

text \<open>What one invocation is handed: clocks, faults, and the passes over Stripe.\<close>

record sweep_run =
  sw_startedAt :: int
  sw_now :: int
  sw_entryTick :: int
  sw_eventTick :: "nat \<Rightarrow> int"
  sw_walletTick :: "nat \<Rightarrow> int"
  sw_audited :: "string \<Rightarrow> int"
  sw_faults :: "string \<Rightarrow> wallet_faults"
  sw_reprocess :: "StripeEventReprocessReport billing_prog"
  sw_listing :: "app_error + json list"
  sw_fulfill :: checkout_fulfilment

definition runSweep :: "environment \<Rightarrow> (string list \<Rightarrow> string list) \<Rightarrow> sweep_run \<Rightarrow> PageRequest \<Rightarrow> BillingSweepReport billing_prog" where
  "runSweep env ascending run page =
     (let isEntryCall = (pg_cursor page = None);
          entryPassDeadline = sw_startedAt run + ENTRY_PASS_TIME_BUDGET_MS in
      prog_bind (if isEntryCall \<and> sw_entryTick run < entryPassDeadline then sw_reprocess run
                 else prog_return empty_report) (\<lambda>reprocessed.
      prog_bind (if isEntryCall
                 then recoverMissedCheckoutEvents env (sw_listing run) (sw_fulfill run) (sw_now run) entryPassDeadline (sw_eventTick run)
                 else prog_return (missed_report (Some continuation_page))) (\<lambda>missed.
      prog_bind (prog_get (\<lambda>s. (length (filter (\<lambda>r. wh_status r = ''needs_admin'') (archive s)),
                                length (filter (\<lambda>r. wh_status r = ''failed'') (archive s))))) (\<lambda>(needsAdmin, failed).
      prog_bind (prog_get (\<lambda>s. pageRows ascending page (ledger s))) (\<lambda>rows.
      prog_bind (sweepWallets (sw_faults run) (sw_now run) (sw_audited run) (sw_startedAt run) (sw_walletTick run) 0 (take (pg_limit page) rows)
          \<lparr>st_driftDetected = [], st_holdsReleased = 0, st_lotsExpired = 0, st_organizationsFailed = 0,
           st_organizationsSwept = 0, st_nextCursor = pg_cursor page, st_truncatedByBudget = False\<rparr>) (\<lambda>totals.
      let hasMore = st_truncatedByBudget totals \<or> pg_limit page < length rows
      in prog_return \<lparr>sr_totals = totals, sr_failedCount = failed, sr_hasMore = hasMore, sr_missedEvents = missed,
           sr_needsAdminCount = needsAdmin, sr_nextCursor = (if hasMore then st_nextCursor totals else None),
           sr_reprocessed = reprocessed\<rparr>))))))"

text \<open>
  The lock transaction cannot be opened, finds the lock taken, or holds it; \<open>committed\<close> says
  whether it is still alive when the sweep inside it is done (the sweep writes outside of it).
\<close>

datatype sweep_lock = LockFailed | LockTaken | LockHeld (committed: bool)

datatype sweep_response = SweepNotConfigured | SweepUnauthorized | BadLimit | SweepFailed | SweepSkipped
  | SweepReport BillingSweepReport

definition billingSweepPost ::
  "environment \<Rightarrow> string option \<Rightarrow> string option \<Rightarrow> string option \<Rightarrow> sweep_lock \<Rightarrow> (string list \<Rightarrow> string list) \<Rightarrow>
   sweep_run \<Rightarrow> billing_db \<Rightarrow> sweep_response \<times> billing_db" where
  "billingSweepPost env authorization rawLimit rawCursor lock ascending run s =
     (if \<not> isAuthorizedSweepCaller env authorization
      then (if sweepSecret env = None then SweepNotConfigured else SweepUnauthorized, s)
      else case readPageRequest rawLimit rawCursor of
             None \<Rightarrow> (BadLimit, s)
           | Some page \<Rightarrow>
               (case lock of
                  LockFailed \<Rightarrow> (SweepFailed, s)
                | LockTaken \<Rightarrow> (SweepSkipped, s)
                | LockHeld alive \<Rightarrow>
                    (case runSweep env ascending run page s of
                       (Inl _, t) \<Rightarrow> (SweepFailed, t)
                     | (Inr report, t) \<Rightarrow> (if alive then SweepReport report else SweepFailed, t))))"

section \<open>The browser return of a checkout\<close>

datatype PurchaseBannerOutcome = banner_granted | banner_already | banner_processing | banner_not_allowed | banner_error

definition bannerOutcomeFor :: "CreditCheckoutFulfilment \<Rightarrow> PurchaseBannerOutcome" where
  "bannerOutcomeFor result =
     (case result of
        FGranted _ \<Rightarrow> banner_granted
      | FAlreadyGranted \<Rightarrow> banner_already
      | FNotPaid \<Rightarrow> banner_processing
      | _ \<Rightarrow> banner_error)"

definition may_purchase :: "OrganizationRole option \<Rightarrow> bool" where
  "may_purchase role = (case role of None \<Rightarrow> False | Some r \<Rightarrow> canPurchaseCredits r)"

definition resolveReturnOutcome ::
  "environment \<Rightarrow> string option \<Rightarrow> app_error + CompletedOrganizationScope \<Rightarrow> checkout_fulfilment \<Rightarrow> int \<Rightarrow>
   PurchaseBannerOutcome billing_prog" where
  "resolveReturnOutcome env sessionId scope fulfill now =
     (if \<not> isCreditBillingEnabled env \<or> \<not> isStripePurchaseConfigured env then prog_return banner_error
      else case truthy_id (map_option js_trim sessionId) of
             None \<Rightarrow> prog_return banner_error
           | Some checkoutSessionId \<Rightarrow>
               if \<not> js_startsWith checkoutSessionId ''cs_'' then prog_return banner_error
               else (case scope of
                  Inl _ \<Rightarrow> prog_return banner_error
                | Inr sc \<Rightarrow>
                    if \<not> may_purchase (sc_role sc) then prog_return banner_not_allowed
                    else prog_catch
                      (prog_bind (fulfill \<lparr>fi_checkoutSessionId = checkoutSessionId,
                           fi_expectedOrganizationId = Some (sc_organizationId sc), fi_stripeEventId = None, fi_now = now\<rparr>)
                         (\<lambda>result. prog_return (bannerOutcomeFor result)))
                      (\<lambda>e. prog_return banner_error)))"

section \<open>Stripe's endpoint\<close>

text \<open>
  \<open>verified\<close> is what the signature check of Stripe's library answers for the request. The answer
  is the status code and, on success, the archived status.
\<close>

definition stripeWebhookPost ::
  "app_error + StripeEvent \<Rightarrow> (StripeEvent \<Rightarrow> string billing_prog) \<Rightarrow> billing_db \<Rightarrow> (nat \<times> string option) \<times> billing_db" where
  "stripeWebhookPost verified handle s =
     (case verified of
        Inl _ \<Rightarrow> ((400, None), s)
      | Inr event \<Rightarrow>
          (case handle event s of
             (Inl _, t) \<Rightarrow> ((500, None), t)
           | (Inr status, t) \<Rightarrow> ((200, Some status), t)))"

section \<open>The backfill runs ledger transactions\<close>

context webhook_handlers
begin

lemma reprocess_moves: "effects ledger_moves (reprocessIgnoredStripeEvents message flt deps types limit)"
proof -
  have dispatch: "effects ledger_moves (dispatch deps event)" for event
    using dispatch_rel [of event] by (simp add: effects_def handler_rel_def)
  have archive: "effects ledger_moves (upsertEvent f event)" "effects ledger_moves (updateEvent f k g)" for f event k g
    by (auto simp: effects_def upsertEvent_def updateEvent_def ledger_moves_def Let_def split: option.split)
  have "effects ledger_moves (settleAttempt message f deps event archived)" for f event archived
    unfolding settleAttempt_def
    by (intro handlers.structural handlers.alternative dispatch archive)
  then have "effects ledger_moves (handleStripeWebhookEvent message f deps event)" for f event
    unfolding handleStripeWebhookEvent_def by (intro handlers.structural archive)
  then have "effects ledger_moves (reprocessRows message flt deps rows report)" for rows report
    by (induction message flt deps rows report rule: reprocessRows.induct)
       (auto intro!: handlers.structural split: option.split)
  then show ?thesis
    unfolding reprocessIgnoredStripeEvents_def Let_def by (intro handlers.structural)
qed

end

section \<open>Every wallet of a chain is attempted once\<close>

text \<open>The wallets of a page the loop gets to before the budget trips; the first always.\<close>

fun attempted :: "int \<Rightarrow> (nat \<Rightarrow> int) \<Rightarrow> nat \<Rightarrow> string list \<Rightarrow> string list" where
  "attempted startedAt tick i [] = []"
| "attempted startedAt tick i (w # ws) =
     (if 0 < i \<and> SWEEP_TIME_BUDGET_MS < tick i - startedAt then [] else w # attempted startedAt tick (Suc i) ws)"

lemma attempted_prefix: "\<exists>rest. ws = attempted startedAt tick i ws @ rest"
  by (induction ws arbitrary: i) auto

lemma attempted_first: "attempted startedAt tick 0 (w # ws) = w # attempted startedAt tick 1 ws"
  by simp

definition wallet_orgs :: "billing_db \<Rightarrow> string list" where
  "wallet_orgs s = map cw_organizationId (wallets (ledger s))"

text \<open>What maintenance may do: ledger transactions that open no wallet.\<close>

definition maintenance_rel :: "billing_db \<Rightarrow> billing_db \<Rightarrow> bool" where
  "maintenance_rel s t \<longleftrightarrow> ledger_moves s t \<and> wallet_orgs t = wallet_orgs s"

interpretation maintenance: effect_preorder maintenance_rel
  by unfold_locales (auto simp: maintenance_rel_def intro: handlers.R_refl handlers.R_trans)

lemma wallet_shape: "shape d' = shape d \<Longrightarrow> map cw_organizationId (wallets d') = map cw_organizationId (wallets d)"
  by (simp add: shape_def)

lemma maintenance_call:
  assumes "\<And>d r d'. call d = (r, d') \<Longrightarrow> ledger_step\<^sup>*\<^sup>* d d' \<and> shape d' = shape d"
  shows "effects maintenance_rel (on_ledger call)"
  unfolding effects_def
proof
  fix s :: billing_db
  obtain r d where run: "call (ledger s) = (r, d)" by (metis surj_pair)
  then show "maintenance_rel s (snd (on_ledger call s))"
    using assms [OF run] wallet_shape [OF conjunct2 [OF assms [OF run]]]
    by (cases r) (simp_all add: on_ledger_def ledger_moves_def maintenance_rel_def wallet_orgs_def)
qed

lemma maintenance_calls:
  "effects maintenance_rel (on_ledger (releaseExpiredReservations f org now))"
  "effects maintenance_rel (on_ledger (expireDueLots f org now))"
  "effects maintenance_rel (on_ledger (reconcileWallet f org now))"
proof -
  have keeps: "shape d' = shape d" if "moves (\<lambda>s t. shape t = shape s) work" "runInWalletTransaction f org work d = (r, d')"
    for work :: "'a ledger_tx" and d r d'
    using that(2) by (rule runInWallet_cases) (use movesD [OF that(1)] in auto)
  show "effects maintenance_rel (on_ledger (releaseExpiredReservations f org now))"
    using session_steps(3) keeps [OF keeps_shape_sessions(4)]
    by (intro maintenance_call) (auto simp: releaseExpiredReservations_def)
  show "effects maintenance_rel (on_ledger (expireDueLots f org now))"
    using session_steps(4) keeps [OF keeps_shape_sweeps(1)]
    by (intro maintenance_call) (auto simp: expireDueLots_def)
  show "effects maintenance_rel (on_ledger (reconcileWallet f org now))"
    by (intro maintenance_call) (auto dest: reconcile_same)
qed

lemma sweepWallet_effect: "effects maintenance_rel (sweepWallet flt now audited org acc)"
  unfolding sweepWallet_def Let_def by (intro maintenance.structural maintenance.alternative maintenance_calls)

lemma sweepWallet_counts:
  assumes "sweepWallet flt now audited org acc s = (r, t)"
  shows "\<exists>acc'. r = Inr acc' \<and> st_nextCursor acc' = st_nextCursor acc \<and>
    st_truncatedByBudget acc' = st_truncatedByBudget acc \<and>
    st_organizationsSwept acc' + st_organizationsFailed acc' = st_organizationsSwept acc + st_organizationsFailed acc + 1"
proof -
  have run: "prog_bind (prog_try m) f s = f (fst (m s)) (snd (m s))" for m f s
    by (simp add: prog_bind_def prog_try_def case_prod_beta)
  show ?thesis
    using assms unfolding sweepWallet_def Let_def run
    by (auto simp: prog_return_def run split: sum.splits)
qed

lemma sweepWallets_totals:
  assumes "sweepWallets flt now audited startedAt tick i ws acc s = (r, t)"
  shows "\<exists>acc'. r = Inr acc' \<and> maintenance_rel s t \<and>
    st_organizationsSwept acc' + st_organizationsFailed acc' =
      st_organizationsSwept acc + st_organizationsFailed acc + length (attempted startedAt tick i ws) \<and>
    st_nextCursor acc' = (if attempted startedAt tick i ws = [] then st_nextCursor acc
      else Some (last (attempted startedAt tick i ws))) \<and>
    (st_truncatedByBudget acc' \<longleftrightarrow> st_truncatedByBudget acc \<or> length (attempted startedAt tick i ws) < length ws)"
  using assms
proof (induction ws arbitrary: i acc s)
  case Nil
  then show ?case by (auto simp: prog_return_def maintenance.R_refl)
next
  case (Cons w ws)
  show ?case
  proof (cases "0 < i \<and> SWEEP_TIME_BUDGET_MS < tick i - startedAt")
    case True
    with Cons.prems show ?thesis by (auto simp: prog_return_def maintenance.R_refl)
  next
    case False
    let ?acc = "acc\<lparr>st_nextCursor := Some w\<rparr>"
    obtain q u where one: "sweepWallet (flt w) now (audited w) w ?acc s = (q, u)" by (metis surj_pair)
    obtain b where b: "q = Inr b" "st_nextCursor b = Some w" "st_truncatedByBudget b = st_truncatedByBudget acc"
        "st_organizationsSwept b + st_organizationsFailed b = st_organizationsSwept acc + st_organizationsFailed acc + 1"
      using sweepWallet_counts [OF one] by auto
    have "sweepWallets flt now audited startedAt tick (Suc i) ws b u = (r, t)"
      using Cons.prems False one b(1) by (simp add: prog_bind_def)
    from Cons.IH [OF this] obtain acc' where acc': "r = Inr acc'" "maintenance_rel u t"
      "st_organizationsSwept acc' + st_organizationsFailed acc' =
        st_organizationsSwept b + st_organizationsFailed b + length (attempted startedAt tick (Suc i) ws)"
      "st_nextCursor acc' = (if attempted startedAt tick (Suc i) ws = [] then st_nextCursor b
        else Some (last (attempted startedAt tick (Suc i) ws)))"
      "st_truncatedByBudget acc' \<longleftrightarrow> st_truncatedByBudget b \<or> length (attempted startedAt tick (Suc i) ws) < length ws"
      by blast
    have "maintenance_rel s t"
      using effectsD [OF sweepWallet_effect one] acc'(2) by (rule maintenance.R_trans)
    moreover have at: "attempted startedAt tick i (w # ws) = w # attempted startedAt tick (Suc i) ws" using False by auto
    ultimately show ?thesis unfolding at using acc' b by auto
  qed
qed

lemma after_last:
  assumes "distinct (pre @ att @ post)" and "att \<noteq> []"
  shows "tl (dropWhile (\<lambda>x. x \<noteq> last att) (pre @ att @ post)) = post"
proof -
  obtain ys y where att: "att = ys @ [y]" using assms(2) by (metis append_butlast_last_id)
  have "y \<notin> set (pre @ ys)" using assms(1) by (auto simp: att)
  then have "dropWhile (\<lambda>x. x \<noteq> y) ((pre @ ys) @ y # post) = y # post"
    by (subst dropWhile_append2) auto
  then show ?thesis by (simp add: att)
qed

text \<open>A chain of invocations that follows \<open>nextCursor\<close> while there is more.\<close>

fun sweepChain ::
  "environment \<Rightarrow> (string list \<Rightarrow> string list) \<Rightarrow> (nat \<Rightarrow> sweep_run) \<Rightarrow> nat \<Rightarrow> nat \<Rightarrow> nat \<Rightarrow> string option \<Rightarrow> billing_db \<Rightarrow>
   BillingSweepReport list \<times> billing_db" where
  "sweepChain env ascending runs limit 0 i cursor s = ([], s)"
| "sweepChain env ascending runs limit (Suc fuel) i cursor s =
     (case runSweep env ascending (runs i) \<lparr>pg_cursor = cursor, pg_limit = limit\<rparr> s of
        (Inl _, t) \<Rightarrow> ([], t)
      | (Inr report, t) \<Rightarrow>
          if sr_hasMore report
          then (case sweepChain env ascending runs limit fuel (Suc i) (sr_nextCursor report) t of (rs, u) \<Rightarrow> (report # rs, u))
          else ([report], t))"

definition report_count :: "BillingSweepReport \<Rightarrow> nat" where
  "report_count r = st_organizationsSwept (sr_totals r) + st_organizationsFailed (sr_totals r)"

lemma entry_pass:
  fixes m :: "'a billing_prog"
  assumes "effects ledger_moves m" and "\<not> isl (fst (m s))"
  obtains a t where "m s = (Inr a, t)" "ledger_moves s t"
  using assms by (metis effectsD prod.collapse sum.collapse(2))

lemma recoverEvents_ok:
  assumes "\<And>i. effects ledger_moves (fulfill i)"
  shows "\<exists>rep t. recoverEvents fulfill now deadline tick i events report s = (Inr rep, t) \<and> ledger_moves s t"
proof (induction events arbitrary: i report s)
  case (Cons event events)
  show ?case
  proof (cases "deadline \<le> tick i")
    case False
    let ?rep = "report\<lparr>me_scanned := me_scanned report + 1\<rparr>"
    show ?thesis
    proof (cases "readEventIdentity event")
      case None
      with False Cons.IH show ?thesis by simp
    next
      case (Some p)
      obtain q u where one: "fulfill \<lparr>fi_checkoutSessionId = fst p, fi_expectedOrganizationId = None,
          fi_stripeEventId = Some (snd p), fi_now = now\<rparr> s = (q, u)" by (metis surj_pair)
      have su: "ledger_moves s u" using effectsD [OF assms one] .
      define next_rep where "next_rep = (case q of Inl _ \<Rightarrow> ?rep\<lparr>me_failed := me_failed ?rep + 1\<rparr>
        | Inr (FGranted _) \<Rightarrow> ?rep\<lparr>me_granted := me_granted ?rep + 1\<rparr> | Inr _ \<Rightarrow> ?rep)"
      have same: "recoverEvents fulfill now deadline tick i (event # events) report s =
          recoverEvents fulfill now deadline tick (Suc i) events next_rep u"
        using Some False one by (simp add: prog_bind_def prog_try_def case_prod_beta Let_def next_rep_def cong: sum.case_cong CreditCheckoutFulfilment.case_cong)
      obtain rep t where "recoverEvents fulfill now deadline tick (Suc i) events next_rep u = (Inr rep, t)" "ledger_moves u t"
        using Cons.IH by blast
      then show ?thesis using same handlers.R_trans [OF su] by auto
    qed
  qed (auto simp: prog_return_def handlers.R_refl)
qed (auto simp: prog_return_def handlers.R_refl)

lemma recoverMissed_ok:
  assumes "\<And>i. effects ledger_moves (fulfill i)"
  shows "\<exists>rep t. recoverMissedCheckoutEvents env listing fulfill now deadline tick s = (Inr rep, t) \<and> ledger_moves s t"
  using recoverEvents_ok [OF assms]
  by (auto simp: recoverMissedCheckoutEvents_def prog_return_def handlers.R_refl split: sum.split)

text \<open>One invocation, after its entry passes: it covers the front of what is left.\<close>

definition front_swept :: "string list \<Rightarrow> BillingSweepReport \<Rightarrow> bool" where
  "front_swept left report \<longleftrightarrow>
     (\<exists>att rest. left = att @ rest \<and> report_count report = length att \<and> (sr_hasMore report \<longleftrightarrow> rest \<noteq> []) \<and>
        (att = [] \<longrightarrow> rest = []) \<and> (sr_hasMore report \<longrightarrow> sr_nextCursor report = Some (last att)))"

lemma runSweep_page:
  assumes "runSweep env ascending run \<lparr>pg_cursor = cursor, pg_limit = limit\<rparr> s = (r, t)"
    and "cursor = None \<Longrightarrow> effects ledger_moves (sw_reprocess run) \<and> (\<forall>u. \<not> isl (fst (sw_reprocess run u)))"
    and "cursor = None \<Longrightarrow> (\<forall>i. effects ledger_moves (sw_fulfill run i))"
    and "1 \<le> limit"
  shows "\<exists>report s'. r = Inr report \<and> maintenance_rel s' t \<and> (cursor \<noteq> None \<longrightarrow> s' = s) \<and> ledger_moves s s' \<and>
    front_swept (case cursor of None \<Rightarrow> ascending (wallet_orgs s')
      | Some c \<Rightarrow> tl (dropWhile (\<lambda>i. i \<noteq> c) (ascending (wallet_orgs s')))) report"
proof -
  let ?page = "\<lparr>pg_cursor = cursor, pg_limit = limit\<rparr>"
  let ?deadline = "sw_startedAt run + ENTRY_PASS_TIME_BUDGET_MS"
  let ?first = "if cursor = None \<and> sw_entryTick run < ?deadline then sw_reprocess run else prog_return empty_report"
  let ?second = "if cursor = None
    then recoverMissedCheckoutEvents env (sw_listing run) (sw_fulfill run) (sw_now run) ?deadline (sw_eventTick run)
    else prog_return (missed_report (Some continuation_page))"
  obtain a s1 where first: "?first s = (Inr a, s1)" "ledger_moves s s1" "cursor \<noteq> None \<longrightarrow> s1 = s"
  proof (cases "cursor = None \<and> sw_entryTick run < ?deadline")
    case True
    then show ?thesis using entry_pass [of "sw_reprocess run" s] assms(2) that by auto
  next
    case False
    then show ?thesis using that [of empty_report s] by (auto simp: prog_return_def handlers.R_refl)
  qed
  obtain b s' where second: "?second s1 = (Inr b, s')" "ledger_moves s1 s'" "cursor \<noteq> None \<longrightarrow> s' = s1"
  proof (cases "cursor = None")
    case True
    then have "\<And>i. effects ledger_moves (sw_fulfill run i)" using assms(3) by blast
    then show ?thesis using recoverMissed_ok [of "sw_fulfill run" env "sw_listing run"] True that by fastforce
  next
    case False
    then show ?thesis using that [of _ s1] by (auto simp: prog_return_def handlers.R_refl)
  qed
  define rows where "rows = pageRows ascending ?page (ledger s')"
  define ids where "ids = ascending (wallet_orgs s')"
  define left where "left = (case cursor of None \<Rightarrow> ids | Some c \<Rightarrow> tl (dropWhile (\<lambda>i. i \<noteq> c) ids))"
  have rows: "rows = take (limit + 1) left"
    by (simp add: rows_def pageRows_def left_def Let_def flip: ids_def wallet_orgs_def)
  have page: "take limit rows = take limit left" by (simp add: rows)
  define att where "att = attempted (sw_startedAt run) (sw_walletTick run) 0 (take limit left)"
  let ?acc = "\<lparr>st_driftDetected = [], st_holdsReleased = 0, st_lotsExpired = 0, st_organizationsFailed = 0,
    st_organizationsSwept = 0, st_nextCursor = cursor, st_truncatedByBudget = False\<rparr>"
  obtain q u where loop: "sweepWallets (sw_faults run) (sw_now run) (sw_audited run) (sw_startedAt run) (sw_walletTick run) 0
      (take limit left) ?acc s' = (q, u)" by (metis surj_pair)
  from sweepWallets_totals [OF loop] obtain acc' where tot: "q = Inr acc'" "maintenance_rel s' u"
      "st_organizationsSwept acc' + st_organizationsFailed acc' = length att"
      "st_nextCursor acc' = (if att = [] then cursor else Some (last att))"
      "st_truncatedByBudget acc' \<longleftrightarrow> length att < length (take limit left)"
    unfolding att_def [symmetric] by (elim exE conjE) (rule that, simp_all)
  define more where "more \<longleftrightarrow> st_truncatedByBudget acc' \<or> limit < length rows"
  define report where "report = \<lparr>sr_totals = acc', sr_failedCount = length (filter (\<lambda>r. wh_status r = ''failed'') (archive s')),
    sr_hasMore = more, sr_missedEvents = b,
    sr_needsAdminCount = length (filter (\<lambda>r. wh_status r = ''needs_admin'') (archive s')),
    sr_nextCursor = (if more then st_nextCursor acc' else None), sr_reprocessed = a\<rparr>"
  have "runSweep env ascending run ?page s = (Inr report, u)"
    unfolding runSweep_def Let_def
    by (simp add: prog_bind_def prog_get_def first(1) second(1) loop tot(1) page prog_return_def report_def more_def
        flip: rows_def)
  with assms(1) have run: "r = Inr report" "t = u" by simp_all
  obtain rest where pre: "take limit left = att @ rest" using attempted_prefix att_def by blast
  have len: "length att \<le> length (take limit left)" by (simp add: pre)
  have more: "more \<longleftrightarrow> length att < length left"
    using len by (auto simp: more_def tot(5) rows min_def)
  have first_att: "att = [] \<longrightarrow> left = []"
    using assms(4) by (cases left; cases limit) (auto simp: att_def)
  have ex: "left = att @ (rest @ drop limit left)" by (metis append.assoc append_take_drop_id pre)
  have cnt: "report_count report = length att"
    using tot(3) by (simp add: report_def report_count_def)
  have next_at: "sr_hasMore report \<longrightarrow> sr_nextCursor report = Some (last att)"
    using tot(4) more first_att by (auto simp: report_def)
  have flag: "sr_hasMore report \<longleftrightarrow> length att < length left"
    using more by (simp add: report_def)
  have "rest @ drop limit left \<noteq> [] \<longleftrightarrow> length att < length left" by (subst (2) ex) auto
  then have "front_swept left report"
    unfolding front_swept_def
    using cnt flag first_att ex next_at by (intro exI [of _ att] exI [of _ "rest @ drop limit left"]) auto
  then have "front_swept (case cursor of None \<Rightarrow> ascending (wallet_orgs s')
      | Some c \<Rightarrow> tl (dropWhile (\<lambda>i. i \<noteq> c) (ascending (wallet_orgs s')))) report"
    by (simp only: left_def ids_def)
  then show ?thesis
    using run tot(2) first(3) second(3) handlers.R_trans [OF first(2) second(2)] by blast
qed

text \<open>The chain from a cursor on: what is left is swept to its end.\<close>

lemma chain_rest:
  assumes "ascending (wallet_orgs s) = pre @ post" and "distinct (pre @ post)" and "pre \<noteq> []"
    and "length post < fuel" and "1 \<le> limit"
  shows "\<exists>reports t. sweepChain env ascending runs limit fuel i (Some (last pre)) s = (reports, t) \<and>
    maintenance_rel s t \<and> reports \<noteq> [] \<and> \<not> sr_hasMore (last reports) \<and>
    sum_list (map report_count reports) = length post"
  using assms(1-4)
proof (induction fuel arbitrary: i s pre post)
  case (Suc fuel)
  obtain r t where run: "runSweep env ascending (runs i) \<lparr>pg_cursor = Some (last pre), pg_limit = limit\<rparr> s = (r, t)"
    by (metis surj_pair)
  have left: "tl (dropWhile (\<lambda>i. i \<noteq> last pre) (ascending (wallet_orgs s))) = post"
    using after_last [of "[]" pre post] Suc.prems(1-3) by simp
  from runSweep_page [OF run _ _ assms(5)] left obtain report where swept: "r = Inr report" "maintenance_rel s t"
      "front_swept post report" by auto
  then obtain att rest where page: "report_count report = length att" "sr_hasMore report \<longleftrightarrow> rest \<noteq> []"
      "att = [] \<longrightarrow> rest = []" "post = att @ rest" "sr_hasMore report \<longrightarrow> sr_nextCursor report = Some (last att)"
    by (auto simp: front_swept_def)
  show ?case
  proof (cases "sr_hasMore report")
    case False
    then show ?thesis using run swept page by auto
  next
    case True
    have att: "att \<noteq> []" using True page(2,3) by auto
    have orgs: "ascending (wallet_orgs t) = (pre @ att) @ rest"
      using swept(2) page(4) Suc.prems(1) by (simp add: maintenance_rel_def)
    have "length rest < fuel" using Suc.prems(4) page(4) att by (cases att) auto
    from Suc.IH [OF orgs _ _ this, of "Suc i"] obtain reports u where
      "sweepChain env ascending runs limit fuel (Suc i) (Some (last att)) t = (reports, u)"
      "maintenance_rel t u" "reports \<noteq> []" "\<not> sr_hasMore (last reports)" "sum_list (map report_count reports) = length rest"
      using Suc.prems(2,3) page(4) att by auto
    then show ?thesis
      using run swept(1) page True maintenance.R_trans [OF swept(2)] by auto
  qed
qed simp

lemma reprocess_never_throws:
  "\<not> isl (fst (reprocessIgnoredStripeEvents message flt deps types limit s))"
proof -
  have "\<not> isl (fst (reprocessRows message flt deps rows empty_report s))" for rows
    using reprocessRows_report [of message flt deps rows empty_report s] by auto
  then show ?thesis by (simp add: reprocessIgnoredStripeEvents_def prog_bind_def prog_get_def Let_def)
qed

text \<open>The whole chain, from its entry call.\<close>

lemma chain_covers:
  assumes reach: "ledger_reachable (ledger s)" and limit: "1 \<le> limit"
    and order: "\<And>ids. mset (ascending ids) = mset ids"
    and reprocess: "sw_reprocess (runs 0) = reprocessIgnoredStripeEvents message rflt
      (defaultDeps retrieve stripe grant_flt flt ids notify clock) None None"
    and fulfill: "sw_fulfill (runs 0) = fulfillCreditCheckout retrieve grant_flt ids"
  shows "\<exists>n. \<forall>fuel\<ge>n. \<exists>reports t. sweepChain env ascending runs limit fuel 0 None s = (reports, t) \<and>
    ledger_reachable (ledger t) \<and> reports \<noteq> [] \<and> \<not> sr_hasMore (last reports) \<and>
    sum_list (map report_count reports) = length (wallets (ledger t))"
proof -
  obtain r t where run: "runSweep env ascending (runs 0) \<lparr>pg_cursor = None, pg_limit = limit\<rparr> s = (r, t)"
    by (metis surj_pair)
  have "effects ledger_moves (sw_reprocess (runs 0)) \<and> (\<forall>u. \<not> isl (fst (sw_reprocess (runs 0) u)))"
    unfolding reprocess using default.reprocess_moves reprocess_never_throws by blast
  moreover have "\<forall>i. effects ledger_moves (sw_fulfill (runs 0) i)"
    unfolding fulfill using fulfillCreditCheckout_rel by (auto simp: effects_def handler_rel_def)
  ultimately obtain report s' where page: "r = Inr report" "maintenance_rel s' t" "ledger_moves s s'"
      "front_swept (ascending (wallet_orgs s')) report"
    using runSweep_page [OF run _ _ limit] by auto
  then obtain att rest where front: "ascending (wallet_orgs s') = att @ rest" "report_count report = length att"
      "sr_hasMore report \<longleftrightarrow> rest \<noteq> []" "att = [] \<longrightarrow> rest = []" "sr_hasMore report \<longrightarrow> sr_nextCursor report = Some (last att)"
    by (auto simp: front_swept_def)
  have st: "ledger_moves s t" using page(2,3) handlers.R_trans by (auto simp: maintenance_rel_def)
  have orgs: "ascending (wallet_orgs t) = att @ rest" using page(2) front(1) by (simp add: maintenance_rel_def)
  have "keys_ok (ledger t)"
    using reachable_inv [OF moves_reachable [OF st reach]] by (simp add: ledger_inv_def wf_def)
  then have "distinct (wallet_orgs t)" by (simp add: keys_ok_def wallet_orgs_def)
  then have dist: "distinct (att @ rest)"
    using order [of "wallet_orgs t"] orgs by (metis mset_eq_imp_distinct_iff)
  have total: "length (wallets (ledger t)) = length att + length rest"
    using arg_cong [OF order [of "wallet_orgs t"], of size] orgs by (simp add: wallet_orgs_def)
  show ?thesis
  proof (intro exI [of _ "length rest + 2"] allI impI)
    fix fuel
    assume "length rest + 2 \<le> fuel"
    then obtain k where fuel: "fuel = Suc k" "length rest < k" by (cases fuel) auto
    show "\<exists>reports t. sweepChain env ascending runs limit fuel 0 None s = (reports, t) \<and>
        ledger_reachable (ledger t) \<and> reports \<noteq> [] \<and> \<not> sr_hasMore (last reports) \<and>
        sum_list (map report_count reports) = length (wallets (ledger t))"
    proof (cases "sr_hasMore report")
      case False
      then show ?thesis
        using run page(1) front total fuel moves_reachable [OF st reach] by simp
    next
      case True
      with front have att: "att \<noteq> []" by auto
      from chain_rest [where pre = att and post = rest and i = 1 and s = t and ascending = ascending, OF orgs dist att fuel(2) limit, of env runs] obtain reports u where
        rest: "sweepChain env ascending runs limit k 1 (Some (last att)) t = (reports, u)"
        "maintenance_rel t u" "reports \<noteq> []" "\<not> sr_hasMore (last reports)" "sum_list (map report_count reports) = length rest"
        by blast
      have "length (wallets (ledger u)) = length (wallets (ledger t))"
        using arg_cong [of _ _ length, OF conjunct2 [OF rest(2) [unfolded maintenance_rel_def]]]
        by (simp add: wallet_orgs_def)
      moreover have "ledger_moves s u" using st rest(2) handlers.R_trans by (auto simp: maintenance_rel_def)
      ultimately show ?thesis
        using run page(1) front True total fuel(1) rest moves_reachable [OF _ reach] by simp
    qed
  qed
qed


definition no_wallet_faults :: wallet_faults where
  "no_wallet_faults = \<lparr>wf_release = no_faults, wf_expire = no_faults, wf_reconcile = no_faults\<rparr>"

definition demo_run :: "nat \<Rightarrow> sweep_run" where
  "demo_run i = \<lparr>sw_startedAt = 0, sw_now = 7, sw_entryTick = 1, sw_eventTick = (\<lambda>_. 2), sw_walletTick = (\<lambda>_. 30000),
     sw_audited = (\<lambda>_. 8), sw_faults = (\<lambda>_. no_wallet_faults),
     sw_reprocess = reprocessIgnoredStripeEvents (\<lambda>_. ''error'') (\<lambda>_. \<lparr>fault_upsert = None, fault_update = None\<rparr>) demo_deps None None,
     sw_listing = Inr [], sw_fulfill = fulfillCreditCheckout demo_session (no_faults, no_faults) demo_ids\<rparr>"

definition demo_till :: billing_db where
  "demo_till = \<lparr>ledger = demo_held, packs = [], archive = [], notices = []\<rparr>"


section \<open>What the audit of a sweep can report\<close>

lemma sweep_audit:
  assumes reach: "ledger_reachable (ledger s)" and wallet: "findWallet org (ledger s) = Some w"
    and run: "sweepWallet no_wallet_faults now audited org acc s = (Inr acc', t)"
    and swept: "st_organizationsSwept acc' \<noteq> st_organizationsSwept acc"
  shows "st_driftDetected acc' = st_driftDetected acc @
    (if \<exists>l\<in>set (lots (ledger t)). cl_organizationId l = org \<and> cl_status l = Known Active \<and>
        now < cl_expiresAt l \<and> cl_expiresAt l \<le> audited \<and> 0 < lotAvailable l then [org] else [])"
proof -
  obtain q d1 where release: "releaseExpiredReservations no_faults org now (ledger s) = (q, d1)" by (metis surj_pair)
  obtain n where q: "q = Inr n"
    using run swept release
    by (cases q) (auto simp: sweepWallet_def no_wallet_faults_def prog_bind_def prog_try_def on_ledger_def prog_return_def)
  have steps: "ledger_step\<^sup>*\<^sup>* (ledger s) d1" using session_steps(3) [OF release] .
  have reach1: "ledger_reachable d1" using reach steps by (simp add: ledger_reachable_def)
  obtain v where v: "findWallet org d1 = Some v"
    using evolved_wallet [OF conjunct2 [OF ledger_steps_evolve [OF steps reachable_inv [OF reach]]] _ wallet]
      reachable_inv [OF reach1] by (auto simp: ledger_inv_def)
  from sweep_clean [OF reach1 v, of now] obtain ids d2 where expire: "expireDueLots no_faults org now d1 = (Inr ids, d2)"
    and none_due: "\<forall>l\<in>set (lots d2). cl_organizationId l = org \<longrightarrow> cl_status l = Known Active \<longrightarrow> now < cl_expiresAt l"
    by blast
  have steps2: "ledger_step\<^sup>*\<^sup>* d1 d2" using session_steps(4) [OF expire] .
  have reach2: "ledger_reachable d2" using reach1 steps2 by (simp add: ledger_reachable_def)
  obtain u where u: "findWallet org d2 = Some u"
    using evolved_wallet [OF conjunct2 [OF ledger_steps_evolve [OF steps2 reachable_inv [OF reach1]]] _ v]
      reachable_inv [OF reach2] by (auto simp: ledger_inv_def)
  from audit_exact [OF reach2 u, of audited] obtain audit where
    audit: "reconcileWallet no_faults org audited d2 = (Inr audit, d2)"
    and exact: "rec_consistent audit \<longleftrightarrow> \<not> (\<exists>l\<in>set (lots d2). cl_organizationId l = org \<and>
       cl_status l = Known Active \<and> cl_expiresAt l \<le> audited \<and> 0 < lotAvailable l)"
    by blast
  have "t = s\<lparr>ledger := d2\<rparr>" and "st_driftDetected acc' =
      (if rec_consistent audit then st_driftDetected acc else st_driftDetected acc @ [org])"
    using run release q expire audit
    by (auto simp: sweepWallet_def no_wallet_faults_def prog_bind_def prog_try_def on_ledger_def prog_return_def Let_def)
  then show ?thesis using exact none_due by auto
qed

text \<open>
  C36: what the audit of a sweep can report. On a ledger this code wrote, with no transaction
  failing, the sweep of an organization reports drift exactly when an active lot with free credits
  ran out between the clock of the sweep, which expires lots, and the audit's own clock.
\<close>
theorem sweep_alarm_is_a_clock_gap:
  assumes "ledger_reachable (ledger s)" and "findWallet org (ledger s) = Some w"
    and "sweepWallet no_wallet_faults now audited org acc s = (Inr acc', t)"
    and "st_organizationsSwept acc' \<noteq> st_organizationsSwept acc"
  shows "st_driftDetected acc' = st_driftDetected acc @
    (if \<exists>l\<in>set (lots (ledger t)). cl_organizationId l = org \<and> cl_status l = Known Active \<and>
        now < cl_expiresAt l \<and> cl_expiresAt l \<le> audited \<and> 0 < lotAvailable l then [org] else [])"
  by (rule sweep_audit [OF assms])

definition demo_totals :: SweepTotals where
  "demo_totals = \<lparr>st_driftDetected = [], st_holdsReleased = 0, st_lotsExpired = 0, st_organizationsFailed = 0,
     st_organizationsSwept = 0, st_nextCursor = None, st_truncatedByBudget = False\<rparr>"

theorem sweep_alarm_is_a_clock_gap_witness:
  "(\<exists>acc' t. sweepWallet no_wallet_faults 7 8 ''org'' demo_totals demo_till = (Inr acc', t) \<and> st_driftDetected acc' = [])"
proof -
  have reach: "ledger_reachable (ledger demo_till)" using demo_held_reachable by (simp add: demo_till_def)
  obtain acc' t where run: "sweepWallet no_wallet_faults 7 8 ''org'' demo_totals demo_till = (Inr acc', t)"
    using sweepWallet_counts by (metis surj_pair)
  have "case sweepWallet no_wallet_faults 7 8 ''org'' demo_totals demo_till of (r, t) \<Rightarrow> (case r of Inl _ \<Rightarrow> False | Inr a \<Rightarrow>
      st_organizationsSwept a = 1 \<and> list_all (\<lambda>l. 8 < cl_expiresAt l) (lots (ledger t)))" by code_simp
  then have fin: "st_organizationsSwept acc' = 1" "list_all (\<lambda>l. 8 < cl_expiresAt l) (lots (ledger t))"
    by (simp_all add: run)
  have "findWallet ''org'' (ledger demo_till) = Some (the (findWallet ''org'' (ledger demo_till)))" by code_simp
  from sweep_alarm_is_a_clock_gap [OF reach this run] fin run show ?thesis
    by (auto simp: demo_totals_def list_all_iff)
qed

section \<open>The return route writes for its own organization only\<close>

text \<open>
  C18: a link somebody else sends cannot make a browser return write. The route never throws; and
  unless it leaves every table as it was, the caller is a member whose role may buy credits, the
  id in the link is that of a checkout session, and Stripe's metadata of that session names the
  caller's own organization.
\<close>
theorem return_writes_only_own_session:
  "\<exists>banner t. resolveReturnOutcome env sessionId scope (fulfillCreditCheckout retrieve flt fresh) now s = (Inr banner, t) \<and>
     (t = s \<or> (\<exists>sc link session. scope = Inr sc \<and> may_purchase (sc_role sc) \<and> js_startsWith link ''cs_'' \<and>
        map_option js_trim sessionId = Some link \<and> retrieve link = Inr session \<and>
        trimmed (cs_metadata session) ''organizationId'' = Some (sc_organizationId sc)))"
proof (cases "\<exists>link sc. isCreditBillingEnabled env \<and> isStripePurchaseConfigured env \<and>
    truthy_id (map_option js_trim sessionId) = Some link \<and> js_startsWith link ''cs_'' \<and> scope = Inr sc \<and> may_purchase (sc_role sc)")
  case False
  then have "\<exists>banner. resolveReturnOutcome env sessionId scope (fulfillCreditCheckout retrieve flt fresh) now s = (Inr banner, s)"
    by (auto simp: resolveReturnOutcome_def prog_return_def split: option.split sum.split)
  then show ?thesis by blast
next
  case True
  then obtain link sc where ok: "isCreditBillingEnabled env" "isStripePurchaseConfigured env"
    "truthy_id (map_option js_trim sessionId) = Some link" "js_startsWith link ''cs_''" "scope = Inr sc" "may_purchase (sc_role sc)"
    by blast
  let ?input = "\<lparr>fi_checkoutSessionId = link, fi_expectedOrganizationId = Some (sc_organizationId sc),
    fi_stripeEventId = None, fi_now = now\<rparr>"
  obtain r t where run: "fulfillCreditCheckout retrieve flt fresh ?input s = (r, t)" by (metis surj_pair)
  have "\<exists>banner. resolveReturnOutcome env sessionId scope (fulfillCreditCheckout retrieve flt fresh) now s = (Inr banner, t)"
    using ok run by (cases r) (auto simp: resolveReturnOutcome_def prog_catch_def prog_bind_def prog_return_def)
  moreover have "t = s \<or> (\<exists>session. retrieve link = Inr session \<and>
      trimmed (cs_metadata session) ''organizationId'' = Some (sc_organizationId sc))"
    using run
    by (cases "retrieve link") (auto simp: fulfillCreditCheckout_def prog_bind_def prog_lift_def prog_return_def split: if_splits)
  moreover have "map_option js_trim sessionId = Some link" using ok(3) by (simp add: truthy_id_Some)
  ultimately show ?thesis using ok by blast
qed

section \<open>Who may start a sweep\<close>


end
