(* ===== verification/IpAddress.thy ===== *)
theory IpAddress
  imports JsNumber JsDate "HOL-Library.Word"
begin

text \<open>
  The destination half of the import guard (\<open>role-intakes/role-intake-url-policy.ts\<close>): which
  textual IP addresses count as public. \<open>net.isIP\<close> is Node's grammar, written out; addresses
  are integers in the code's BigInt arithmetic, and words in the reference they are compared with.
\<close>

section \<open>Splitting and joining text\<close>

definition prepend :: "char \<Rightarrow> string list \<Rightarrow> string list" where
  "prepend c ws = (case ws of [] \<Rightarrow> [[c]] | w # r \<Rightarrow> (c # w) # r)"

text \<open>\<open>s.split(d)\<close> for one character, and \<open>s.split("::")\<close>\<close>

fun split_on :: "char \<Rightarrow> string \<Rightarrow> string list" where
  "split_on d [] = [[]]"
| "split_on d (c # s) = (if c = d then [] # split_on d s else prepend c (split_on d s))"

fun split_colons :: "string \<Rightarrow> string list" where
  "split_colons [] = [[]]"
| "split_colons [c] = [[c]]"
| "split_colons (a # b # s) =
     (if a = CHR '':'' \<and> b = CHR '':'' then [] # split_colons s else prepend a (split_colons (b # s)))"

fun join_with :: "string \<Rightarrow> string list \<Rightarrow> string" where
  "join_with d [] = []"
| "join_with d [w] = w"
| "join_with d (w # v # vs) = w @ d @ join_with d (v # vs)"

section \<open>Node's address grammar\<close>

definition v4_segment :: "string \<Rightarrow> bool" where
  "v4_segment s \<longleftrightarrow> s \<noteq> [] \<and> length s \<le> 3 \<and> list_all is_digit s \<and> (length s = 1 \<or> hd s \<noteq> CHR ''0'') \<and>
     digits_value 10 s \<le> 255"

definition isIPv4 :: "string \<Rightarrow> bool" where
  "isIPv4 s \<longleftrightarrow> (let parts = split_on (CHR ''.'') s in length parts = 4 \<and> list_all v4_segment parts)"

definition is_hex :: "char \<Rightarrow> bool" where
  "is_hex c \<longleftrightarrow> (case digit_value c of Some d \<Rightarrow> d < 16 | None \<Rightarrow> False)"

definition v6_segment :: "string \<Rightarrow> bool" where
  "v6_segment s \<longleftrightarrow> s \<noteq> [] \<and> length s \<le> 4 \<and> list_all is_hex s"

text \<open>How many groups a side of an address has; only its last part may be a dotted quad.\<close>

fun v6_groups :: "bool \<Rightarrow> string list \<Rightarrow> nat option" where
  "v6_groups quad [] = Some 0"
| "v6_groups quad [p] = (if v6_segment p then Some 1 else if quad \<and> isIPv4 p then Some 2 else None)"
| "v6_groups quad (p # q # ps) = (if v6_segment p then map_option Suc (v6_groups quad (q # ps)) else None)"

definition v6_side :: "bool \<Rightarrow> string \<Rightarrow> nat option" where
  "v6_side quad s = (if s = [] then Some 0 else v6_groups quad (split_on (CHR '':'') s))"

definition v6_plain :: "string \<Rightarrow> bool" where
  "v6_plain s =
     (case split_colons s of
        [a] \<Rightarrow> v6_side True a = Some 8
      | [h, t] \<Rightarrow> (case (v6_side False h, v6_side True t) of (Some m, Some n) \<Rightarrow> m + n \<le> 7 | _ \<Rightarrow> False)
      | _ \<Rightarrow> False)"

definition zone_char :: "char \<Rightarrow> bool" where
  "zone_char c \<longleftrightarrow> (case digit_value c of Some _ \<Rightarrow> True | None \<Rightarrow> c \<in> {CHR ''-'', CHR ''.'', CHR '':''})"

definition not_zone :: "char \<Rightarrow> bool" where "not_zone c \<longleftrightarrow> c \<noteq> CHR ''%''"

definition isIPv6 :: "string \<Rightarrow> bool" where
  "isIPv6 s \<longleftrightarrow> v6_plain (takeWhile not_zone s) \<and>
     (case dropWhile not_zone s of [] \<Rightarrow> True | _ # zone \<Rightarrow> zone \<noteq> [] \<and> list_all zone_char zone)"

definition net_isIP :: "string \<Rightarrow> nat" where
  "net_isIP s = (if isIPv4 s then 4 else if isIPv6 s then 6 else 0)"

section \<open>The guard\<close>

text \<open>\<open>n.toString(16)\<close>\<close>

definition hex_char :: "nat \<Rightarrow> char" where
  "hex_char d = (if d < 10 then char_of (d + 48) else char_of (d + 87))"

fun hex_digits :: "nat \<Rightarrow> string" where
  "hex_digits n = (if n < 16 then [hex_char n] else hex_digits (n div 16) @ [hex_char (n mod 16)])"

declare hex_digits.simps [simp del]

definition quad_values :: "string \<Rightarrow> rat option list" where
  "quad_values address = map (\<lambda>p. js_Number (Some p)) (split_on (CHR ''.'') address)"

text \<open>\<open>Number.isInteger(part) && part >= 0 && part <= 255\<close>\<close>

definition octet :: "rat option \<Rightarrow> nat option" where
  "octet v = (case v of None \<Rightarrow> None
     | Some r \<Rightarrow> if of_int \<lfloor>r\<rfloor> = r \<and> 0 \<le> r \<and> r \<le> 255 then Some (nat \<lfloor>r\<rfloor>) else None)"

definition special_octets :: "nat \<Rightarrow> nat \<Rightarrow> nat \<Rightarrow> bool" where
  "special_octets first second third \<longleftrightarrow>
     first = 0 \<or> first = 10 \<or> first = 127 \<or> 224 \<le> first \<or>
     first = 100 \<and> 64 \<le> second \<and> second \<le> 127 \<or>
     first = 169 \<and> second = 254 \<or>
     first = 172 \<and> 16 \<le> second \<and> second \<le> 31 \<or>
     first = 192 \<and> (second = 0 \<or> second = 2 \<or> second = 88 \<or> second = 168) \<or>
     first = 198 \<and> (second = 18 \<or> second = 19 \<or> second = 51) \<or>
     first = 203 \<and> second = 0 \<and> third = 113"

definition isGloballyRoutableIpv4 :: "string \<Rightarrow> bool" where
  "isGloballyRoutableIpv4 address =
     (case map octet (quad_values address) of
        [Some first, Some second, Some third, Some _] \<Rightarrow> \<not> special_octets first second third
      | _ \<Rightarrow> False)"

definition expandIpv4Hextet :: "string \<Rightarrow> string list" where
  "expandIpv4Hextet part =
     (if CHR ''.'' \<notin> set part then [part]
      else if net_isIP part \<noteq> 4 then [part]
      else case map octet (quad_values part) of
             [Some a, Some b, Some c, Some d] \<Rightarrow> [hex_digits (a * 256 + b), hex_digits (c * 256 + d)]
           | _ \<Rightarrow> [part])"

definition expand_side :: "string \<Rightarrow> string list" where
  "expand_side side = (if side = [] then []
     else concat (map expandIpv4Hextet (filter (\<lambda>p. p \<noteq> []) (split_on (CHR '':'') side))))"

definition lower_hextet :: "string \<Rightarrow> bool" where
  "lower_hextet s \<longleftrightarrow> s \<noteq> [] \<and> length s \<le> 4 \<and>
     list_all (\<lambda>c. let n = (of_char c :: nat) in (48 \<le> n \<and> n \<le> 57) \<or> (97 \<le> n \<and> n \<le> 102)) s"

text \<open>\<open>BigInt("0x" + s)\<close>\<close>

definition hex_value :: "string \<Rightarrow> int" where
  "hex_value s = foldl (\<lambda>a c. 16 * a + (case digit_value c of Some d \<Rightarrow> int d | None \<Rightarrow> 0)) 0 s"

definition ipv6ToBigInt :: "string \<Rightarrow> int option" where
  "ipv6ToBigInt address =
     (let raw = takeWhile not_zone (js_toLowerCase address);
          sides = split_colons raw
      in if 2 < length sides then None
         else
           let headParts = expand_side (hd sides);
               tailParts = (case sides of [_, t] \<Rightarrow> expand_side t | _ \<Rightarrow> []);
               parts = (if length sides = 2
                        then headParts @ replicate (8 - length headParts - length tailParts) ''0'' @ tailParts
                        else headParts)
           in if length parts \<noteq> 8 \<or> \<not> list_all lower_hextet parts then None
              else Some (hex_value (concat (map (pad 4) parts))))"

definition bigIntToIpv4 :: "int \<Rightarrow> string" where
  "bigIntToIpv4 v = join_with ''.'' (map (\<lambda>k. js_String (v div 2 ^ k mod 256)) [24, 16, 8, 0])"

definition specialUseRanges :: "(string \<times> nat) list" where
  "specialUseRanges =
     [(''::'', 128), (''::1'', 128), (''64:ff9b::'', 96), (''64:ff9b:1::'', 48), (''100::'', 64), (''2001::'', 23),
      (''2001:db8::'', 32), (''2002::'', 16), (''fc00::'', 7), (''fe80::'', 10), (''ff00::'', 8)]"

definition isIpv6InRange :: "int \<Rightarrow> string \<Rightarrow> nat \<Rightarrow> bool" where
  "isIpv6InRange v network bits =
     (case ipv6ToBigInt network of
        None \<Rightarrow> True
      | Some base \<Rightarrow> v div 2 ^ (128 - bits) = base div 2 ^ (128 - bits))"

definition isGloballyRoutableIpv6 :: "string \<Rightarrow> bool" where
  "isGloballyRoutableIpv6 address =
     (case ipv6ToBigInt address of
        None \<Rightarrow> False
      | Some v \<Rightarrow>
          if v div 2 ^ 32 = 65535 then isGloballyRoutableIpv4 (bigIntToIpv4 (v mod 2 ^ 32))
          else \<not> list_ex (\<lambda>(network, bits). isIpv6InRange v network bits) specialUseRanges)"

definition isGloballyRoutableIpAddress :: "string \<Rightarrow> bool" where
  "isGloballyRoutableIpAddress address =
     (if net_isIP address = 4 then isGloballyRoutableIpv4 address
      else if net_isIP address = 6 then isGloballyRoutableIpv6 address
      else False)"

section \<open>Splitting what was joined\<close>

lemma split_on_nonempty [simp]: "split_on d s \<noteq> []"
  by (cases s) (auto simp: prepend_def split: list.split)

lemma split_on_plain: "d \<notin> set s \<Longrightarrow> split_on d s = [s]"
  by (induction s) (auto simp: prepend_def)

lemma split_on_word: "d \<notin> set w \<Longrightarrow> split_on d (w @ d # r) = w # split_on d r"
  by (induction w) (auto simp: prepend_def)

lemma split_join:
  "ws \<noteq> [] \<Longrightarrow> \<forall>w\<in>set ws. d \<notin> set w \<Longrightarrow> split_on d (join_with [d] ws) = ws"
  by (induction "[d]" ws rule: join_with.induct) (simp_all add: split_on_plain split_on_word)

lemma join_chars: "c \<in> set (join_with d ws) \<Longrightarrow> c \<in> set d \<or> (\<exists>w\<in>set ws. c \<in> set w)"
  by (induction d ws rule: join_with.induct) auto

text \<open>Text in front of the first piece of a split.\<close>

definition glue :: "string \<Rightarrow> string list \<Rightarrow> string list" where
  "glue w ws = (case ws of [] \<Rightarrow> [w] | v # r \<Rightarrow> (w @ v) # r)"

lemma split_colons_nonempty [simp]: "split_colons s \<noteq> []"
  by (cases s rule: split_colons.cases) (auto simp: prepend_def split: list.split)

lemma prepend_glue: "prepend c ws = glue [c] ws"
  by (simp add: prepend_def glue_def split: list.split)

lemma glue_glue: "ws \<noteq> [] \<Longrightarrow> glue u (glue w ws) = glue (u @ w) ws"
  by (cases ws) (simp_all add: glue_def)

lemma glue_Nil [simp]: "ws \<noteq> [] \<Longrightarrow> glue [] ws = ws"
  by (cases ws) (simp_all add: glue_def)

lemma split_colons_char: "c \<noteq> CHR '':'' \<Longrightarrow> split_colons (c # s) = glue [c] (split_colons s)"
  by (cases s) (simp_all add: prepend_glue glue_def)

lemma split_colons_single: "c \<noteq> CHR '':'' \<Longrightarrow> split_colons (CHR '':'' # c # s) = glue '':'' (split_colons (c # s))"
  by (simp add: prepend_glue)

lemma split_colons_word: "CHR '':'' \<notin> set w \<Longrightarrow> split_colons (w @ r) = glue w (split_colons r)"
proof (induction w)
  case (Cons a w)
  then have "a \<noteq> CHR '':''" by auto
  with Cons show ?case by (simp add: split_colons_char glue_glue)
qed simp

lemma join_head: "w \<noteq> [] \<Longrightarrow> join_with d (w # ws) = hd w # tl (join_with d (w # ws))"
  by (cases ws) auto

lemma split_colons_join:
  assumes "\<forall>w\<in>set ws. w \<noteq> [] \<and> CHR '':'' \<notin> set w"
  shows "split_colons (join_with '':'' ws @ r) = glue (join_with '':'' ws) (split_colons r)"
  using assms
proof (induction "'':''" ws rule: join_with.induct)
  case (3 w v vs)
  obtain c s where v: "join_with '':'' (v # vs) = c # s" "c \<noteq> CHR '':''"
    using join_head [of v "'':''" vs] 3(2) by (metis hd_in_set list.set_intros(1,2))
  have "split_colons (CHR '':'' # join_with '':'' (v # vs) @ r) = glue '':'' (split_colons (join_with '':'' (v # vs) @ r))"
    using v by (simp add: prepend_glue)
  then show ?case
    using 3 by (simp add: split_colons_word glue_glue)
qed (simp_all add: split_colons_word)

lemma split_forms:
  assumes "\<forall>w\<in>set ws. w \<noteq> [] \<and> CHR '':'' \<notin> set w"
  shows "split_colons (join_with '':'' ws) = [join_with '':'' ws]"
    and "split_colons (join_with '':'' ws @ ''::'' @ r) = join_with '':'' ws # split_colons r"
  using split_colons_join [OF assms, of "[]"] split_colons_join [OF assms, of "''::'' @ r"]
  by (simp_all add: glue_def)

section \<open>Digits\<close>

lemma hex_char_value: "d < 16 \<Longrightarrow> digit_value (hex_char d) = Some d"
  by (auto simp: hex_char_def digit_value_def Let_def)

definition lower_hex :: "char \<Rightarrow> bool" where
  "lower_hex c \<longleftrightarrow> (let n = (of_char c :: nat) in (48 \<le> n \<and> n \<le> 57) \<or> (97 \<le> n \<and> n \<le> 102))"

lemma hex_char_lower: "d < 16 \<Longrightarrow> lower_hex (hex_char d)"
  by (auto simp: hex_char_def lower_hex_def Let_def)

lemma lower_hex_char:
  "lower_hex c \<Longrightarrow> c \<noteq> CHR '':'' \<and> c \<noteq> CHR ''.'' \<and> c \<noteq> CHR ''%'' \<and> lower_char c = c \<and> is_hex c"
  by (auto simp: lower_hex_def lower_char_def is_hex_def digit_value_def Let_def)

lemma hex_digits_lower: "c \<in> set (hex_digits n) \<Longrightarrow> lower_hex c"
proof (induction n rule: hex_digits.induct)
  case (1 n)
  then show ?case by (subst (asm) (2) hex_digits.simps) (auto split: if_splits simp: hex_char_lower)
qed

lemma hex_digits_nonempty [simp]: "hex_digits n \<noteq> []"
  by (subst hex_digits.simps) simp

lemma hex_value_append: "hex_value (s @ r) = hex_value s * 16 ^ length r + hex_value r"
proof -
  define step where "step = (\<lambda>a c. 16 * a + (case digit_value c of Some d \<Rightarrow> int d | None \<Rightarrow> 0))"
  have "foldl step x r = x * 16 ^ length r + foldl step 0 r" for x
  proof (induction r arbitrary: x)
    case (Cons c r)
    have step: "step x c = 16 * x + step 0 c" by (simp add: step_def)
    have "foldl step x (c # r) = step x c * 16 ^ length r + foldl step 0 r" by (simp only: foldl.simps Cons [of "step x c"])
    moreover have "foldl step 0 (c # r) = step 0 c * 16 ^ length r + foldl step 0 r" by (simp only: foldl.simps Cons [of "step 0 c"])
    moreover have "(16 * x + d) * q + f = x * (16 * q) + (d * q + f)" for d q f :: int by algebra
    ultimately show ?case unfolding step by (simp only: length_Cons power_Suc)
  qed simp
  from this [of "foldl step 0 s"] show ?thesis
    unfolding hex_value_def step_def [symmetric] by (simp only: foldl_append)
qed

lemma hex_value_one: "d < 16 \<Longrightarrow> hex_value [hex_char d] = int d"
  by (simp add: hex_value_def hex_char_value)

lemma hex_value_digits: "hex_value (hex_digits n) = int n"
proof (induction n rule: hex_digits.induct)
  case (1 n)
  show ?case
  proof (cases "n < 16")
    case True
    then show ?thesis by (subst hex_digits.simps) (simp add: hex_value_one)
  next
    case False
    then have "hex_value (hex_digits n) = int (n div 16) * 16 + int (n mod 16)"
      using 1 by (subst hex_digits.simps) (simp add: hex_value_append hex_value_one)
    then show ?thesis by (simp add: zdiv_int zmod_int)
  qed
qed

lemma hex_digits_length: "n < 16 ^ Suc k \<Longrightarrow> length (hex_digits n) \<le> Suc k"
proof (induction k arbitrary: n)
  case 0
  then show ?case by (subst hex_digits.simps) simp
next
  case (Suc k)
  then show ?case
    by (subst hex_digits.simps) (auto simp: less_mult_imp_div_less)
qed

lemma pad_length: "length s \<le> n \<Longrightarrow> length (pad n s) = n"
  by (simp add: pad_def)

lemma hex_value_pad: "hex_value (pad n s) = hex_value s"
proof -
  have "hex_value (replicate k (CHR ''0'')) = 0" for k
    by (induction k) (simp_all add: hex_value_def digit_value_def)
  then show ?thesis by (simp add: pad_def hex_value_append)
qed

text \<open>The value of a list of groups, most significant first.\<close>

definition groups_value :: "int list \<Rightarrow> int" where
  "groups_value gs = foldl (\<lambda>a g. 65536 * a + g) 0 gs"

definition group_text :: "int \<Rightarrow> string" where
  "group_text g = hex_digits (nat g)"

definition group_ok :: "int \<Rightarrow> bool" where "group_ok g \<longleftrightarrow> 0 \<le> g \<and> g < 65536"

lemma groups_value_snoc: "groups_value (gs @ [g]) = 65536 * groups_value gs + g"
  by (simp add: groups_value_def)

lemma group_length: "group_ok g \<Longrightarrow> length (group_text g) \<le> 4"
  using hex_digits_length [of "nat g" 3] by (auto simp: group_ok_def group_text_def)

lemma groups_read: "\<forall>g\<in>set gs. group_ok g \<Longrightarrow> hex_value (concat (map (pad 4) (map group_text gs))) = groups_value gs"
proof (induction gs rule: rev_induct)
  case (snoc g gs)
  then have "length (pad 4 (group_text g)) = 4" using group_length pad_length by simp
  moreover have "hex_value (group_text g) = g" using snoc(2) by (simp add: group_text_def hex_value_digits group_ok_def)
  ultimately show ?case using snoc by (simp add: hex_value_append hex_value_pad groups_value_snoc)
qed (simp add: hex_value_def groups_value_def)

lemma group_text_lower: "group_ok g \<Longrightarrow> lower_hextet (group_text g)"
  using group_length hex_digits_lower
  by (auto simp: lower_hextet_def group_text_def list_all_iff lower_hex_def)

section \<open>Dotted quads\<close>

lemma v4_segment_String: "0 \<le> n \<Longrightarrow> n \<le> 255 \<Longrightarrow> v4_segment (js_String n)"
proof -
  assume n: "0 \<le> n" "n \<le> 255"
  have digits: "nat_digits m = (if m < 10 then [char_of (m + 48)] else if m < 100
      then [char_of (m div 10 + 48), char_of (m mod 10 + 48)]
      else [char_of (m div 100 + 48), char_of (m div 10 mod 10 + 48), char_of (m mod 10 + 48)])" if "m < 256" for m
  proof -
    have "m div 10 < 100" "m div 100 < 10" using that by auto
    then show ?thesis
      using that nat_digits.simps [of m] nat_digits.simps [of "m div 10"] nat_digits.simps [of "m div 100"]
      by (auto simp: div_mult2_eq [of m 10 10, simplified])
  qed
  have zero: "char_of (k + 48) \<noteq> CHR ''0''" if "0 < k" "k < 10" for k :: nat
  proof
    assume "char_of (k + 48) = CHR ''0''"
    then have "of_char (char_of (k + 48 :: nat) :: char) = (48 :: nat)" by simp
    then show False using that by simp
  qed
  have "0 < nat n div 10" if "10 \<le> nat n" using that by (simp add: div_greater_zero_iff)
  moreover have "0 < nat n div 100" if "100 \<le> nat n" using that by (simp add: div_greater_zero_iff)
  moreover have "nat n div 10 < 10" if "nat n < 100" using that by auto
  moreover have "nat n div 100 < 10" "nat n < 256" using n by auto
  ultimately show ?thesis
    using n digits [of "nat n"] digits_value_nat [of "nat n"] nat_digits_digit [of _ "nat n"] nat_digits_nonempty [of "nat n"]
      zero [of "nat n div 10"] zero [of "nat n div 100"]
    by (auto simp: v4_segment_def js_String_def list_all_iff)
qed

lemma String_chars: "0 \<le> n \<Longrightarrow> c \<in> set (js_String n) \<Longrightarrow> is_digit c"
  using nat_digits_digit by (simp add: js_String_def)

lemma digit_lower: "is_digit c \<Longrightarrow> lower_hex c"
  by (simp add: is_digit_def lower_hex_def Let_def)

definition quad_octets :: "int \<Rightarrow> int list" where
  "quad_octets v = map (\<lambda>k. v div 2 ^ k mod 256) [24, 16, 8, 0]"

lemma quad_octets_range: "n \<in> set (quad_octets v) \<Longrightarrow> 0 \<le> n \<and> n \<le> 255"
  using pos_mod_bound [of 256] by (auto simp: quad_octets_def zle_diff1_eq [symmetric])

lemma quad_split: "split_on (CHR ''.'') (bigIntToIpv4 v) = map js_String (quad_octets v)"
proof -
  have "\<forall>w\<in>set (map js_String (quad_octets v)). CHR ''.'' \<notin> set w"
  proof -
    have "CHR ''.'' \<notin> set (js_String n)" if "n \<in> set (quad_octets v)" for n
    proof
      assume "CHR ''.'' \<in> set (js_String n)"
      with quad_octets_range [OF that] String_chars [of n "CHR ''.''"] have "is_digit (CHR ''.'')" by blast
      then show False by (simp add: is_digit_def)
    qed
    then show ?thesis by auto
  qed
  moreover have "map js_String (quad_octets v) \<noteq> []" by (simp add: quad_octets_def)
  moreover have "bigIntToIpv4 v = join_with ''.'' (map js_String (quad_octets v))"
    by (simp add: bigIntToIpv4_def quad_octets_def)
  ultimately show ?thesis using split_join by metis
qed

lemma quad_isIPv4: "isIPv4 (bigIntToIpv4 v)"
proof -
  have "list_all v4_segment (map js_String (quad_octets v))"
    using quad_octets_range [of _ v] v4_segment_String by (simp add: list_all_iff)
  moreover have "length (map js_String (quad_octets v)) = 4" by (simp add: quad_octets_def)
  ultimately show ?thesis unfolding isIPv4_def quad_split Let_def by blast
qed

lemma octet_String: "0 \<le> n \<Longrightarrow> n \<le> 255 \<Longrightarrow> octet (js_Number (Some (js_String n))) = Some (nat n)"
  by (simp add: Number_String octet_def)

lemma quad_read: "map octet (quad_values (bigIntToIpv4 v)) = map (Some \<circ> nat) (quad_octets v)"
proof -
  have "octet (js_Number (Some (js_String n))) = Some (nat n)" if "n \<in> set (quad_octets v)" for n
    using quad_octets_range [OF that] octet_String by blast
  then show ?thesis unfolding quad_values_def quad_split by simp
qed

section \<open>Which IPv4 addresses are public\<close>

text \<open>
  The reference: address blocks as intervals. The first list is what the code refuses; the second
  is IANA's registry of special-purpose blocks, with multicast.
\<close>

definition in_block :: "nat \<Rightarrow> int \<Rightarrow> int \<times> nat \<Rightarrow> bool" where
  "in_block bits v b = (case b of (base, len) \<Rightarrow> base \<le> v \<and> v < base + 2 ^ (bits - len))"

definition quad :: "int \<Rightarrow> int \<Rightarrow> int \<Rightarrow> int \<Rightarrow> int" where
  "quad a b c d = ((a * 256 + b) * 256 + c) * 256 + d"

definition refused_v4 :: "(int \<times> nat) list" where
  "refused_v4 = [(quad 0 0 0 0, 8), (quad 10 0 0 0, 8), (quad 100 64 0 0, 10), (quad 127 0 0 0, 8), (quad 169 254 0 0, 16),
     (quad 172 16 0 0, 12), (quad 192 0 0 0, 16), (quad 192 2 0 0, 16), (quad 192 88 0 0, 16), (quad 192 168 0 0, 16),
     (quad 198 18 0 0, 15), (quad 198 51 0 0, 16), (quad 203 0 113 0, 24), (quad 224 0 0 0, 3)]"

definition iana_v4 :: "(int \<times> nat) list" where
  "iana_v4 = [(quad 0 0 0 0, 8), (quad 10 0 0 0, 8), (quad 100 64 0 0, 10), (quad 127 0 0 0, 8), (quad 169 254 0 0, 16),
     (quad 172 16 0 0, 12), (quad 192 0 0 0, 24), (quad 192 0 2 0, 24), (quad 192 88 99 0, 24), (quad 192 168 0 0, 16),
     (quad 198 18 0 0, 15), (quad 198 51 100 0, 24), (quad 203 0 113 0, 24), (quad 224 0 0 0, 4), (quad 240 0 0 0, 4),
     (quad 255 255 255 255, 32)]"

lemma quad_address: "isGloballyRoutableIpAddress (bigIntToIpv4 v) = isGloballyRoutableIpv4 (bigIntToIpv4 v)"
  using quad_isIPv4 by (simp add: isGloballyRoutableIpAddress_def net_isIP_def)

text \<open>An aligned block is a condition on the leading octets.\<close>

lemma block_lead:
  fixes x r K A m :: int
  assumes "0 \<le> r" and "r < K"
  shows "A * K \<le> x * K + r \<and> x * K + r < A * K + m * K \<longleftrightarrow> A \<le> x \<and> x < A + m"
proof -
  have K: "0 \<le> K" using assms by linarith
  have lead: "B * K \<le> x * K + r \<longleftrightarrow> B \<le> x" for B
  proof (cases "B \<le> x")
    case True
    then show ?thesis using mult_right_mono [OF True K] assms(1) by simp
  next
    case False
    then have "(x + 1) * K \<le> B * K" using K by (intro mult_right_mono) simp_all
    with False show ?thesis using assms(2) by (simp add: distrib_right)
  qed
  show ?thesis using lead [of A] lead [of "A + m"] by (auto simp: distrib_right)
qed

lemma second_lead:
  fixes x y a b m :: int
  assumes "0 \<le> b" "b < 256" "0 \<le> y" "y + m \<le> 256"
  shows "x * 256 + y \<le> a * 256 + b \<and> a * 256 + b < x * 256 + y + m \<longleftrightarrow> a = x \<and> y \<le> b \<and> b < y + m"
  using block_lead [OF assms(1,2), of x a 1] assms(3,4) by auto

lemma special_octets_blocks:
  assumes "0 \<le> v" and "v < 2 ^ 32"
  shows "special_octets (nat (v div 2 ^ 24 mod 256)) (nat (v div 2 ^ 16 mod 256)) (nat (v div 2 ^ 8 mod 256)) \<longleftrightarrow>
    list_ex (in_block 32 v) refused_v4"
proof -
  define a b c d where abcd: "a = v div 2 ^ 24 mod 256" "b = v div 2 ^ 16 mod 256" "c = v div 2 ^ 8 mod 256" "d = v mod 256"
  have range: "0 \<le> a" "a < 256" "0 \<le> b" "b < 256" "0 \<le> c" "c < 256" "0 \<le> d" "d < 256"
    by (simp_all add: abcd)
  have v3: "v = (v div 256) * 256 + d" by (simp add: abcd(4))
  have v2: "v div 256 = (v div 256 div 256) * 256 + c" by (simp add: abcd(3))
  have v1: "v div 256 div 256 = (v div 256 div 256 div 256) * 256 + b"
  proof -
    have "b = v div 256 div 256 mod 256" by (simp add: abcd(2) zdiv_zmult2_eq [symmetric])
    then show ?thesis by (simp only: div_mult_mod_eq)
  qed
  have v0: "v div 256 div 256 div 256 = a" using assms by (simp add: abcd(1) zdiv_zmult2_eq [symmetric])
  have eq: "v = ((a * 256 + b) * 256 + c) * 256 + d" using v0 v1 v2 v3 by simp
  have one: "in_block 32 v (x * 16777216, 8 - k) \<longleftrightarrow> x \<le> a \<and> a < x + 2 ^ k" if "k \<le> 8" for x k
  proof -
    have "32 - (8 - k) = k + 24" using that by simp
    then have "(2 :: int) ^ (32 - (8 - k)) = 2 ^ k * 16777216" by (simp only: power_add) simp
    moreover have "v = a * 16777216 + ((b * 256 + c) * 256 + d)" using eq by simp
    ultimately show ?thesis
      using block_lead [of "(b * 256 + c) * 256 + d" 16777216 x a "2 ^ k"] range
      unfolding in_block_def prod.case by (simp only:) simp
  qed
  have two: "in_block 32 v (x * 65536, 16 - k) \<longleftrightarrow> x \<le> a * 256 + b \<and> a * 256 + b < x + 2 ^ k" if "k \<le> 16" for x k
  proof -
    have "32 - (16 - k) = k + 16" using that by simp
    then have "(2 :: int) ^ (32 - (16 - k)) = 2 ^ k * 65536" by (simp only: power_add) simp
    moreover have "v = (a * 256 + b) * 65536 + (c * 256 + d)" using eq by simp
    ultimately show ?thesis
      using block_lead [of "c * 256 + d" 65536 x "a * 256 + b" "2 ^ k"] range
      unfolding in_block_def prod.case by (simp only:)
  qed
  have three: "in_block 32 v (x * 256, 24) \<longleftrightarrow> x = (a * 256 + b) * 256 + c" for x
    using block_lead [of d 256 x "(a * 256 + b) * 256 + c" 1] range unfolding in_block_def prod.case eq by auto
  have blocks: "list_ex (in_block 32 v) refused_v4 \<longleftrightarrow> a = 0 \<or> a = 10 \<or> a = 127 \<or> 224 \<le> a \<or>
     a = 100 \<and> 64 \<le> b \<and> b \<le> 127 \<or> a = 169 \<and> b = 254 \<or> a = 172 \<and> 16 \<le> b \<and> b \<le> 31 \<or>
     a = 192 \<and> (b = 0 \<or> b = 2 \<or> b = 88 \<or> b = 168) \<or> a = 198 \<and> (b = 18 \<or> b = 19 \<or> b = 51) \<or> a = 203 \<and> b = 0 \<and> c = 113"
  proof -
    have q1: "quad x 0 0 0 = x * 16777216" and q2: "quad x y 0 0 = (x * 256 + y) * 65536"
      and q3: "quad x y z 0 = ((x * 256 + y) * 256 + z) * 256" for x y z
      by (simp_all add: quad_def)
    have b8: "in_block 32 v (quad x 0 0 0, 8) \<longleftrightarrow> a = x" for x
      using one [of 0 x] unfolding q1 by auto
    have b3: "in_block 32 v (quad 224 0 0 0, 3) \<longleftrightarrow> 224 \<le> a"
      using one [of 5 224] range unfolding q1 by simp
    have wide: "in_block 32 v (quad x y 0 0, 16 - k) \<longleftrightarrow> a = x \<and> y \<le> b \<and> b < y + 2 ^ k"
      if "0 \<le> y" "y + 2 ^ k \<le> 256" "k \<le> 16" for x y k
      using two [OF that(3), of "x * 256 + y"] second_lead [OF range(3,4) that(1,2), of x a] unfolding q2 by simp
    have b16: "in_block 32 v (quad x y 0 0, 16) \<longleftrightarrow> a = x \<and> b = y" if "0 \<le> y" "y < 256" for x y
      using wide [of y 0 x] that by auto
    have b10: "in_block 32 v (quad 100 64 0 0, 10) \<longleftrightarrow> a = 100 \<and> 64 \<le> b \<and> b \<le> 127"
      using wide [of 64 6 100] by auto
    have b12: "in_block 32 v (quad 172 16 0 0, 12) \<longleftrightarrow> a = 172 \<and> 16 \<le> b \<and> b \<le> 31"
      using wide [of 16 4 172] by auto
    have b15: "in_block 32 v (quad 198 18 0 0, 15) \<longleftrightarrow> a = 198 \<and> (b = 18 \<or> b = 19)"
      using wide [of 18 1 198] by auto
    have b24: "in_block 32 v (quad 203 0 113 0, 24) \<longleftrightarrow> a = 203 \<and> b = 0 \<and> c = 113"
      using three [of "(203 * 256 + 0) * 256 + 113"] second_lead [OF range(5,6), of 113 1 "203 * 256 + 0" "a * 256 + b"]
        second_lead [OF range(3,4), of 0 1 203 a] unfolding q3 by auto
    have b16s: "in_block 32 v (quad 169 254 0 0, 16) \<longleftrightarrow> a = 169 \<and> b = 254"
      "in_block 32 v (quad 192 0 0 0, 16) \<longleftrightarrow> a = 192 \<and> b = 0" "in_block 32 v (quad 192 2 0 0, 16) \<longleftrightarrow> a = 192 \<and> b = 2"
      "in_block 32 v (quad 192 88 0 0, 16) \<longleftrightarrow> a = 192 \<and> b = 88" "in_block 32 v (quad 192 168 0 0, 16) \<longleftrightarrow> a = 192 \<and> b = 168"
      "in_block 32 v (quad 198 51 0 0, 16) \<longleftrightarrow> a = 198 \<and> b = 51"
      by (simp_all add: b16)
    show ?thesis
      unfolding refused_v4_def list_ex_Cons_iff list_ex_Nil_iff b3 b8 b10 b12 b15 b24 b16s by argo
  qed
  have "special_octets (nat a) (nat b) (nat c) \<longleftrightarrow> list_ex (in_block 32 v) refused_v4"
    unfolding blocks special_octets_def using range by (simp add: nat_eq_iff nat_le_iff le_nat_iff)
  then show ?thesis by (simp only: abcd)
qed

lemma v4_guard:
  assumes "0 \<le> v" and "v < 2 ^ 32"
  shows "isGloballyRoutableIpv4 (bigIntToIpv4 v) \<longleftrightarrow> \<not> list_ex (in_block 32 v) refused_v4"
proof -
  have "map octet (quad_values (bigIntToIpv4 v)) =
      [Some (nat (v div 2 ^ 24 mod 256)), Some (nat (v div 2 ^ 16 mod 256)), Some (nat (v div 2 ^ 8 mod 256)), Some (nat (v mod 256))]"
    unfolding quad_read by (simp add: quad_octets_def)
  then show ?thesis
    unfolding isGloballyRoutableIpv4_def special_octets_blocks [OF assms, symmetric] by simp
qed

definition sub_block :: "nat \<Rightarrow> int \<times> nat \<Rightarrow> int \<times> nat \<Rightarrow> bool" where
  "sub_block bits b c \<longleftrightarrow> fst c \<le> fst b \<and> fst b + 2 ^ (bits - snd b) \<le> fst c + 2 ^ (bits - snd c)"

lemma iana_refused:
  assumes "list_ex (in_block 32 v) iana_v4"
  shows "list_ex (in_block 32 v) refused_v4"
proof -
  obtain b where b: "b \<in> set iana_v4" "in_block 32 v b" using assms by (auto simp: list_ex_iff)
  have "list_all (\<lambda>b. list_ex (sub_block 32 b) refused_v4) iana_v4" by code_simp
  then obtain c where "c \<in> set refused_v4" "sub_block 32 b c" using b(1) by (auto simp: list_all_iff list_ex_iff)
  then have "in_block 32 v c" using b(2) by (auto simp: in_block_def sub_block_def case_prod_beta)
  with \<open>c \<in> set refused_v4\<close> show ?thesis by (auto simp: list_ex_iff)
qed

section \<open>Textual IPv6 addresses\<close>

datatype v6_part = Hextet "16 word" | Quad "32 word"
datatype v6_form = Full "v6_part list" | Compressed "v6_part list" "v6_part list"

fun part_text :: "v6_part \<Rightarrow> string" where
  "part_text (Hextet g) = group_text (uint g)"
| "part_text (Quad q) = bigIntToIpv4 (uint q)"

fun part_groups :: "v6_part \<Rightarrow> int list" where
  "part_groups (Hextet g) = [uint g]"
| "part_groups (Quad q) = [uint q div 65536, uint q mod 65536]"

definition groups :: "v6_part list \<Rightarrow> int list" where
  "groups ps = concat (map part_groups ps)"

definition side_text :: "v6_part list \<Rightarrow> string" where
  "side_text ps = join_with '':'' (map part_text ps)"

fun form_text :: "v6_form \<Rightarrow> string" where
  "form_text (Full ps) = side_text ps"
| "form_text (Compressed h t) = side_text h @ ''::'' @ side_text t"

fun form_value :: "v6_form \<Rightarrow> int" where
  "form_value (Full ps) = groups_value (groups ps)"
| "form_value (Compressed h t) =
     groups_value (groups h @ replicate (8 - length (groups h) - length (groups t)) 0 @ groups t)"

fun is_quad :: "v6_part \<Rightarrow> bool" where
  "is_quad (Hextet g) = False"
| "is_quad (Quad q) = True"

text \<open>The forms of RFC 4291: a dotted quad only at the end, and an omission of one group or more.\<close>

fun form_ok :: "v6_form \<Rightarrow> bool" where
  "form_ok (Full ps) \<longleftrightarrow> length (groups ps) = 8 \<and> list_all (\<lambda>p. \<not> is_quad p) (butlast ps)"
| "form_ok (Compressed h t) \<longleftrightarrow> length (groups h) + length (groups t) \<le> 7 \<and>
     list_all (\<lambda>p. \<not> is_quad p) h \<and> list_all (\<lambda>p. \<not> is_quad p) (butlast t)"

lemma uint16: "group_ok (uint (g :: 16 word))"
  using unsigned_greater_eq [of g, where ?'a = int] unsigned_less [of g, where ?'a = int] by (simp add: group_ok_def)

lemma group_text_chars: "c \<in> set (group_text g) \<Longrightarrow> lower_hex c"
  using hex_digits_lower by (simp add: group_text_def)

lemma quad_text_chars: "c \<in> set (bigIntToIpv4 v) \<Longrightarrow> lower_hex c \<or> c = CHR ''.''"
proof -
  assume c: "c \<in> set (bigIntToIpv4 v)"
  have "bigIntToIpv4 v = join_with ''.'' (map js_String (quad_octets v))"
    by (simp add: bigIntToIpv4_def quad_octets_def)
  with c obtain n where "c = CHR ''.'' \<or> n \<in> set (quad_octets v) \<and> c \<in> set (js_String n)"
    using join_chars by fastforce
  then show ?thesis using quad_octets_range String_chars digit_lower by blast
qed

lemma part_chars: "c \<in> set (part_text p) \<Longrightarrow> lower_hex c \<or> c = CHR ''.''"
  using group_text_chars quad_text_chars by (cases p) auto

lemma quad_dot: "CHR ''.'' \<in> set (bigIntToIpv4 v)"
  by (simp add: bigIntToIpv4_def)

lemma part_nonempty: "part_text p \<noteq> []"
proof (cases p)
  case (Quad q)
  then show ?thesis using quad_dot [of "uint q"] by force
qed (simp add: group_text_def)

lemma part_no_colon: "CHR '':'' \<notin> set (part_text p)"
  using part_chars [of "CHR '':''" p] lower_hex_char by auto

lemma quad_halves:
  fixes v :: int
  assumes "0 \<le> v" "v < 2 ^ 32"
  shows "v div 2 ^ 24 mod 256 * 256 + v div 2 ^ 16 mod 256 = v div 65536"
    and "v div 2 ^ 8 mod 256 * 256 + v mod 256 = v mod 65536"
proof -
  have "v div 65536 = v div 65536 div 256 * 256 + v div 65536 mod 256" by (simp only: div_mult_mod_eq)
  moreover have "v div 65536 div 256 = v div 2 ^ 24 mod 256" using assms by (simp add: zdiv_zmult2_eq [symmetric])
  ultimately show "v div 2 ^ 24 mod 256 * 256 + v div 2 ^ 16 mod 256 = v div 65536" by simp
  show "v div 2 ^ 8 mod 256 * 256 + v mod 256 = v mod 65536"
    using zmod_zmult2_eq [of 256 v 256] by simp
qed

lemma expand_quad:
  "CHR ''.'' \<in> set s \<Longrightarrow> net_isIP s = 4 \<Longrightarrow> map octet (quad_values s) = [Some a, Some b, Some c, Some d] \<Longrightarrow>
   expandIpv4Hextet s = [hex_digits (a * 256 + b), hex_digits (c * 256 + d)]"
  by (simp add: expandIpv4Hextet_def)

lemma expand_part: "expandIpv4Hextet (part_text p) = map group_text (part_groups p)"
proof (cases p)
  case (Hextet g)
  then have "CHR ''.'' \<notin> set (part_text p)" using group_text_chars [of "CHR ''.''" "uint g"] lower_hex_char by auto
  with Hextet show ?thesis by (simp add: expandIpv4Hextet_def)
next
  case (Quad q)
  define v where "v = uint q"
  have v: "0 \<le> v" "v < 2 ^ 32" 
    using unsigned_greater_eq [of q, where ?'a = int] unsigned_less [of q, where ?'a = int] by (simp_all add: v_def)
  have four: "map octet (quad_values (bigIntToIpv4 v)) =
      [Some (nat (v div 2 ^ 24 mod 256)), Some (nat (v div 2 ^ 16 mod 256)), Some (nat (v div 2 ^ 8 mod 256)), Some (nat (v mod 256))]"
    unfolding quad_read by (simp add: quad_octets_def)
  have isip: "net_isIP (bigIntToIpv4 v) = 4" using quad_isIPv4 by (simp add: net_isIP_def)
  have sum: "nat x * 256 + nat y = nat (x * 256 + y)" if "0 \<le> x" "0 \<le> y" for x y :: int
    using that by (simp add: nat_add_distrib nat_mult_distrib)
  have "nat (v div 2 ^ 24 mod 256) * 256 + nat (v div 2 ^ 16 mod 256) = nat (v div 65536)"
    unfolding quad_halves(1) [OF v, symmetric] by (rule sum) simp_all
  moreover have "nat (v div 2 ^ 8 mod 256) * 256 + nat (v mod 256) = nat (v mod 65536)"
    unfolding quad_halves(2) [OF v, symmetric] by (rule sum) simp_all
  ultimately have "expandIpv4Hextet (bigIntToIpv4 v) = [group_text (v div 65536), group_text (v mod 65536)]"
    unfolding expand_quad [OF quad_dot isip four] group_text_def by (simp only:)
  then show ?thesis using Quad by (simp add: v_def)
qed

lemma part_groups_ok: "g \<in> set (part_groups p) \<Longrightarrow> group_ok g"
proof (cases p)
  case (Quad q)
  have "0 \<le> uint q" "uint q < 2 ^ 32"
    using unsigned_greater_eq [of q, where ?'a = int] unsigned_less [of q, where ?'a = int] by simp_all
  moreover assume "g \<in> set (part_groups p)"
  ultimately show ?thesis using Quad by (auto simp: group_ok_def pos_imp_zdiv_nonneg_iff)
qed (auto simp: uint16)

lemma groups_ok: "g \<in> set (groups ps) \<Longrightarrow> group_ok g"
  using part_groups_ok by (auto simp: groups_def)

lemma side_split: "ps \<noteq> [] \<Longrightarrow> split_on (CHR '':'') (side_text ps) = map part_text ps"
  unfolding side_text_def using part_no_colon by (intro split_join) auto

lemma side_empty: "side_text ps = [] \<longleftrightarrow> ps = []"
proof (cases ps)
  case (Cons p ps')
  have "join_with '':'' (part_text p # map part_text ps') \<noteq> []"
    by (subst join_head [OF part_nonempty]) simp
  with Cons show ?thesis by (simp add: side_text_def)
qed (simp add: side_text_def)

lemma expand_side_text: "expand_side (side_text ps) = map group_text (groups ps)"
proof (cases "ps = []")
  case True
  then show ?thesis by (simp add: expand_side_def side_text_def groups_def)
next
  case False
  have "filter (\<lambda>p. p \<noteq> []) (map part_text ps) = map part_text ps" using part_nonempty by (simp add: filter_id_conv)
  then show ?thesis
    using False by (simp add: expand_side_def side_empty side_split expand_part groups_def map_concat o_def)
qed

lemma side_chars: "c \<in> set (side_text ps) \<Longrightarrow> lower_hex c \<or> c = CHR ''.'' \<or> c = CHR '':''"
  unfolding side_text_def using join_chars [of c "'':''" "map part_text ps"] part_chars by auto

lemma form_chars: "c \<in> set (form_text f) \<Longrightarrow> lower_hex c \<or> c = CHR ''.'' \<or> c = CHR '':''"
  using side_chars by (cases f) auto

lemma form_plain:
  "takeWhile not_zone (form_text f) = form_text f" "dropWhile not_zone (form_text f) = []"
  "js_toLowerCase (form_text f) = form_text f"
proof -
  have "not_zone c \<and> lower_char c = c" if "c \<in> set (form_text f)" for c
    using form_chars [OF that] lower_hex_char by (auto simp: not_zone_def lower_char_def)
  then show "takeWhile not_zone (form_text f) = form_text f" "dropWhile not_zone (form_text f) = []"
    "js_toLowerCase (form_text f) = form_text f"
    by (auto simp: takeWhile_eq_all_conv dropWhile_eq_Nil_conv js_toLowerCase_def map_idI)
qed

lemma side_colons:
  "split_colons (side_text ps) = [side_text ps]" "split_colons (side_text ps @ ''::'' @ r) = side_text ps # split_colons r"
proof -
  have "\<forall>w\<in>set (map part_text ps). w \<noteq> [] \<and> CHR '':'' \<notin> set w" using part_nonempty part_no_colon by auto
  from split_forms [OF this] show "split_colons (side_text ps) = [side_text ps]"
    "split_colons (side_text ps @ ''::'' @ r) = side_text ps # split_colons r"
    unfolding side_text_def by blast+
qed

lemma form_colons:
  "split_colons (form_text f) = (case f of Full ps \<Rightarrow> [side_text ps] | Compressed h t \<Rightarrow> [side_text h, side_text t])"
  using side_colons by (cases f) simp_all

lemma zero_text: "''0'' = group_text 0"
  by code_simp

lemma hextets_read:
  assumes "parts = map group_text gs" and "length gs = 8" and "\<forall>g\<in>set gs. group_ok g"
  shows "(if length parts \<noteq> 8 \<or> \<not> list_all lower_hextet parts then None
    else Some (hex_value (concat (map (pad 4) parts)))) = Some (groups_value gs)"
  using assms groups_read [OF assms(3)] group_text_lower by (simp add: list_all_iff)

lemma read_sides:
  assumes "takeWhile not_zone (js_toLowerCase s) = raw"
  shows "split_colons raw = [a] \<Longrightarrow> ipv6ToBigInt s = (let parts = expand_side a in
      if length parts \<noteq> 8 \<or> \<not> list_all lower_hextet parts then None else Some (hex_value (concat (map (pad 4) parts))))"
    and "split_colons raw = [a, b] \<Longrightarrow> ipv6ToBigInt s = (let parts = expand_side a @
        replicate (8 - length (expand_side a) - length (expand_side b)) ''0'' @ expand_side b in
      if length parts \<noteq> 8 \<or> \<not> list_all lower_hextet parts then None else Some (hex_value (concat (map (pad 4) parts))))"
  by (simp_all add: ipv6ToBigInt_def assms Let_def)

lemma form_read:
  assumes "form_ok f"
  shows "ipv6ToBigInt (form_text f) = Some (form_value f)"
proof -
  have raw: "takeWhile not_zone (js_toLowerCase (form_text f)) = form_text f" by (simp add: form_plain)
  show ?thesis
  proof (cases f)
    case (Full ps)
    then have "split_colons (form_text f) = [side_text ps]" by (simp add: side_colons)
    moreover have "\<forall>g\<in>set (groups ps). group_ok g" using groups_ok by blast
    ultimately show ?thesis
      using assms Full unfolding read_sides(1) [OF raw \<open>split_colons (form_text f) = _\<close>] Let_def expand_side_text
      by (simp only: form_ok.simps form_value.simps hextets_read [OF refl])
  next
    case (Compressed h t)
    define k where "k = 8 - length (groups h) - length (groups t)"
    have two: "split_colons (form_text f) = [side_text h, side_text t]" using Compressed side_colons by simp
    have "\<forall>g\<in>set (groups h @ replicate k 0 @ groups t). group_ok g"
      using groups_ok by (auto simp: group_ok_def)
    moreover have "length (groups h @ replicate k 0 @ groups t) = 8" using assms Compressed by (simp add: k_def)
    moreover have "map group_text (groups h) @ replicate k ''0'' @ map group_text (groups t) =
        map group_text (groups h @ replicate k 0 @ groups t)" by (simp add: zero_text)
    moreover have "form_value f = groups_value (groups h @ replicate k 0 @ groups t)" using Compressed by (simp add: k_def)
    ultimately show ?thesis
      unfolding read_sides(2) [OF raw two] Let_def expand_side_text length_map k_def [symmetric]
      by (simp only: hextets_read)
  qed
qed

text \<open>The forms are what \<open>net.isIP\<close> accepts as version 6.\<close>

lemma hextet_segment: "v6_segment (part_text (Hextet g))"
proof -
  have "list_all is_hex (group_text (uint g))" using group_text_chars lower_hex_char by (auto simp: list_all_iff)
  then show ?thesis using group_length [OF uint16, of g] part_nonempty [of "Hextet g"] by (simp add: v6_segment_def)
qed

lemma quad_no_segment: "\<not> v6_segment (bigIntToIpv4 v)"
proof
  assume "v6_segment (bigIntToIpv4 v)"
  then have "is_hex (CHR ''.'')" using quad_dot by (auto simp: v6_segment_def list_all_iff)
  then show False by (simp add: is_hex_def digit_value_def)
qed

lemma parts_groups:
  "list_all (\<lambda>p. \<not> is_quad p) (butlast ps) \<Longrightarrow> may \<or> list_all (\<lambda>p. \<not> is_quad p) ps \<Longrightarrow>
   v6_groups may (map part_text ps) = Some (length (groups ps))"
proof (induction ps)
  case (Cons u us)
  show ?case
  proof (cases us)
    case Nil
    then show ?thesis
      using Cons.prems hextet_segment quad_no_segment quad_isIPv4 by (cases u) (auto simp: groups_def)
  next
    case (Cons v vs)
    then obtain g where u: "u = Hextet g" using Cons.prems by (cases u) auto
    have "v6_groups may (map part_text us) = Some (length (groups us))"
      using Cons.IH Cons.prems Cons by auto
    then show ?thesis using Cons u hextet_segment [of g] by (simp add: groups_def)
  qed
qed (simp add: groups_def)

lemma side_groups:
  assumes "list_all (\<lambda>p. \<not> is_quad p) (butlast ps)" and "may \<or> list_all (\<lambda>p. \<not> is_quad p) ps"
  shows "v6_side may (side_text ps) = Some (length (groups ps))"
proof (cases "ps = []")
  case False
  then show ?thesis using parts_groups [OF assms] by (simp add: v6_side_def side_empty side_split)
qed (simp add: v6_side_def side_text_def groups_def)

lemma list_all_butlast: "list_all P xs \<Longrightarrow> list_all P (butlast xs)"
  by (auto simp: list_all_iff dest: in_set_butlastD)

lemma form_isIPv6:
  assumes "form_ok f"
  shows "isIPv6 (form_text f)"
proof -
  have "v6_plain (form_text f)"
    using assms by (cases f) (simp_all add: v6_plain_def side_colons side_colons(2) [simplified] side_groups list_all_butlast)
  then show ?thesis by (simp add: isIPv6_def form_plain)
qed

lemma form_has_colon:
  assumes "form_ok f"
  shows "CHR '':'' \<in> set (form_text f)"
proof (cases f)
  case (Full ps)
  have "length ps \<noteq> 0" "length ps \<noteq> 1"
  proof -
    have "length (groups ps) \<le> 2 * length ps"
    proof (induction ps)
      case (Cons p ps)
      then show ?case by (cases p) (simp_all add: groups_def)
    qed (simp add: groups_def)
    then show "length ps \<noteq> 0" "length ps \<noteq> 1" using assms Full by auto
  qed
  then obtain p q r where "ps = p # q # r" by (metis One_nat_def length_0_conv length_Suc_conv list.exhaust)
  with Full show ?thesis by (simp add: side_text_def)
qed simp

lemma form_net_isIP: "form_ok f \<Longrightarrow> net_isIP (form_text f) = 6"
proof -
  assume ok: "form_ok f"
  have "\<not> isIPv4 (form_text f)"
  proof
    assume v4: "isIPv4 (form_text f)"
    have inj: "c \<in> set s \<Longrightarrow> c = d \<or> (\<exists>w\<in>set (split_on d s). c \<in> set w)" for c d s
      by (induction s) (auto simp: prepend_def split: list.splits)
    from inj [OF form_has_colon [OF ok], of "CHR ''.''"] v4 have "is_digit (CHR '':'')"
      by (auto simp: isIPv4_def v4_segment_def list_all_iff Let_def)
    then show False by (simp add: is_digit_def)
  qed
  then show ?thesis using form_isIPv6 [OF ok] by (simp add: net_isIP_def)
qed

section \<open>Which addresses are public\<close>

definition refused_v6 :: "(int \<times> nat) list" where
  "refused_v6 = [(0, 128), (1, 128), (0x64ff9b * 2 ^ 96, 96), (0x64ff9b0001 * 2 ^ 80, 48), (0x100 * 2 ^ 112, 64), (0x2001 * 2 ^ 112, 23),
     (0x20010db8 * 2 ^ 96, 32), (0x2002 * 2 ^ 112, 16), (0xfc00 * 2 ^ 112, 7), (0xfe80 * 2 ^ 112, 10), (0xff00 * 2 ^ 112, 8)]"

lemma range_bases:
  "map (\<lambda>(network, len). (ipv6ToBigInt network, len)) specialUseRanges = map (\<lambda>(base, len). (Some base, len)) refused_v6"
  by code_simp

lemma aligned_bases: "list_all (\<lambda>(base, len). base mod 2 ^ (128 - len) = 0) refused_v6"
  by code_simp

lemma in_range_block:
  assumes "ipv6ToBigInt network = Some base" and "base mod 2 ^ (128 - len) = 0"
  shows "isIpv6InRange v network len \<longleftrightarrow> in_block 128 v (base, len)"
proof -
  define K :: int where "K = 2 ^ (128 - len)"
  have K: "0 < K" by (simp add: K_def)
  have base: "base = base div K * K" using assms(2) div_mult_mod_eq [of base K] unfolding K_def by simp
  have v: "v = v div K * K + v mod K" by simp
  have "in_block 128 v (base, len) \<longleftrightarrow> base div K * K \<le> v div K * K + v mod K \<and> v div K * K + v mod K < base div K * K + 1 * K"
    unfolding in_block_def prod.case K_def [symmetric] using base by simp
  also have "\<dots> \<longleftrightarrow> base div K \<le> v div K \<and> v div K < base div K + 1"
    using K by (intro block_lead) simp_all
  finally show ?thesis using assms(1) by (auto simp: isIpv6InRange_def K_def)
qed

lemma ranges_blocks:
  "list_ex (\<lambda>(network, len). isIpv6InRange v network len) specialUseRanges \<longleftrightarrow> list_ex (in_block 128 v) refused_v6"
proof -
  have "list_ex (\<lambda>(network, len). isIpv6InRange v network len) rs \<longleftrightarrow> list_ex (in_block 128 v) bs"
    if "map (\<lambda>(network, len). (ipv6ToBigInt network, len)) rs = map (\<lambda>(base, len). (Some base, len)) bs"
      and "list_all (\<lambda>(base, len). base mod 2 ^ (128 - len) = 0) bs" for rs bs
    using that
  proof (induction rs arbitrary: bs)
    case (Cons r rs)
    then show ?case by (cases bs; cases r) (auto simp: in_range_block)
  qed simp
  from this [OF range_bases aligned_bases] show ?thesis .
qed

lemma groups_value_bounds: "\<forall>g\<in>set gs. group_ok g \<Longrightarrow> 0 \<le> groups_value gs \<and> groups_value gs < 65536 ^ length gs"
proof (induction gs rule: rev_induct)
  case (snoc g gs)
  then have "0 \<le> groups_value gs" "groups_value gs + 1 \<le> 65536 ^ length gs" "0 \<le> g" "g < 65536"
    by (auto simp: group_ok_def)
  then show ?case by (simp add: groups_value_snoc)
qed (simp add: groups_value_def)

lemma form_value_nonneg: "0 \<le> form_value f"
proof (cases f)
  case (Full ps)
  then show ?thesis using groups_value_bounds [of "groups ps"] groups_ok by auto
next
  case (Compressed h t)
  have "\<forall>g\<in>set (groups h @ replicate (8 - length (groups h) - length (groups t)) 0 @ groups t). group_ok g"
    using groups_ok by (auto simp: group_ok_def)
  from conjunct1 [OF groups_value_bounds [OF this]] show ?thesis using Compressed by simp
qed

text \<open>The reference: what an address, as a number, is allowed to be.\<close>

definition public_v4 :: "int \<Rightarrow> bool" where
  "public_v4 v \<longleftrightarrow> \<not> list_ex (in_block 32 v) refused_v4"

definition public_v6 :: "int \<Rightarrow> bool" where
  "public_v6 v \<longleftrightarrow> (if in_block 128 v (0xffff * 2 ^ 32, 96) then public_v4 (v mod 2 ^ 32)
     else \<not> list_ex (in_block 128 v) refused_v6)"

lemma mapped_block: "v div 2 ^ 32 = 65535 \<longleftrightarrow> in_block 128 v (0xffff * 2 ^ 32, 96)" for v :: int
proof -
  have "v = v div 2 ^ 32 * 2 ^ 32 + v mod 2 ^ 32" by simp
  then have "in_block 128 v (0xffff * 2 ^ 32, 96) \<longleftrightarrow>
      0xffff * 2 ^ 32 \<le> v div 2 ^ 32 * 2 ^ 32 + v mod 2 ^ 32 \<and> v div 2 ^ 32 * 2 ^ 32 + v mod 2 ^ 32 < 0xffff * 2 ^ 32 + 1 * 2 ^ 32"
    by (simp add: in_block_def)
  also have "\<dots> \<longleftrightarrow> 0xffff \<le> v div 2 ^ 32 \<and> v div 2 ^ 32 < 0xffff + 1" by (rule block_lead) simp_all
  finally show ?thesis by linarith
qed

lemma v6_guard:
  assumes "form_ok f"
  shows "isGloballyRoutableIpAddress (form_text f) \<longleftrightarrow> public_v6 (form_value f)"
proof -
  have "isGloballyRoutableIpAddress (form_text f) = isGloballyRoutableIpv6 (form_text f)"
    by (simp add: isGloballyRoutableIpAddress_def form_net_isIP [OF assms])
  also have "\<dots> \<longleftrightarrow> public_v6 (form_value f)"
    using v4_guard [of "form_value f mod 2 ^ 32"]
    unfolding isGloballyRoutableIpv6_def form_read [OF assms] public_v6_def public_v4_def option.case mapped_block ranges_blocks
    by simp
  finally show ?thesis .
qed

lemma v4_address:
  fixes w :: "32 word"
  shows "isGloballyRoutableIpAddress (bigIntToIpv4 (uint w)) \<longleftrightarrow> public_v4 (uint w)"
proof -
  have "0 \<le> uint w" "uint w < 2 ^ 32"
    using unsigned_greater_eq [of w, where ?'a = int] unsigned_less [of w, where ?'a = int] by simp_all
  then show ?thesis unfolding quad_address public_v4_def by (rule v4_guard)
qed


definition demo_mapped :: v6_form where
  "demo_mapped = Compressed [] [Hextet 0xffff, Quad 0x7f000001]"

lemma demo_mapped_form: "form_ok demo_mapped" "form_value demo_mapped = 0xffff7f000001"
  by code_simp+




text \<open>
  where the guard and the registry part. An address of the documentation block \<open>3fff::/20\<close>
  counts as public, one of \<open>192.2.0.0/16\<close>, which is in no special-purpose block, does not.
\<close>
theorem guard_gaps:
  "isGloballyRoutableIpAddress ''3fff::1'' \<and> \<not> isGloballyRoutableIpAddress (bigIntToIpv4 (quad 192 2 0 1)) \<and>
   \<not> list_ex (in_block 32 (quad 192 2 0 1)) iana_v4"
proof -
  have "isGloballyRoutableIpAddress ''3fff::1''" "\<not> list_ex (in_block 32 (quad 192 2 0 1)) iana_v4"
    "list_ex (in_block 32 (quad 192 2 0 1)) refused_v4"
    by code_simp+
  then show ?thesis using v4_guard [of "quad 192 2 0 1"] by (simp add: quad_address quad_def)
qed

end
