(* ===== verification/RoleIntakeUrl.thy ===== *)
theory RoleIntakeUrl
  imports IpAddress JsNumber Programs JsJson
begin

text \<open>
  Which links a role intake accepts (\<open>role-intakes/role-intake-url-policy.ts\<close>) and which of them
  stand for the public interface of a job board (\<open>role-intakes/role-intake-ats-api.ts\<close>). The URL
  class of the runtime is a parameter: \<open>url_library\<close> holds the parser, the serialisers and the
  host setter the code calls.
\<close>

section \<open>URLs\<close>

record Url =
  url_protocol :: string
  url_username :: string
  url_password :: string
  url_port :: string
  url_hostname :: string
  url_pathname :: string
  url_search :: string
  url_params :: "(string \<times> string) list"   \<comment> \<open>\<open>searchParams\<close>\<close>
  url_hash :: string

record url_library =
  parse_url :: "string \<Rightarrow> Url option"              \<comment> \<open>\<open>new URL(s)\<close>\<close>
  parse_relative :: "string \<Rightarrow> Url \<Rightarrow> Url option"   \<comment> \<open>\<open>new URL(s, base)\<close>\<close>
  href :: "Url \<Rightarrow> string"                         \<comment> \<open>\<open>toString()\<close>\<close>
  url_origin :: "Url \<Rightarrow> string"                   \<comment> \<open>\<open>origin\<close>\<close>
  query_text :: "(string \<times> string) list \<Rightarrow> string"
  set_hostname :: "Url \<Rightarrow> string \<Rightarrow> Url"

definition MAX_URL_LENGTH :: nat where "MAX_URL_LENGTH = 2048"
definition MAX_QUERY_LENGTH :: nat where "MAX_QUERY_LENGTH = 512"

datatype import_code = invalid_url | indexed_search_invalid | indexed_search_not_found | indexed_search_unavailable
  | indexed_search_unverified | no_usable_text | private_destination | redirect_limit | remote_unavailable
  | response_too_large | robots_disallowed | robots_unavailable | source_not_public | source_unsupported
  | unsupported_content

text \<open>Errors: the importer's own, with \<open>retryable\<close>, and every other one.\<close>

datatype import_error = RoleIntakeUrlImportError import_code bool | OtherFailure string

definition importError :: "import_code \<Rightarrow> import_error" where
  "importError code = RoleIntakeUrlImportError code False"

definition js_endsWith :: "string \<Rightarrow> string \<Rightarrow> bool" where
  "js_endsWith s e \<longleftrightarrow> suffix e s"

section \<open>Sources that are refused or searched\<close>

text \<open>Two or three lower-case letters.\<close>

definition short_label :: "string \<Rightarrow> bool" where
  "short_label s \<longleftrightarrow> 2 \<le> length s \<and> length s \<le> 3 \<and> list_all (\<lambda>c. let n = (of_char c :: nat) in 97 \<le> n \<and> n \<le> 122) s"

definition is_indeed :: "string \<Rightarrow> bool" where
  "is_indeed host =
     (case rev (split_on (CHR ''.'') host) of
        t # d # rest \<Rightarrow>
          short_label t \<and> (d = ''indeed'' \<or>
            (case rest of e # _ \<Rightarrow> short_label d \<and> e = ''indeed'' | [] \<Rightarrow> False))
      | _ \<Rightarrow> False)"

definition is_welcome :: "string \<Rightarrow> bool" where
  "is_welcome host =
     (case rev (split_on (CHR ''.'') host) of
        t # d # _ \<Rightarrow> t = ''com'' \<and> d = ''welcometothejungle''
      | _ \<Rightarrow> False)"

definition assertRoleIntakeSourceSupported :: "Url \<Rightarrow> import_error + unit" where
  "assertRoleIntakeSourceSupported url =
     (if is_indeed (url_hostname url) \<or> is_welcome (url_hostname url)
      then Inl (importError source_unsupported) else Inr ())"

definition indexedSearchProviders :: "string list" where
  "indexedSearchProviders = [''linkedin.com'']"

definition getRoleIntakeIndexedSearchDomain :: "Url \<Rightarrow> string option" where
  "getRoleIntakeIndexedSearchDomain url =
     find (\<lambda>domain. url_hostname url = domain \<or> js_endsWith (url_hostname url) (CHR ''.'' # domain)) indexedSearchProviders"

datatype acquisition = direct_html | indexed_search | ats_api

definition getRoleIntakeUrlAcquisitionStrategy :: "Url \<Rightarrow> acquisition" where
  "getRoleIntakeUrlAcquisitionStrategy url =
     (if getRoleIntakeIndexedSearchDomain url \<noteq> None then indexed_search else direct_html)"

section \<open>Normalisation\<close>

definition sensitiveQueryParameterNames :: "string list" where
  "sensitiveQueryParameterNames = [''access_token'', ''api_key'', ''auth'', ''authorization'', ''code'', ''key'',
     ''password'', ''secret'', ''session'', ''sig'', ''signature'', ''state'', ''token'']"

definition trackingQueryParameterNames :: "string list" where
  "trackingQueryParameterNames = [''fbclid'', ''gclid'', ''mc_cid'', ''mc_eid'']"

definition normalizedName :: "string \<Rightarrow> string" where
  "normalizedName name = js_toLowerCase (js_trim name)"

definition is_sensitive :: "string \<Rightarrow> bool" where
  "is_sensitive name \<longleftrightarrow> normalizedName name \<in> set sensitiveQueryParameterNames"

definition is_tracking :: "string \<Rightarrow> bool" where
  "is_tracking name \<longleftrightarrow> js_startsWith (normalizedName name) ''utm_'' \<or> normalizedName name \<in> set trackingQueryParameterNames"

text \<open>\<open>url.search = q\<close> for the query the parameters serialise to, and \<open>searchParams.delete(name)\<close>\<close>

definition with_params :: "url_library \<Rightarrow> (string \<times> string) list \<Rightarrow> Url \<Rightarrow> Url" where
  "with_params lib ps url = url\<lparr>url_params := ps,
     url_search := (let q = query_text lib ps in if q = [] then [] else CHR ''?'' # q)\<rparr>"

definition delete_param :: "url_library \<Rightarrow> string \<Rightarrow> Url \<Rightarrow> Url" where
  "delete_param lib name url = with_params lib (filter (\<lambda>(n, _). n \<noteq> name) (url_params url)) url"

fun cleanParams :: "url_library \<Rightarrow> string list \<Rightarrow> Url \<Rightarrow> import_error + Url" where
  "cleanParams lib [] url = Inr url"
| "cleanParams lib (name # names) url =
     (if is_sensitive name then Inl (importError invalid_url)
      else cleanParams lib names (if is_tracking name then delete_param lib name url else url))"

definition strip_brackets :: "string \<Rightarrow> string" where
  "strip_brackets s =
     (let a = (case s of c # r \<Rightarrow> if c = CHR ''['' then r else s | [] \<Rightarrow> [])
      in if a \<noteq> [] \<and> last a = CHR '']'' then butlast a else a)"

definition strip_dot :: "string \<Rightarrow> string" where
  "strip_dot s = (if s \<noteq> [] \<and> last s = CHR ''.'' then butlast s else s)"

definition normalizeRoleIntakeUrl :: "url_library \<Rightarrow> string \<Rightarrow> import_error + Url" where
  "normalizeRoleIntakeUrl lib v =
     (let candidate = js_trim v in
      if candidate = [] \<or> MAX_URL_LENGTH < length candidate then Inl (importError invalid_url)
      else case parse_url lib candidate of
        None \<Rightarrow> Inl (importError invalid_url)
      | Some url \<Rightarrow>
          if url_protocol url \<noteq> ''https:'' \<or> url_username url \<noteq> [] \<or> url_password url \<noteq> [] \<or>
             (url_port url \<noteq> [] \<and> url_port url \<noteq> ''443'')
          then Inl (importError invalid_url)
          else
            let hostname = strip_dot (strip_brackets (js_toLowerCase (url_hostname url))) in
            if hostname = [] \<or> net_isIP hostname \<noteq> 0 \<or> hostname = ''localhost'' \<or>
               js_endsWith hostname ''.localhost'' \<or> js_endsWith hostname ''.local''
            then Inl (importError private_destination)
            else
              let url = (set_hostname lib url hostname)\<lparr>url_hash := []\<rparr> in
              if MAX_QUERY_LENGTH < length (url_search url) then Inl (importError invalid_url)
              else case cleanParams lib (map fst (url_params url)) url of
                Inl e \<Rightarrow> Inl e
              | Inr url \<Rightarrow>
                  Inr (if getRoleIntakeIndexedSearchDomain url \<noteq> None then url\<lparr>url_search := [], url_params := []\<rparr> else url))"

text \<open>\<open>pathname.match(/(?:^|[-/])(\d{7,})(?:\/)?$/)?.[1]\<close>: the digits the path ends in.\<close>

definition trailing_job_id :: "string \<Rightarrow> string option" where
  "trailing_job_id path =
     (let core = (if path \<noteq> [] \<and> last path = CHR ''/'' then butlast path else path);
          digits = takeWhile is_digit (rev core); rest = dropWhile is_digit (rev core)
      in if 7 \<le> length digits \<and> (rest = [] \<or> hd rest = CHR ''-'' \<or> hd rest = CHR ''/'') then Some (rev digits) else None)"

definition createRoleIntakeUrlIdentity :: "url_library \<Rightarrow> (string \<Rightarrow> string) \<Rightarrow> Url \<Rightarrow> string" where
  "createRoleIntakeUrlIdentity lib sha256 url =
     (let jobId = (if getRoleIntakeIndexedSearchDomain url = Some ''linkedin.com'' then trailing_job_id (url_pathname url) else None)
      in sha256 (case jobId of
           Some i \<Rightarrow> ''linkedin.com'' @ '':'' @ i
         | None \<Rightarrow> href lib url))"

section \<open>What a normalised link has lost\<close>

text \<open>The host setter of the runtime touches the host only.\<close>

definition tame_library :: "url_library \<Rightarrow> bool" where
  "tame_library lib \<longleftrightarrow> (\<forall>u h. (set_hostname lib u h)\<lparr>url_hostname := url_hostname u\<rparr> = u)"

lemma tame_fields:
  assumes "tame_library lib"
  shows "url_protocol (set_hostname lib u h) = url_protocol u" "url_username (set_hostname lib u h) = url_username u"
    "url_password (set_hostname lib u h) = url_password u" "url_port (set_hostname lib u h) = url_port u"
    "url_pathname (set_hostname lib u h) = url_pathname u" "url_params (set_hostname lib u h) = url_params u"
    "url_search (set_hostname lib u h) = url_search u"
  using assms [unfolded tame_library_def, rule_format, of u h] by (auto dest: arg_cong [of _ _ url_protocol] arg_cong [of _ _ url_username]
      arg_cong [of _ _ url_password] arg_cong [of _ _ url_port] arg_cong [of _ _ url_pathname] arg_cong [of _ _ url_params]
      arg_cong [of _ _ url_search])

definition origin_fields :: "Url \<Rightarrow> string \<times> string \<times> string \<times> string \<times> string \<times> string" where
  "origin_fields u = (url_protocol u, url_username u, url_password u, url_port u, url_pathname u, url_hash u)"

lemma delete_param_fields [simp]:
  "origin_fields (delete_param lib name u) = origin_fields u"
  "url_params (delete_param lib name u) = filter (\<lambda>(n, _). n \<noteq> name) (url_params u)"
  "url_hostname (delete_param lib name u) = url_hostname u"
  by (simp_all add: delete_param_def with_params_def origin_fields_def)

lemma cleanParams_Inr:
  assumes "cleanParams lib names u = Inr v"
  shows "origin_fields v = origin_fields u \<and> url_hostname v = url_hostname u \<and> (\<forall>n\<in>set names. \<not> is_sensitive n) \<and>
    url_params v = filter (\<lambda>(n, _). \<not> (n \<in> set names \<and> is_tracking n)) (url_params u)"
  using assms
proof (induction names arbitrary: u)
  case (Cons name names)
  let ?u = "if is_tracking name then delete_param lib name u else u"
  have "\<not> is_sensitive name" and "cleanParams lib names ?u = Inr v" using Cons.prems by (auto split: if_splits)
  with Cons.IH [OF this(2)] show ?case
    by (auto intro!: filter_cong split: if_splits)
qed auto

text \<open>A link of which every later step may assume this.\<close>

definition clean_url :: "Url \<Rightarrow> bool" where
  "clean_url u \<longleftrightarrow> url_protocol u = ''https:'' \<and> url_username u = [] \<and> url_password u = [] \<and>
     (url_port u = [] \<or> url_port u = ''443'') \<and> url_hash u = [] \<and>
     list_all (\<lambda>(n, _). \<not> is_sensitive n \<and> \<not> is_tracking n) (url_params u)"

lemma normalize_clean:
  assumes tame: "tame_library lib" and ok: "normalizeRoleIntakeUrl lib value = Inr u"
  shows "clean_url u"
proof -
  from ok obtain parsed h u' v where parsed: "url_protocol parsed = ''https:''" "url_username parsed = []"
      "url_password parsed = []" "url_port parsed = [] \<or> url_port parsed = ''443''"
    and u': "u' = (set_hostname lib parsed h)\<lparr>url_hash := []\<rparr>"
    and v: "cleanParams lib (map fst (url_params u')) u' = Inr v"
    and u: "u = v \<or> u = v\<lparr>url_search := [], url_params := []\<rparr>"
    unfolding normalizeRoleIntakeUrl_def Let_def by (auto split: if_splits option.splits sum.splits)
  note clean = cleanParams_Inr [OF v]
  have "origin_fields v = (''https:'', [], [], url_port parsed, url_pathname parsed, [])"
    using clean u' parsed tame_fields [OF tame] by (simp add: origin_fields_def)
  moreover have "list_all (\<lambda>(n, _). \<not> is_sensitive n \<and> \<not> is_tracking n) (url_params v)"
    using clean by (force simp: list_all_iff)
  ultimately show ?thesis
    using u parsed(4) by (auto simp: clean_url_def origin_fields_def)
qed

text \<open>
  C25: a link that is accepted is an \<open>https\<close> link to the default port without user, password or
  fragment, and none of its query parameters is a credential or a tracking identifier.
\<close>

theorem normalized_links_are_clean:
  assumes "tame_library lib" and "normalizeRoleIntakeUrl lib value = Inr u"
  shows "url_protocol u = ''https:'' \<and> url_username u = [] \<and> url_password u = [] \<and>
     (url_port u = [] \<or> url_port u = ''443'') \<and> url_hash u = [] \<and>
     list_all (\<lambda>(n, _). \<not> is_sensitive n \<and> \<not> is_tracking n) (url_params u)"
  using normalize_clean [OF assms] unfolding clean_url_def .

text \<open>A link with a campaign parameter and a fragment, and a runtime that knows it.\<close>

definition campaign_url :: "Url" where
  "campaign_url = \<lparr>url_protocol = ''https:'', url_username = [], url_password = [], url_port = [],
     url_hostname = ''Jobs.example.com'', url_pathname = ''/42'', url_search = ''?UTM_source=x&lang=en'',
     url_params = [(''UTM_source'', ''x''), (''lang'', ''en'')], url_hash = ''#top''\<rparr>"

definition campaign_library :: url_library where
  "campaign_library = \<lparr>parse_url = (\<lambda>s. Some campaign_url), parse_relative = (\<lambda>s u. None), href = url_pathname,
     url_origin = url_hostname, query_text = (\<lambda>ps. concat (map (\<lambda>(n, v). n @ ''='' @ v) ps)),
     set_hostname = (\<lambda>u h. u\<lparr>url_hostname := h\<rparr>)\<rparr>"

theorem normalized_links_are_clean_witness:
  "normalizeRoleIntakeUrl campaign_library ''link'' = Inr (campaign_url\<lparr>url_hostname := ''jobs.example.com'',
     url_search := ''?lang=en'', url_params := [(''lang'', ''en'')], url_hash := []\<rparr>) \<and> \<not> is_tracking ''lang''"
proof -
  have run: "normalizeRoleIntakeUrl campaign_library ''link'' = Inr (campaign_url\<lparr>url_hostname := ''jobs.example.com'',
     url_search := ''?lang=en'', url_params := [(''lang'', ''en'')], url_hash := []\<rparr>)"
    by code_simp
  have "tame_library campaign_library" by (simp add: tame_library_def campaign_library_def)
  from normalized_links_are_clean [OF this run] run show ?thesis by simp
qed

end
