(* ===== verification/RoleIntakeExtract.thy ===== *)
theory RoleIntakeExtract
  imports RoleIntakeUrl
begin

text \<open>
  Reading a role draft out of a page (\<open>role-intakes/role-intake-url-extractor.ts\<close>). The HTML
  parser is a parameter that answers a document tree, and so is \<open>JSON.parse\<close>; an object's members
  stand in the order in which \<open>Object.values\<close> answers them. An absent field of a node is empty.
  Warnings are their codes.
\<close>

section \<open>Drafts\<close>

record ImportedRoleDraft =
  draft_description :: string
  draft_location :: "string option"
  draft_title :: "string option"

datatype RoleIntakeFieldSource = ats_public_api | indexed_web_search | job_posting_json_ld | main_content
  | heading | page_title | unavailable

record RoleIntakeUrlFieldSources =
  source_description :: RoleIntakeFieldSource
  source_location :: RoleIntakeFieldSource
  source_title :: RoleIntakeFieldSource

definition MIN_ROLE_DESCRIPTION_CHARACTERS :: nat where "MIN_ROLE_DESCRIPTION_CHARACTERS = 40"
definition MAX_EXTRACTED_DESCRIPTION_CHARACTERS :: nat where "MAX_EXTRACTED_DESCRIPTION_CHARACTERS = 100000"
definition MAX_STRUCTURED_JSON_DEPTH :: nat where "MAX_STRUCTURED_JSON_DEPTH = 12"
definition draft_limit :: nat where "draft_limit = 160"

definition toImportedRoleDraft :: "string \<Rightarrow> string option \<Rightarrow> string option \<Rightarrow> ImportedRoleDraft" where
  "toImportedRoleDraft description location title =
     \<lparr>draft_description = take MAX_EXTRACTED_DESCRIPTION_CHARACTERS description,
      draft_location = map_option (take draft_limit) location,
      draft_title = map_option (take draft_limit) title\<rparr>"

definition buildMissingFieldWarnings :: "string option \<Rightarrow> string option \<Rightarrow> string list" where
  "buildMissingFieldWarnings location title =
     (if truthy title then [] else [''title_unavailable'']) @
     (if truthy location then [] else [''location_unavailable''])"

section \<open>Text\<close>

definition newline :: char where "newline = char_of (10 :: nat)"
definition carriage_return :: char where "carriage_return = char_of (13 :: nat)"

definition is_blank :: "char \<Rightarrow> bool" where
  "is_blank c \<longleftrightarrow> of_char c = (32 :: nat) \<or> of_char c = (9 :: nat)"

text \<open>The replacements of \<open>normalizeText\<close>, one function each.\<close>

definition plain_spaces :: "string \<Rightarrow> string" where   \<comment> \<open>\<open>/\u00a0/g\<close>\<close>
  "plain_spaces = map (\<lambda>c. if of_char c = (160 :: nat) then CHR '' '' else c)"

fun plain_newlines :: "string \<Rightarrow> string" where         \<comment> \<open>\<open>/\r\n?/g\<close>\<close>
  "plain_newlines [] = []"
| "plain_newlines [c] = [if c = carriage_return then newline else c]"
| "plain_newlines (c # d # s) =
     (if c = carriage_return then newline # (if d = newline then plain_newlines s else plain_newlines (d # s))
      else c # plain_newlines (d # s))"

function squeeze_blanks :: "string \<Rightarrow> string" where    \<comment> \<open>\<open>/[ \t]+/g\<close>\<close>
  "squeeze_blanks [] = []"
| "squeeze_blanks (c # s) =
     (if is_blank c then CHR '' '' # squeeze_blanks (dropWhile is_blank s) else c # squeeze_blanks s)"
  by pat_completeness auto
termination
  by (relation "measure length") (auto simp: le_imp_less_Suc length_dropWhile_le)

function left_align :: "string \<Rightarrow> string" where        \<comment> \<open>\<open>/\n[ \t]*/g\<close>\<close>
  "left_align [] = []"
| "left_align (c # s) = c # left_align (if c = newline then dropWhile is_blank s else s)"
  by pat_completeness auto
termination
  by (relation "measure length") (auto simp: le_imp_less_Suc length_dropWhile_le)

definition is_newline :: "char \<Rightarrow> bool" where
  "is_newline c \<longleftrightarrow> c = newline"

function limit_newlines :: "string \<Rightarrow> string" where     \<comment> \<open>\<open>/\n{3,}/g\<close>\<close>
  "limit_newlines [] = []"
| "limit_newlines (c # s) =
     (if c = newline
      then let run = newline # takeWhile is_newline s in
           (if 3 \<le> length run then [newline, newline] else run) @ limit_newlines (dropWhile is_newline s)
      else c # limit_newlines s)"
  by pat_completeness auto
termination
  by (relation "measure length") (auto simp: le_imp_less_Suc length_dropWhile_le)

definition normalizeText :: "string \<Rightarrow> string" where
  "normalizeText v = js_trim (limit_newlines (left_align (squeeze_blanks (plain_newlines (plain_spaces v)))))"

text \<open>\<open>normalizeText(value) || null\<close>, and \<open>posting_text\<close>.\<close>

definition text_or_null :: "string \<Rightarrow> string option" where
  "text_or_null s = (if s = [] then None else Some s)"

definition posting_text :: "json option \<Rightarrow> string option" where
  "posting_text v = (case v of Some (JString s) \<Rightarrow> text_or_null (normalizeText s) | _ \<Rightarrow> None)"

definition firstUsefulText :: "string list \<Rightarrow> string" where
  "firstUsefulText vs =
     (case find (\<lambda>v. MIN_ROLE_DESCRIPTION_CHARACTERS \<le> length v) vs of Some v \<Rightarrow> v | None \<Rightarrow> [])"

definition firstNonEmpty :: "string option list \<Rightarrow> string option" where
  "firstNonEmpty vs =
     (case find (\<lambda>v. case v of Some s \<Rightarrow> js_trim s \<noteq> [] | None \<Rightarrow> False) vs of
        Some (Some s) \<Rightarrow> Some (js_trim s) | _ \<Rightarrow> None)"

text \<open>\<open>split(/\s+[|-]\s+/)[0]\<close>; the dashes of the pattern beyond Latin-1 are not in the model's texts.\<close>

fun before_separator :: "string \<Rightarrow> string" where
  "before_separator [] = []"
| "before_separator (c # s) =
     (if is_js_space c \<and>
         (case dropWhile is_js_space s of
            d # e # _ \<Rightarrow> (d = CHR ''|'' \<or> d = CHR ''-'') \<and> is_js_space e | _ \<Rightarrow> False)
      then [] else c # before_separator s)"

definition normalisePageTitle :: "string \<Rightarrow> string" where
  "normalisePageTitle v = js_trim (before_separator (normalizeText v))"

definition looksLikeAuthenticationGate :: "string \<Rightarrow> bool" where
  "looksLikeAuthenticationGate v \<longleftrightarrow>
     list_ex (js_startsWith (js_toLowerCase (js_trim v)))
       [''sign in'', ''log in'', ''please wait'', ''verify you are human'', ''access denied'']"

section \<open>The document\<close>

datatype HtmlNode = HtmlNode
  (html_type: string) (html_name: string) (html_data: string) (html_attribs: "(string \<times> string) list")
  (html_children: "HtmlNode list")

definition ignoredHtmlElements :: "string list" where
  "ignoredHtmlElements = [''audio'', ''base'', ''canvas'', ''form'', ''iframe'', ''img'', ''input'', ''noscript'',
     ''picture'', ''script'', ''source'', ''style'', ''svg'', ''template'', ''video'']"

definition boilerplateHtmlElements :: "string list" where
  "boilerplateHtmlElements = [''aside'', ''footer'', ''header'', ''nav'']"

definition blockHtmlElements :: "string list" where
  "blockHtmlElements = [''br'', ''div'', ''li'', ''p'', ''section'', ''h1'', ''h2'', ''h3'']"

fun collectHtmlNodes :: "HtmlNode \<Rightarrow> HtmlNode list" where
  "collectHtmlNodes (HtmlNode t n d a cs) = HtmlNode t n d a cs # concat (map collectHtmlNodes cs)"

definition findFirstElement :: "HtmlNode list \<Rightarrow> string list \<Rightarrow> HtmlNode option" where
  "findFirstElement nodes names = find (\<lambda>node. html_type node = ''tag'' \<and> html_name node \<in> set names) nodes"

fun nodeText :: "HtmlNode \<Rightarrow> string" where
  "nodeText (HtmlNode t n d a cs) =
     (if t = ''text'' then d
      else if n \<in> set ignoredHtmlElements then []
      else join_with '' '' (map nodeText cs))"

definition nodeText_opt :: "HtmlNode option \<Rightarrow> string" where
  "nodeText_opt v = (case v of Some n \<Rightarrow> nodeText n | None \<Rightarrow> [])"

fun rawNodeText :: "HtmlNode \<Rightarrow> string" where
  "rawNodeText (HtmlNode t n d a cs) = (if t = ''text'' then d else concat (map rawNodeText cs))"

fun visibleText :: "bool \<Rightarrow> HtmlNode \<Rightarrow> string" where
  "visibleText excludeBoilerplate (HtmlNode t n d a cs) =
     (if t = ''text'' then d
      else if n \<in> set ignoredHtmlElements \<or> (excludeBoilerplate \<and> n \<in> set boilerplateHtmlElements) then []
      else let content = join_with '' '' (map (visibleText excludeBoilerplate) cs)
           in if n \<in> set blockHtmlElements then content @ [newline] else content)"

definition normalizeVisibleText :: "bool \<Rightarrow> HtmlNode \<Rightarrow> string" where
  "normalizeVisibleText excludeBoilerplate node = normalizeText (visibleText excludeBoilerplate node)"

text \<open>\<open>/<[a-z][a-z0-9-]*(\s|\/|>)/i\<close>\<close>

definition is_letter :: "char \<Rightarrow> bool" where
  "is_letter c \<longleftrightarrow> (let n = (of_char (lower_char c) :: nat) in 97 \<le> n \<and> n \<le> 122)"

fun containsHtmlTag :: "string \<Rightarrow> bool" where
  "containsHtmlTag [] = False"
| "containsHtmlTag (c # s) \<longleftrightarrow>
     (c = CHR ''<'' \<and> (case s of d # r \<Rightarrow> is_letter d \<and>
        (case dropWhile (\<lambda>e. is_letter e \<or> is_digit e \<or> e = CHR ''-'') r of
           e # _ \<Rightarrow> is_js_space e \<or> e = CHR ''/'' \<or> e = CHR ''>'' | [] \<Rightarrow> False) | [] \<Rightarrow> False))
     \<or> containsHtmlTag s"

text \<open>What the parsers answer: the document of a text, and the value of a JSON text unless it throws.\<close>

record parsers =
  parseDocument :: "string \<Rightarrow> HtmlNode"
  parse_json :: "string \<Rightarrow> json option"

definition extractRoleIntakeHtmlText :: "parsers \<Rightarrow> string \<Rightarrow> string" where
  "extractRoleIntakeHtmlText P v =
     (let markup = (if containsHtmlTag v then v else rawNodeText (parseDocument P v))
      in normalizeVisibleText False (parseDocument P markup))"

section \<open>Structured data\<close>

fun walkStructuredJson :: "nat \<Rightarrow> json \<Rightarrow> (string \<times> json) list list" where
  "walkStructuredJson depth (JArray xs) =
     (if MAX_STRUCTURED_JSON_DEPTH < depth then [] else concat (map (walkStructuredJson (depth + 1)) xs))"
| "walkStructuredJson depth (JObject ms) =
     (if MAX_STRUCTURED_JSON_DEPTH < depth then []
      else ms # concat (map (\<lambda>(k, v). walkStructuredJson (depth + 1) v) ms))"
| "walkStructuredJson depth _ = []"

text \<open>\<open>replace(/^.*[/:#]/, "")\<close>: what follows the last separator of the first line.\<close>

definition is_term_separator :: "char \<Rightarrow> bool" where
  "is_term_separator c \<longleftrightarrow> c = CHR ''/'' \<or> c = CHR '':'' \<or> c = CHR ''#''"

definition is_line_end :: "char \<Rightarrow> bool" where
  "is_line_end c \<longleftrightarrow> c = newline \<or> c = carriage_return"

definition strip_term :: "string \<Rightarrow> string" where
  "strip_term s =
     (let line = takeWhile (\<lambda>c. \<not> is_line_end c) s; rest = dropWhile (\<lambda>c. \<not> is_line_end c) s
      in rev (takeWhile (\<lambda>c. \<not> is_term_separator c) (rev line)) @ rest)"

definition isJobPosting :: "(string \<times> json) list \<Rightarrow> bool" where
  "isJobPosting value =
     list_ex (\<lambda>candidate. case candidate of
         Some (JString s) \<Rightarrow> strip_term (js_toLowerCase s) = ''jobposting'' | _ \<Rightarrow> False)
       (case json_member value ''@type'' of Some (JArray xs) \<Rightarrow> map Some xs | type \<Rightarrow> [type])"

definition extractJobLocation :: "json option \<Rightarrow> string option" where
  "extractJobLocation value =
     (let location = (case value of Some (JArray xs) \<Rightarrow> (case xs of x # _ \<Rightarrow> Some x | [] \<Rightarrow> None) | v \<Rightarrow> v)
      in case location of
           Some (JString s) \<Rightarrow> text_or_null (normalizeText s)
         | Some (JObject ms) \<Rightarrow>
             (case json_member ms ''address'' of
                Some (JString s) \<Rightarrow> text_or_null (normalizeText s)
              | Some (JObject rs) \<Rightarrow>
                  text_or_null (js_trim (join_with '', ''
                    (List.map_filter (\<lambda>k. posting_text (json_member rs k)) [''addressLocality'', ''addressRegion'', ''addressCountry''])))
              | _ \<Rightarrow> None)
         | _ \<Rightarrow> None)"

record job_posting =
  jp_description :: "string option"
  jp_location :: "string option"
  jp_title :: "string option"

definition MAX_JSON_LD_LENGTH :: int where "MAX_JSON_LD_LENGTH = 131072"

definition is_json_ld :: "HtmlNode \<Rightarrow> bool" where
  "is_json_ld node \<longleftrightarrow> html_name node = ''script'' \<and>
     (case map_of (html_attribs node) ''type'' of
        Some t \<Rightarrow> js_includes (js_toLowerCase t) ''application/ld+json'' | None \<Rightarrow> False)"

definition postings_of :: "parsers \<Rightarrow> HtmlNode \<Rightarrow> (string \<times> json) list list" where
  "postings_of P node =
     (let content = js_trim (rawNodeText node)
      in if content = [] \<or> MAX_JSON_LD_LENGTH < int (length content) then []
         else case parse_json P content of
           None \<Rightarrow> []
         | Some v \<Rightarrow> filter isJobPosting (walkStructuredJson 0 v))"

definition extractJobPosting :: "parsers \<Rightarrow> HtmlNode list \<Rightarrow> job_posting option" where
  "extractJobPosting P nodes =
     (case concat (map (postings_of P) (filter is_json_ld nodes)) of
        [] \<Rightarrow> None
      | c # _ \<Rightarrow> Some \<lparr>jp_description = posting_text (json_member c ''description''),
                      jp_location = extractJobLocation (json_member c ''jobLocation''),
                      jp_title = posting_text (json_member c ''title'')\<rparr>)"

section \<open>The draft of a page\<close>

record extraction =
  ex_draft :: ImportedRoleDraft
  ex_fieldSources :: RoleIntakeUrlFieldSources
  ex_warnings :: "string list"

text \<open>The result, once a usable description is found.\<close>

definition page_extraction ::
    "job_posting option \<Rightarrow> string \<Rightarrow> string \<Rightarrow> string \<Rightarrow> string \<Rightarrow> extraction" where
  "page_extraction structured structuredDescription heading_text pageTitle description =
     (let structuredTitle = Option.bind structured jp_title;
          title = firstNonEmpty [structuredTitle, Some heading_text, Some pageTitle];
          location = Option.bind structured jp_location
      in \<lparr>ex_draft = toImportedRoleDraft description location title,
          ex_fieldSources =
            \<lparr>source_description = (if structuredDescription \<noteq> [] then job_posting_json_ld else main_content),
             source_location = (if truthy location then job_posting_json_ld else unavailable),
             source_title = (if truthy structuredTitle then job_posting_json_ld
               else if heading_text \<noteq> [] then heading else if pageTitle \<noteq> [] then page_title else unavailable)\<rparr>,
          ex_warnings = buildMissingFieldWarnings location title @
            (if structuredDescription = [] then [''description_extracted_from_page''] else [])\<rparr>)"

definition extractRoleIntakeUrlDraft :: "parsers \<Rightarrow> string \<Rightarrow> import_error + extraction" where
  "extractRoleIntakeUrlDraft P html =
     (let document = parseDocument P html; nodes = collectHtmlNodes document;
          structured = extractJobPosting P nodes;
          main = findFirstElement nodes [''main'', ''article''];
          body = findFirstElement nodes [''body''];
          visibleContent = normalizeVisibleText (main = None)
            (case main of Some n \<Rightarrow> n | None \<Rightarrow> (case body of Some n \<Rightarrow> n | None \<Rightarrow> document));
          heading_text = normalizeText (nodeText_opt (findFirstElement nodes [''h1'']));
          pageTitle = normalisePageTitle (nodeText_opt (findFirstElement nodes [''title'']));
          structuredDescription = (case Option.bind structured jp_description of
            Some d \<Rightarrow> extractRoleIntakeHtmlText P d | None \<Rightarrow> []);
          description = firstUsefulText [structuredDescription, visibleContent]
      in if length description < MIN_ROLE_DESCRIPTION_CHARACTERS \<or> looksLikeAuthenticationGate description
         then Inl (importError no_usable_text)
         else Inr (page_extraction structured structuredDescription heading_text pageTitle description))"

section \<open>What a draft of a page satisfies\<close>

lemma dropWhile_rev_trim: "dropWhile P (rev (dropWhile P (rev s))) = rev (dropWhile P (rev (dropWhile P s)))"
proof (induction s)
  case (Cons c s)
  show ?case
  proof (cases "P c")
    case True
    have "dropWhile P (rev (dropWhile P (rev s @ [c]))) = dropWhile P (rev (dropWhile P (rev s)))"
      using True by (cases "\<forall>x\<in>set s. P x") (auto simp: dropWhile_append dropWhile_eq_Nil_conv [THEN iffD2])
    then show ?thesis using True Cons by simp
  next
    case False
    then have "rev (dropWhile P (rev s @ [c])) = c # rev (dropWhile P (rev s))" by (auto simp: dropWhile_append)
    then show ?thesis using False by simp
  qed
qed simp

lemma js_trim_idem: "js_trim (js_trim s) = js_trim s"
  by (simp add: js_trim_def dropWhile_rev_trim dropWhile_idem)

lemma normalizeText_trimmed [simp]: "js_trim (normalizeText s) = normalizeText s"
  by (simp add: normalizeText_def js_trim_idem)

lemma posting_text_nonempty: "posting_text v = Some s \<Longrightarrow> s \<noteq> [] \<and> js_trim s = s"
  by (auto simp: posting_text_def text_or_null_def split: option.splits json.splits if_splits)

lemma firstNonEmpty_truthy: "firstNonEmpty vs = Some s \<Longrightarrow> s \<noteq> []"
  by (auto simp: firstNonEmpty_def js_trim_idem find_Some_iff split: option.splits)

lemma firstNonEmpty_None: "firstNonEmpty vs = None \<longleftrightarrow> (\<forall>s. Some s \<in> set vs \<longrightarrow> js_trim s = [])"
  by (auto simp: firstNonEmpty_def find_None_iff find_Some_iff split: option.splits) (metis nth_mem)+

text \<open>Field sources and warnings name exactly the fields that are missing.\<close>

definition draft_accounts :: "extraction \<Rightarrow> bool" where
  "draft_accounts ex \<longleftrightarrow>
     (draft_title (ex_draft ex) = None \<longleftrightarrow> source_title (ex_fieldSources ex) = unavailable) \<and>
     (draft_title (ex_draft ex) = None \<longleftrightarrow> ''title_unavailable'' \<in> set (ex_warnings ex)) \<and>
     (draft_location (ex_draft ex) = None \<longleftrightarrow> source_location (ex_fieldSources ex) = unavailable) \<and>
     (draft_location (ex_draft ex) = None \<longleftrightarrow> ''location_unavailable'' \<in> set (ex_warnings ex))"

definition draft_fits :: "ImportedRoleDraft \<Rightarrow> bool" where
  "draft_fits d \<longleftrightarrow> length (draft_description d) \<le> MAX_EXTRACTED_DESCRIPTION_CHARACTERS \<and>
     (case draft_title d of Some s \<Rightarrow> 0 < length s \<and> length s \<le> draft_limit | None \<Rightarrow> True) \<and>
     (case draft_location d of Some s \<Rightarrow> 0 < length s \<and> length s \<le> draft_limit | None \<Rightarrow> True)"

lemma toImportedRoleDraft_fits:
  "location \<noteq> Some [] \<Longrightarrow> title \<noteq> Some [] \<Longrightarrow> draft_fits (toImportedRoleDraft description location title)"
  by (auto simp: draft_fits_def toImportedRoleDraft_def draft_limit_def split: option.splits)

lemma location_nonempty: "extractJobLocation v \<noteq> Some []"
  by (auto simp: extractJobLocation_def text_or_null_def Let_def split: option.splits json.splits list.splits)

lemma posting_fields:
  assumes "extractJobPosting P nodes = Some j"
  shows "jp_location j \<noteq> Some []" "jp_title j = Some s \<Longrightarrow> s \<noteq> [] \<and> js_trim s = s"
proof -
  obtain c where j: "jp_location j = extractJobLocation (json_member c ''jobLocation'')"
      "jp_title j = posting_text (json_member c ''title'')"
    using assms by (auto simp: extractJobPosting_def split: list.splits)
  show "jp_location j \<noteq> Some []" by (simp add: j location_nonempty)
  show "jp_title j = Some s \<Longrightarrow> s \<noteq> [] \<and> js_trim s = s" by (simp add: j posting_text_nonempty)
qed

lemma page_extraction_accounts:
  assumes location: "Option.bind j jp_location \<noteq> Some []"
    and st: "\<And>s. Option.bind j jp_title = Some s \<Longrightarrow> s \<noteq> [] \<and> js_trim s = s"
    and trimmed: "js_trim h = h" "js_trim pt = pt"
  shows "draft_fits (ex_draft (page_extraction j sd h pt description)) \<and> draft_accounts (page_extraction j sd h pt description)"
proof -
  let ?location = "Option.bind j jp_location" and ?st = "Option.bind j jp_title"
  have title: "firstNonEmpty [?st, Some h, Some pt] = None \<longleftrightarrow> ?st = None \<and> h = [] \<and> pt = []"
    unfolding firstNonEmpty_None using st trimmed by (cases ?st) auto
  have truthy_some: "truthy v \<longleftrightarrow> v \<noteq> None" if "v \<noteq> Some []" for v :: "string option"
    using that by (cases v) auto
  have title_truthy: "firstNonEmpty [?st, Some h, Some pt] \<noteq> Some []" and "?st \<noteq> Some []"
    using firstNonEmpty_truthy st by blast+
  note some = truthy_some [OF title_truthy] truthy_some [OF location] truthy_some [OF \<open>?st \<noteq> Some []\<close>]
  have "draft_accounts (page_extraction j sd h pt description)"
    unfolding draft_accounts_def page_extraction_def Let_def buildMissingFieldWarnings_def toImportedRoleDraft_def some
    by (simp add: title)
  moreover have "draft_fits (ex_draft (page_extraction j sd h pt description))"
    unfolding page_extraction_def Let_def using toImportedRoleDraft_fits [OF location title_truthy] by simp
  ultimately show ?thesis by simp
qed

lemma extracted_draft:
  assumes "extractRoleIntakeUrlDraft P html = Inr ex"
  shows "MIN_ROLE_DESCRIPTION_CHARACTERS \<le> length (draft_description (ex_draft ex)) \<and> draft_fits (ex_draft ex) \<and>
    draft_accounts ex"
proof -
  define j where "j = extractJobPosting P (collectHtmlNodes (parseDocument P html))"
  obtain description h pt sd where long: "\<not> length description < MIN_ROLE_DESCRIPTION_CHARACTERS"
    and trimmed: "js_trim (normalizeText h) = normalizeText h" "js_trim (normalisePageTitle pt) = normalisePageTitle pt"
    and ex: "ex = page_extraction j sd (normalizeText h) (normalisePageTitle pt) description"
  proof -
    let ?d = "\<lambda>v. firstUsefulText [case Option.bind j jp_description of Some d \<Rightarrow> extractRoleIntakeHtmlText P d | None \<Rightarrow> [], v]"
    from assms obtain v sd h pt where "\<not> length (?d v) < MIN_ROLE_DESCRIPTION_CHARACTERS"
      "page_extraction j sd (normalizeText h) (normalisePageTitle pt) (?d v) = ex"
      unfolding extractRoleIntakeUrlDraft_def Let_def j_def [symmetric] by (auto split: if_split_asm)
    then show thesis
      using that [of "?d v" h pt sd] by (simp add: normalisePageTitle_def js_trim_idem)
  qed
  have fields: "Option.bind j jp_location \<noteq> Some []" "\<And>s. Option.bind j jp_title = Some s \<Longrightarrow> s \<noteq> [] \<and> js_trim s = s"
    using posting_fields [of P "collectHtmlNodes (parseDocument P html)"] unfolding j_def by (auto simp: Option.bind_eq_Some_conv)
  have "draft_description (ex_draft ex) = take MAX_EXTRACTED_DESCRIPTION_CHARACTERS description"
    by (simp add: ex page_extraction_def toImportedRoleDraft_def Let_def)
  then have "MIN_ROLE_DESCRIPTION_CHARACTERS \<le> length (draft_description (ex_draft ex))"
    using long by (simp add: MIN_ROLE_DESCRIPTION_CHARACTERS_def MAX_EXTRACTED_DESCRIPTION_CHARACTERS_def)
  then show ?thesis using page_extraction_accounts [OF fields trimmed] ex by simp
qed

text \<open>
  C24: a draft read from a page has a description of 40 to 100,000 characters and a title and a
  location of at most 160 characters each, neither of them empty. A missing title or location
  has the source \<open>unavailable\<close> and its warning, a present one has neither.
\<close>

theorem page_draft_fits_and_accounts:
  assumes "extractRoleIntakeUrlDraft P html = Inr ex"
  shows "MIN_ROLE_DESCRIPTION_CHARACTERS \<le> length (draft_description (ex_draft ex)) \<and> draft_fits (ex_draft ex) \<and>
    draft_accounts ex"
  by (rule extracted_draft [OF assms])

text \<open>A page with a posting of its own whose description is a teaser, and a full text beside it.\<close>

definition element :: "string \<Rightarrow> HtmlNode list \<Rightarrow> HtmlNode" where
  "element n cs = HtmlNode ''tag'' n [] [] cs"

definition text_node :: "string \<Rightarrow> HtmlNode" where
  "text_node s = HtmlNode ''text'' [] s [] []"

definition example_body :: string where
  "example_body = ''Care for patients on the night shift of our ward.''"

definition example_page :: "HtmlNode" where
  "example_page = HtmlNode ''root'' [] [] []
     [HtmlNode ''script'' ''script'' [] [(''type'', ''application/ld+json'')] [text_node ''{...}''],
      element ''main'' [element ''h1'' [text_node ''Night nurse''], element ''p'' [text_node example_body]]]"

definition example_parsers :: "string \<Rightarrow> parsers" where
  "example_parsers teaser =
     \<lparr>parseDocument = (\<lambda>s. if s = ''page'' then example_page else text_node s),
      parse_json = (\<lambda>s. Some (JObject [(''@type'', JString ''JobPosting''), (''description'', JString teaser)]))\<rparr>"

lemma example_nodes:
  "extractJobPosting (example_parsers ''Apply now'') (collectHtmlNodes example_page) =
     Some \<lparr>jp_description = Some ''Apply now'', jp_location = None, jp_title = None\<rparr>"
  by code_simp

lemma example_visible:
  "findFirstElement (collectHtmlNodes example_page) [''main'', ''article''] =
     Some (element ''main'' [element ''h1'' [text_node ''Night nurse''], element ''p'' [text_node example_body]])"
  "normalizeVisibleText False (element ''main'' [element ''h1'' [text_node ''Night nurse''], element ''p'' [text_node example_body]]) =
     ''Night nurse'' @ newline # example_body"
  by code_simp+

lemma example_teaser:
  "extractRoleIntakeHtmlText (example_parsers ''Apply now'') ''Apply now'' = ''Apply now''"
  by code_simp

text \<open>
  A structured description that is too short to be used is still named as the source of the
  draft's description, which was read from the visible page, and its warning is missing.
\<close>

lemma example_page_read:
  "extractRoleIntakeUrlDraft (example_parsers ''Apply now'') ''page'' =
     Inr (page_extraction (Some \<lparr>jp_description = Some ''Apply now'', jp_location = None, jp_title = None\<rparr>)
       ''Apply now'' ''Night nurse'' [] (''Night nurse'' @ newline # example_body))"
proof -
  have parse: "parseDocument (example_parsers ''Apply now'') ''page'' = example_page" by (simp add: example_parsers_def)
  have texts: "normalizeText (nodeText_opt (findFirstElement (collectHtmlNodes example_page) [''h1''])) = ''Night nurse''"
    "normalisePageTitle (nodeText_opt (findFirstElement (collectHtmlNodes example_page) [''title''])) = []"
    by code_simp+
  have useful: "firstUsefulText [''Apply now'', ''Night nurse'' @ newline # example_body] = ''Night nurse'' @ newline # example_body"
    "\<not> length (''Night nurse'' @ newline # example_body) < MIN_ROLE_DESCRIPTION_CHARACTERS"
    "\<not> looksLikeAuthenticationGate (''Night nurse'' @ newline # example_body)"
    by code_simp+
  have main: "(case findFirstElement (collectHtmlNodes example_page) [''main'', ''article''] of Some n \<Rightarrow> n | None \<Rightarrow> x) =
      element ''main'' [element ''h1'' [text_node ''Night nurse''], element ''p'' [text_node example_body]]"
    "(findFirstElement (collectHtmlNodes example_page) [''main'', ''article''] = None) = False" for x
    by (simp_all only: example_visible(1) option.case option.distinct)
  have teaser: "(case Option.bind (Some \<lparr>jp_description = Some ''Apply now'', jp_location = None, jp_title = None\<rparr>) jp_description of
      Some d \<Rightarrow> extractRoleIntakeHtmlText (example_parsers ''Apply now'') d | None \<Rightarrow> []) = ''Apply now''"
    by (simp only: Option.bind.bind_lunit job_posting.select_convs option.case example_teaser)
  show ?thesis
    unfolding extractRoleIntakeUrlDraft_def Let_def parse example_nodes main example_visible(2) teaser texts useful(1)
    by (simp only: useful if_False simp_thms)
qed

theorem teaser_mislabels_the_page_text:
  "(let ex = projr (extractRoleIntakeUrlDraft (example_parsers ''Apply now'') ''page'') in
    draft_description (ex_draft ex) = ''Night nurse'' @ newline # example_body \<and>
    source_description (ex_fieldSources ex) = job_posting_json_ld \<and>
    ''description_extracted_from_page'' \<notin> set (ex_warnings ex))"
proof -
  have short: "take MAX_EXTRACTED_DESCRIPTION_CHARACTERS (''Night nurse'' @ newline # example_body) = ''Night nurse'' @ newline # example_body"
    by (rule take_all) (simp add: MAX_EXTRACTED_DESCRIPTION_CHARACTERS_def example_body_def)
  show ?thesis
    unfolding example_page_read Let_def sum.sel page_extraction_def toImportedRoleDraft_def short
    by (simp add: buildMissingFieldWarnings_def)
qed

theorem page_draft_fits_and_accounts_witness:
  "draft_accounts (page_extraction (Some \<lparr>jp_description = Some ''Apply now'', jp_location = None, jp_title = None\<rparr>)
       ''Apply now'' ''Night nurse'' [] (''Night nurse'' @ newline # example_body))"
  using page_draft_fits_and_accounts [OF example_page_read] by simp

end
