(* ===== verification/RoleIntakeAts.thy ===== *)
theory RoleIntakeAts
  imports RoleIntakeExtract
begin

text \<open>
  Job boards with a public interface (\<open>role-intakes/role-intake-ats-api.ts\<close>): which links stand for
  a posting on one of them, what is asked for it and how the answer becomes a draft.
\<close>

section \<open>\<open>decodeURIComponent\<close>\<close>

text \<open>
  Percent escapes are UTF-8, as ECMAScript decodes them; the result is a list of UTF-16 code
  units, which need not be Latin-1. \<open>None\<close> is the \<open>URIError\<close>.
\<close>

definition hex_digit_value :: "char \<Rightarrow> nat option" where
  "hex_digit_value c = (case digit_value c of Some d \<Rightarrow> if d < 16 then Some d else None | None \<Rightarrow> None)"

fun escaped_octet :: "string \<Rightarrow> (nat \<times> string) option" where
  "escaped_octet (p # a # b # s) =
     (if p = CHR ''%'' then
        (case (hex_digit_value a, hex_digit_value b) of (Some x, Some y) \<Rightarrow> Some (16 * x + y, s) | _ \<Rightarrow> None)
      else None)"
| "escaped_octet _ = None"

primrec continuation_octets :: "nat \<Rightarrow> nat \<Rightarrow> string \<Rightarrow> (nat \<times> string) option" where
  "continuation_octets 0 v s = Some (v, s)"
| "continuation_octets (Suc n) v s =
     (case escaped_octet s of
        Some (b, r) \<Rightarrow> if b div 64 = 2 then continuation_octets n (64 * v + b mod 64) r else None
      | None \<Rightarrow> None)"

definition code_point :: "nat \<Rightarrow> string \<Rightarrow> (nat \<times> string) option" where
  "code_point lead s =
     (if lead div 32 = 6 then
        (case continuation_octets 1 (lead mod 32) s of
           Some (v, r) \<Rightarrow> if 0x80 \<le> v then Some (v, r) else None | None \<Rightarrow> None)
      else if lead div 16 = 14 then
        (case continuation_octets 2 (lead mod 16) s of
           Some (v, r) \<Rightarrow> if 0x800 \<le> v \<and> \<not> (0xD800 \<le> v \<and> v \<le> 0xDFFF) then Some (v, r) else None | None \<Rightarrow> None)
      else if lead div 8 = 30 then
        (case continuation_octets 3 (lead mod 8) s of
           Some (v, r) \<Rightarrow> if 0x10000 \<le> v \<and> v \<le> 0x10FFFF then Some (v, r) else None | None \<Rightarrow> None)
      else None)"

definition utf16_units :: "nat \<Rightarrow> nat list" where
  "utf16_units v = (if v < 0x10000 then [v]
     else [0xD800 + (v - 0x10000) div 1024, 0xDC00 + (v - 0x10000) mod 1024])"

lemma escaped_octet_shorter: "escaped_octet s = Some (b, r) \<Longrightarrow> length r < length s"
  by (cases s rule: escaped_octet.cases) (auto split: if_splits option.splits)

lemma continuation_octets_shorter: "continuation_octets n v s = Some (w, r) \<Longrightarrow> length r \<le> length s"
  by (induction n arbitrary: v s)
    (force split: option.splits if_splits dest: escaped_octet_shorter)+

lemma code_point_shorter: "code_point lead s = Some (v, r) \<Longrightarrow> length r \<le> length s"
  by (auto simp del: continuation_octets.simps simp: code_point_def split: option.splits if_splits
      dest: continuation_octets_shorter)

function decodeURIComponent :: "string \<Rightarrow> nat list option" where
  "decodeURIComponent [] = Some []"
| "decodeURIComponent (c # s) =
     (if c \<noteq> CHR ''%'' then map_option ((#) (of_char c)) (decodeURIComponent s)
      else case escaped_octet (c # s) of
        None \<Rightarrow> None
      | Some (b, r) \<Rightarrow>
          if b < 128 then map_option ((#) b) (decodeURIComponent r)
          else case code_point b r of
            None \<Rightarrow> None
          | Some (v, r') \<Rightarrow> map_option ((@) (utf16_units v)) (decodeURIComponent r'))"
  by pat_completeness auto
termination
  by (relation "measure length") (auto dest!: escaped_octet_shorter code_point_shorter)

section \<open>Boards\<close>

datatype RoleIntakeAtsPlatform = ashby | greenhouse | lever

record RoleIntakeAtsPosting =
  posting_canonicalUrl :: "string option"
  posting_draft :: ImportedRoleDraft

record RoleIntakeAtsSource =
  ats_apiUrl :: Url
  ats_mapPayload :: "json \<Rightarrow> RoleIntakeAtsPosting option"
  ats_maxResponseBytes :: "int option"
  ats_platform :: RoleIntakeAtsPlatform

definition lower_alnum :: "nat \<Rightarrow> bool" where
  "lower_alnum n \<longleftrightarrow> (97 \<le> n \<and> n \<le> 122) \<or> (48 \<le> n \<and> n \<le> 57)"

definition alnum :: "nat \<Rightarrow> bool" where
  "alnum n \<longleftrightarrow> lower_alnum n \<or> (65 \<le> n \<and> n \<le> 90)"

definition NUMERIC_ID :: "nat list \<Rightarrow> bool" where
  "NUMERIC_ID s \<longleftrightarrow> 1 \<le> length s \<and> length s \<le> 20 \<and> list_all (\<lambda>n. 48 \<le> n \<and> n \<le> 57) s"

definition OPAQUE_ID :: "nat list \<Rightarrow> bool" where
  "OPAQUE_ID s \<longleftrightarrow> 8 \<le> length s \<and> length s \<le> 64 \<and> list_all (\<lambda>n. alnum n \<or> n = 45) s"

definition ORGANIZATION :: "nat list \<Rightarrow> bool" where
  "ORGANIZATION s \<longleftrightarrow>
     (case s of n # r \<Rightarrow> alnum n \<and> length r \<le> 99 \<and> list_all (\<lambda>n. alnum n \<or> n = 46 \<or> n = 95 \<or> n = 45) r
      | [] \<Rightarrow> False)"

definition ASHBY_MAX_RESPONSE_BYTES :: int where "ASHBY_MAX_RESPONSE_BYTES = 16000000"

text \<open>The region of a host with one of these first labels and this domain; none is the empty text.\<close>

definition region_label :: "string \<Rightarrow> bool" where
  "region_label s \<longleftrightarrow> s \<noteq> [] \<and> list_all (\<lambda>c. lower_alnum (of_char c) \<or> c = CHR ''-'') s"

definition matchBoardHost :: "string list \<Rightarrow> string list \<Rightarrow> Url \<Rightarrow> string option" where
  "matchBoardHost firsts domain url =
     (case split_on (CHR ''.'') (url_hostname url) of
        f # rest \<Rightarrow>
          if f \<notin> set firsts then None
          else if rest = domain then Some []
          else (case rest of
              r # d \<Rightarrow> if region_label r \<and> d = domain then Some (r @ ''.'') else None
            | [] \<Rightarrow> None)
      | [] \<Rightarrow> None)"

fun read_segments :: "string list \<Rightarrow> string list \<Rightarrow> import_error + nat list list option" where
  "read_segments (e # es) (s # ss) =
     (if e = [] then
        (case decodeURIComponent s of
           None \<Rightarrow> Inl (OtherFailure ''URIError'')
         | Some d \<Rightarrow> map_sum id (map_option ((#) d)) (read_segments es ss))
      else if js_toLowerCase s \<noteq> e then Inr None
      else read_segments es ss)"
| "read_segments _ _ = Inr (Some [])"

definition matchBoardPath ::
    "Url \<Rightarrow> string list \<Rightarrow> (nat list \<Rightarrow> bool) \<Rightarrow> import_error + (string \<times> string) option" where
  "matchBoardPath url template idPattern =
     (let segments = filter (\<lambda>s. s \<noteq> []) (split_on (CHR ''/'') (url_pathname url))
      in if length segments \<noteq> length template then Inr None
         else case read_segments template segments of
           Inl e \<Rightarrow> Inl e
         | Inr (Some [organization, i]) \<Rightarrow>
             Inr (if organization \<noteq> [] \<and> i \<noteq> [] \<and> ORGANIZATION organization \<and> idPattern i
                  then Some (map char_of organization, map char_of i) else None)
         | Inr _ \<Rightarrow> Inr None)"

section \<open>Answers\<close>

definition readHtml :: "parsers \<Rightarrow> json option \<Rightarrow> string" where
  "readHtml P v = (case v of Some (JString s) \<Rightarrow> extractRoleIntakeHtmlText P s | _ \<Rightarrow> [])"

definition ats_record :: "json option \<Rightarrow> (string \<times> json) list option" where
  "ats_record v = (case v of Some (JObject ms) \<Rightarrow> Some ms | _ \<Rightarrow> None)"

definition asArray :: "json option \<Rightarrow> json list" where
  "asArray v = (case v of Some (JArray xs) \<Rightarrow> xs | _ \<Rightarrow> [])"

definition asText :: "json option \<Rightarrow> string option" where
  "asText v = (case v of Some (JString s) \<Rightarrow> text_or_null (js_trim s) | _ \<Rightarrow> None)"

text \<open>\<open>record?.key\<close>\<close>

definition member_of :: "(string \<times> json) list option \<Rightarrow> string \<Rightarrow> json option" where
  "member_of r key = Option.bind r (\<lambda>ms. json_member ms key)"

definition toPosting ::
    "string option \<Rightarrow> string \<Rightarrow> string option \<Rightarrow> string option \<Rightarrow> RoleIntakeAtsPosting option" where
  "toPosting canonicalUrl description location title =
     (if description = [] then None
      else Some \<lparr>posting_canonicalUrl = canonicalUrl,
                 posting_draft = toImportedRoleDraft description location title\<rparr>)"

definition map_greenhouse :: "parsers \<Rightarrow> json \<Rightarrow> RoleIntakeAtsPosting option" where
  "map_greenhouse P payload =
     (case ats_record (Some payload) of
        None \<Rightarrow> None
      | Some r \<Rightarrow> toPosting (asText (json_member r ''absolute_url'')) (readHtml P (json_member r ''content''))
          (asText (member_of (ats_record (json_member r ''location'')) ''name'')) (asText (json_member r ''title'')))"

definition lever_section :: "parsers \<Rightarrow> json \<Rightarrow> string" where
  "lever_section P entry =
     (let l = ats_record (Some entry)
      in join_with [newline] (filter (\<lambda>s. s \<noteq> [])
           [case asText (member_of l ''text'') of Some s \<Rightarrow> s | None \<Rightarrow> [], readHtml P (member_of l ''content'')]))"

definition map_lever :: "parsers \<Rightarrow> json \<Rightarrow> RoleIntakeAtsPosting option" where
  "map_lever P payload =
     (case ats_record (Some payload) of
        None \<Rightarrow> None
      | Some r \<Rightarrow>
          let categories = ats_record (json_member r ''categories'');
              sections = filter (\<lambda>s. s \<noteq> [])
                ([readHtml P (json_member r ''description'')] @ map (lever_section P) (asArray (json_member r ''lists'')) @
                 [readHtml P (json_member r ''additional'')])
          in toPosting (asText (json_member r ''hostedUrl'')) (join_with [newline, newline] sections)
               (case asText (member_of categories ''location'') of
                  Some s \<Rightarrow> Some s
                | None \<Rightarrow> asText (case asArray (member_of categories ''allLocations'') of x # _ \<Rightarrow> Some x | [] \<Rightarrow> None))
               (asText (json_member r ''text'')))"

definition map_ashby :: "parsers \<Rightarrow> string \<Rightarrow> json \<Rightarrow> RoleIntakeAtsPosting option" where
  "map_ashby P i payload =
     (case find (\<lambda>c. member_of c ''id'' = Some (JString i))
            (map (\<lambda>x. ats_record (Some x)) (asArray (member_of (ats_record (Some payload)) ''jobs''))) of
        Some (Some job) \<Rightarrow>
          toPosting (asText (json_member job ''jobUrl''))
            (let h = readHtml P (json_member job ''descriptionHtml'')
             in if h \<noteq> [] then h else readHtml P (json_member job ''descriptionPlain''))
            (asText (json_member job ''location'')) (asText (json_member job ''title''))
      | _ \<Rightarrow> None)"

section \<open>Resolution\<close>

text \<open>\<open>new URL(text)\<close> of an interface; a board that is not matched is \<open>null\<close>.\<close>

definition ats_source ::
    "url_library \<Rightarrow> string \<Rightarrow> (json \<Rightarrow> RoleIntakeAtsPosting option) \<Rightarrow> int option \<Rightarrow> RoleIntakeAtsPlatform
     \<Rightarrow> import_error + RoleIntakeAtsSource option" where
  "ats_source lib api m limit platform =
     (case parse_url lib api of
        None \<Rightarrow> Inl (OtherFailure ''TypeError'')
      | Some u \<Rightarrow> Inr (Some \<lparr>ats_apiUrl = u, ats_mapPayload = m, ats_maxResponseBytes = limit, ats_platform = platform\<rparr>))"

definition with_board ::
    "import_error + (string \<times> string) option \<Rightarrow> (string \<Rightarrow> string \<Rightarrow> import_error + RoleIntakeAtsSource option)
     \<Rightarrow> import_error + RoleIntakeAtsSource option" where
  "with_board board k =
     (case board of Inl e \<Rightarrow> Inl e | Inr None \<Rightarrow> Inr None | Inr (Some (organization, i)) \<Rightarrow> k organization i)"

definition greenhouse_api :: "string \<Rightarrow> string \<Rightarrow> string \<Rightarrow> string" where
  "greenhouse_api region organization i =
     ''https://boards-api.'' @ region @ ''greenhouse.io/v1/boards/'' @ organization @ ''/jobs/'' @ i"

definition lever_api :: "string \<Rightarrow> string \<Rightarrow> string \<Rightarrow> string" where
  "lever_api region organization i =
     ''https://api.'' @ region @ ''lever.co/v0/postings/'' @ organization @ ''/'' @ i"

definition ashby_api :: "string \<Rightarrow> string" where
  "ashby_api organization = ''https://api.ashbyhq.com/posting-api/job-board/'' @ organization"

definition resolveGreenhouse :: "url_library \<Rightarrow> parsers \<Rightarrow> Url \<Rightarrow> import_error + RoleIntakeAtsSource option" where
  "resolveGreenhouse lib P url =
     (case matchBoardHost [''job-boards'', ''boards''] [''greenhouse'', ''io''] url of
        None \<Rightarrow> Inr None
      | Some region \<Rightarrow> with_board (matchBoardPath url [[], ''jobs'', []] NUMERIC_ID)
          (\<lambda>organization i. ats_source lib (greenhouse_api region organization i) (map_greenhouse P) None greenhouse))"

definition resolveLever :: "url_library \<Rightarrow> parsers \<Rightarrow> Url \<Rightarrow> import_error + RoleIntakeAtsSource option" where
  "resolveLever lib P url =
     (case matchBoardHost [''jobs''] [''lever'', ''co''] url of
        None \<Rightarrow> Inr None
      | Some region \<Rightarrow> with_board (matchBoardPath url [[], []] OPAQUE_ID)
          (\<lambda>organization i. ats_source lib (lever_api region organization i) (map_lever P) None lever))"

definition resolveAshby :: "url_library \<Rightarrow> parsers \<Rightarrow> Url \<Rightarrow> import_error + RoleIntakeAtsSource option" where
  "resolveAshby lib P url =
     (if url_hostname url \<noteq> ''jobs.ashbyhq.com'' then Inr None
      else with_board (matchBoardPath url [[], []] OPAQUE_ID)
        (\<lambda>organization i. ats_source lib (ashby_api organization) (map_ashby P i) (Some ASHBY_MAX_RESPONSE_BYTES) ashby))"

definition resolveRoleIntakeAtsSource ::
    "url_library \<Rightarrow> parsers \<Rightarrow> Url \<Rightarrow> import_error + RoleIntakeAtsSource option" where
  "resolveRoleIntakeAtsSource lib P url =
     (case resolveGreenhouse lib P url of
        Inr None \<Rightarrow> (case resolveLever lib P url of Inr None \<Rightarrow> resolveAshby lib P url | r \<Rightarrow> r)
      | r \<Rightarrow> r)"

section \<open>What may be asked\<close>

text \<open>
  The text of an interface link: a host under one of the three providers, written with host
  characters only, and a path of plain segments. Nothing in it can name another host, a port,
  a user, a query or a parent directory.
\<close>

definition provider_domains :: "string list" where
  "provider_domains = [''.greenhouse.io'', ''.lever.co'', ''.ashbyhq.com'']"

definition host_char :: "char \<Rightarrow> bool" where
  "host_char c \<longleftrightarrow> lower_alnum (of_char c) \<or> c = CHR ''-'' \<or> c = CHR ''.''"

definition segment_char :: "char \<Rightarrow> bool" where
  "segment_char c \<longleftrightarrow> alnum (of_char c) \<or> c = CHR ''-'' \<or> c = CHR ''.'' \<or> c = CHR ''_''"

definition plain_segment :: "string \<Rightarrow> bool" where
  "plain_segment s \<longleftrightarrow> list_all segment_char s \<and> s \<noteq> [] \<and> s \<noteq> ''.'' \<and> s \<noteq> ''..''"

definition fixed_api_text :: "string \<Rightarrow> bool" where
  "fixed_api_text t \<longleftrightarrow> prefix ''https://'' t \<and>
     (case split_on (CHR ''/'') (drop 8 t) of
        authority # segments \<Rightarrow>
          list_all host_char authority \<and> list_ex (\<lambda>d. suffix d authority) provider_domains \<and>
          list_all plain_segment segments
      | [] \<Rightarrow> False)"

lemma segment_no_slash: "list_all segment_char s \<Longrightarrow> CHR ''/'' \<notin> set s"
  by (auto simp: list_all_iff segment_char_def alnum_def lower_alnum_def)

lemma plain_no_slash: "plain_segment s \<Longrightarrow> CHR ''/'' \<notin> set s"
  by (simp add: plain_segment_def segment_no_slash)

lemma unit_chars: "char_of (45::nat) = CHR ''-''" "char_of (46::nat) = CHR ''.''" "char_of (95::nat) = CHR ''_''"
  by code_simp+

lemma unit_small: "alnum n \<or> n = 45 \<or> n = 46 \<or> n = 95 \<Longrightarrow> n mod 256 = n"
  by (auto simp: alnum_def lower_alnum_def)

lemma segment_char_of: "alnum n \<or> n = 45 \<or> n = 46 \<or> n = 95 \<Longrightarrow> segment_char (char_of n)"
  using unit_small [of n] by (auto simp: segment_char_def unit_chars)

lemma not_dot: "alnum n \<or> n = 45 \<Longrightarrow> char_of n \<noteq> CHR ''.''"
proof
  assume n: "alnum n \<or> n = 45" and "char_of n = CHR ''.''"
  then have "of_char (char_of n) = (46::nat)" by simp
  then have "n = 46" using unit_small [of n] n by auto
  then show False using n by (simp add: alnum_def lower_alnum_def)
qed

lemma organization_plain: "ORGANIZATION ns \<Longrightarrow> plain_segment (map char_of ns)"
proof -
  assume org: "ORGANIZATION ns"
  then obtain n r where ns: "ns = n # r" and n: "alnum n" and r: "list_all (\<lambda>n. alnum n \<or> n = 46 \<or> n = 95 \<or> n = 45) r"
    by (auto simp: ORGANIZATION_def split: list.splits)
  have "char_of n \<noteq> CHR ''.''" using n not_dot by blast
  moreover have "list_all segment_char (map char_of ns)"
    using n r by (auto simp: ns list_all_iff intro: segment_char_of)
  ultimately show ?thesis by (auto simp: plain_segment_def ns)
qed

lemma id_plain:
  assumes "list_all (\<lambda>n. alnum n \<or> n = 45) ns" and "ns \<noteq> []"
  shows "plain_segment (map char_of ns)"
proof -
  have "segment_char (char_of n) \<and> char_of n \<noteq> CHR ''.''" if "n \<in> set ns" for n
    using assms(1) that segment_char_of not_dot by (auto simp: list_all_iff)
  moreover from this have "hd (map char_of ns) \<noteq> CHR ''.''" using assms(2) by (cases ns) auto
  ultimately show ?thesis
    using assms(2) by (auto simp: plain_segment_def list_all_iff)
qed

lemma board_plain:
  assumes "matchBoardPath url template idp = Inr (Some (organization, i))"
    and "\<And>s. idp s \<Longrightarrow> list_all (\<lambda>n. alnum n \<or> n = 45) s"
  shows "plain_segment organization \<and> plain_segment i"
proof -
  obtain os xs where "organization = map char_of os" "i = map char_of xs" "ORGANIZATION os" "idp xs" "xs \<noteq> []"
    using assms(1) by (auto simp: matchBoardPath_def Let_def split: if_splits sum.splits option.splits list.splits)
  then show ?thesis using organization_plain id_plain assms(2) by blast
qed

lemma ids_plain: "NUMERIC_ID s \<Longrightarrow> list_all (\<lambda>n. alnum n \<or> n = 45) s" "OPAQUE_ID s \<Longrightarrow> list_all (\<lambda>n. alnum n \<or> n = 45) s"
  by (auto simp: NUMERIC_ID_def OPAQUE_ID_def list_all_iff alnum_def lower_alnum_def)

definition region_text :: "string \<Rightarrow> bool" where
  "region_text r \<longleftrightarrow> list_all host_char r \<and> (r = [] \<or> (\<exists>q. r = q @ ''.''))"

lemma region_host: "matchBoardHost firsts domain url = Some region \<Longrightarrow> region_text region"
  by (auto simp: matchBoardHost_def region_label_def region_text_def list_all_iff host_char_def split: list.splits if_splits)

lemma region_domain: "region_text r \<Longrightarrow> suffix (CHR ''.'' # d) (a @ ''.'' @ r @ d)"
  by (auto simp: region_text_def suffix_def)

lemma host_no_slash: "list_all host_char s \<Longrightarrow> CHR ''/'' \<notin> set s"
  by (auto simp: list_all_iff host_char_def lower_alnum_def)

lemma fixed_text:
  assumes "list_all host_char authority" and "d \<in> set provider_domains" and "suffix d authority"
    and "list_all plain_segment segments" and "segments \<noteq> []"
  shows "fixed_api_text (''https://'' @ join_with ''/'' (authority # segments))"
proof -
  have "\<forall>s\<in>set (authority # segments). CHR ''/'' \<notin> set s"
    using assms plain_no_slash host_no_slash by (auto simp: list_all_iff)
  from split_join [OF _ this] show ?thesis
    using assms by (auto simp: fixed_api_text_def list_ex_iff)
qed

lemma greenhouse_fixed:
  "region_text region \<Longrightarrow> plain_segment organization \<Longrightarrow> plain_segment i \<Longrightarrow>
     fixed_api_text (greenhouse_api region organization i)"
  using fixed_text [of "''boards-api.'' @ region @ ''greenhouse.io''" "''.greenhouse.io''" "[''v1'', ''boards'', organization, ''jobs'', i]"]
  using region_domain [of region "''greenhouse.io''" "''boards-api''"]
  by (simp add: greenhouse_api_def provider_domains_def host_char_def segment_char_def plain_segment_def alnum_def
      lower_alnum_def region_text_def)

lemma lever_fixed:
  "region_text region \<Longrightarrow> plain_segment organization \<Longrightarrow> plain_segment i \<Longrightarrow>
     fixed_api_text (lever_api region organization i)"
  using fixed_text [of "''api.'' @ region @ ''lever.co''" "''.lever.co''" "[''v0'', ''postings'', organization, i]"]
  using region_domain [of region "''lever.co''" "''api''"]
  by (simp add: lever_api_def provider_domains_def host_char_def segment_char_def plain_segment_def alnum_def
      lower_alnum_def region_text_def)

lemma ashby_fixed: "plain_segment organization \<Longrightarrow> fixed_api_text (ashby_api organization)"
  using fixed_text [of "''api.ashbyhq.com''" "''.ashbyhq.com''" "[''posting-api'', ''job-board'', organization]"]
  by (simp add: ashby_api_def provider_domains_def host_char_def segment_char_def plain_segment_def alnum_def
      lower_alnum_def suffix_def)

definition asks_fixed_api :: "url_library \<Rightarrow> RoleIntakeAtsSource \<Rightarrow> bool" where
  "asks_fixed_api lib src \<longleftrightarrow> (\<exists>t. fixed_api_text t \<and> parse_url lib t = Some (ats_apiUrl src))"

lemma with_board_fixed:
  assumes "with_board (matchBoardPath url template idp) (\<lambda>organization i. ats_source lib (api organization i) (m i) limit platform)
      = Inr (Some src)"
    and "\<And>s. idp s \<Longrightarrow> list_all (\<lambda>n. alnum n \<or> n = 45) s"
    and "\<And>organization i. plain_segment organization \<Longrightarrow> plain_segment i \<Longrightarrow> fixed_api_text (api organization i)"
  shows "asks_fixed_api lib src"
proof -
  obtain organization i where board: "matchBoardPath url template idp = Inr (Some (organization, i))"
    and "ats_source lib (api organization i) (m i) limit platform = Inr (Some src)"
    using assms(1) by (auto simp: with_board_def split: sum.splits option.splits)
  then have "parse_url lib (api organization i) = Some (ats_apiUrl src)"
    by (auto simp: ats_source_def split: option.splits)
  moreover have "fixed_api_text (api organization i)"
    using board_plain [OF board assms(2)] assms(3) by blast
  ultimately show ?thesis unfolding asks_fixed_api_def by blast
qed

lemma resolved_api_fixed:
  assumes "resolveRoleIntakeAtsSource lib P url = Inr (Some src)"
  shows "asks_fixed_api lib src"
proof -
  have "resolveGreenhouse lib P url = Inr (Some src) \<or> resolveLever lib P url = Inr (Some src) \<or>
      resolveAshby lib P url = Inr (Some src)"
    using assms by (auto simp: resolveRoleIntakeAtsSource_def split: sum.splits option.splits)
  moreover have "asks_fixed_api lib src" if "resolveGreenhouse lib P url = Inr (Some src)"
    using that region_host greenhouse_fixed
    by (auto simp: resolveGreenhouse_def split: option.splits elim!: with_board_fixed intro: ids_plain)
  moreover have "asks_fixed_api lib src" if "resolveLever lib P url = Inr (Some src)"
    using that region_host lever_fixed
    by (auto simp: resolveLever_def split: option.splits elim!: with_board_fixed intro: ids_plain)
  moreover have "asks_fixed_api lib src" if "resolveAshby lib P url = Inr (Some src)"
    using that ashby_fixed
    by (auto simp: resolveAshby_def split: if_splits elim!: with_board_fixed intro: ids_plain)
  ultimately show ?thesis by blast
qed

text \<open>
  C23: whatever link is submitted, the job board interface asked for it is a fixed one: the text
  handed to \<open>new URL\<close> has \<open>https\<close>, a host below \<open>greenhouse.io\<close>, \<open>lever.co\<close> or \<open>ashbyhq.com\<close>
  written with host characters only, and a path of plain segments.
\<close>

theorem ats_interfaces_are_fixed:
  assumes "resolveRoleIntakeAtsSource lib P url = Inr (Some src)"
  shows "\<exists>t. fixed_api_text t \<and> parse_url lib t = Some (ats_apiUrl src)"
  using resolved_api_fixed [OF assms] unfolding asks_fixed_api_def .

definition example_url :: "string \<Rightarrow> string \<Rightarrow> Url" where
  "example_url host path = \<lparr>url_protocol = ''https:'', url_username = [], url_password = [], url_port = [],
     url_hostname = host, url_pathname = path, url_search = [], url_params = [], url_hash = []\<rparr>"

definition example_library :: url_library where
  "example_library = \<lparr>parse_url = (\<lambda>t. Some (example_url (takeWhile (\<lambda>c. c \<noteq> CHR ''/'') (drop 8 t))
                                              (dropWhile (\<lambda>c. c \<noteq> CHR ''/'') (drop 8 t)))),
     parse_relative = (\<lambda>t u. Some (u\<lparr>url_pathname := t, url_search := [], url_params := []\<rparr>)),
     href = (\<lambda>u. ''https://'' @ url_hostname u @ url_pathname u @ url_search u),
     url_origin = (\<lambda>u. ''https://'' @ url_hostname u),
     query_text = (\<lambda>ps. join_with ''&'' (map (\<lambda>(n, v). n @ ''='' @ v) ps)),
     set_hostname = (\<lambda>u h. u\<lparr>url_hostname := h\<rparr>)\<rparr>"

lemma example_board:
  "matchBoardHost [''job-boards'', ''boards''] [''greenhouse'', ''io''] (example_url ''job-boards.eu.greenhouse.io'' ''/Acme/jobs/4012'') = Some ''eu.''"
  "matchBoardPath (example_url ''job-boards.eu.greenhouse.io'' ''/Acme/jobs/4012'') [[], ''jobs'', []] NUMERIC_ID = Inr (Some (''Acme'', ''4012''))"
  "parse_url example_library (greenhouse_api ''eu.'' ''Acme'' ''4012'') = Some (example_url ''boards-api.eu.greenhouse.io'' ''/v1/boards/Acme/jobs/4012'')"
  by code_simp+

lemma example_resolved:
  "resolveRoleIntakeAtsSource example_library P (example_url ''job-boards.eu.greenhouse.io'' ''/Acme/jobs/4012'') =
     Inr (Some \<lparr>ats_apiUrl = example_url ''boards-api.eu.greenhouse.io'' ''/v1/boards/Acme/jobs/4012'',
        ats_mapPayload = map_greenhouse P, ats_maxResponseBytes = None, ats_platform = greenhouse\<rparr>)"
  by (simp add: resolveRoleIntakeAtsSource_def resolveGreenhouse_def with_board_def ats_source_def example_board del: split_on.simps)

theorem ats_interfaces_are_fixed_witness:
  "\<exists>t. fixed_api_text t \<and> parse_url example_library t =
     Some (example_url ''boards-api.eu.greenhouse.io'' ''/v1/boards/Acme/jobs/4012'')"
  using ats_interfaces_are_fixed [OF example_resolved] by simp

text \<open>
  A malformed escape in the path of a job board link is no import error: the \<open>URIError\<close> of
  \<open>decodeURIComponent\<close> leaves the resolution as it is, instead of the answer \<open>null\<close> with which
  the page itself would be read.
\<close>

lemma malformed_board:
  "matchBoardHost [''job-boards'', ''boards''] [''greenhouse'', ''io''] (example_url ''jobs.lever.co'' ''/acme%zz/12345678'') = None"
  "matchBoardHost [''jobs''] [''lever'', ''co''] (example_url ''jobs.lever.co'' ''/acme%zz/12345678'') = Some []"
  "matchBoardPath (example_url ''jobs.lever.co'' ''/acme%zz/12345678'') [[], []] OPAQUE_ID = Inl (OtherFailure ''URIError'')"
  by code_simp+

theorem malformed_escape_escapes:
  "resolveRoleIntakeAtsSource lib P (example_url ''jobs.lever.co'' ''/acme%zz/12345678'') = Inl (OtherFailure ''URIError'')"
  by (simp add: resolveRoleIntakeAtsSource_def resolveGreenhouse_def resolveLever_def with_board_def malformed_board)

end
