(* ===== verification/RoleIntakeRobots.thy ===== *)
theory RoleIntakeRobots
  imports RoleIntakeExtract
begin

text \<open>
  The robots policy of a site (\<open>parseRobots\<close>, \<open>robotsAllowPath\<close> and \<open>robotRuleMatches\<close> of
  \<open>role-intakes/role-intake-url-importer.ts\<close>).
\<close>

section \<open>Parsing\<close>

datatype robot_kind = allow | disallow

record robot_rule =
  rule_kind :: robot_kind
  rule_path :: string

record robot_group =
  agents :: "string list"
  rules :: "robot_rule list"

text \<open>
  A line up to its comment, as field and value around the first colon. A carriage return
  before the line feed falls to \<open>trim\<close>.
\<close>

definition robot_line :: "string \<Rightarrow> (string \<times> string) option" where
  "robot_line sourceLine =
     (let line = js_trim (takeWhile (\<lambda>c. c \<noteq> CHR ''#'') sourceLine);
          field = takeWhile (\<lambda>c. c \<noteq> CHR '':'') line; rest = dropWhile (\<lambda>c. c \<noteq> CHR '':'') line
      in if field = [] \<or> rest = [] then None
         else Some (js_toLowerCase (js_trim field), js_trim (tl rest)))"

text \<open>The groups so far with the current one first.\<close>

definition robot_step :: "robot_group list \<Rightarrow> string \<Rightarrow> robot_group list" where
  "robot_step gs sourceLine =
     (case robot_line sourceLine of
        None \<Rightarrow> gs
      | Some (field, v) \<Rightarrow>
          if field = ''user-agent'' \<and> v \<noteq> [] then
            (case gs of
               current # done \<Rightarrow>
                 if rules current \<noteq> [] then \<lparr>agents = [js_toLowerCase v], rules = []\<rparr> # gs
                 else current\<lparr>agents := agents current @ [js_toLowerCase v]\<rparr> # done
             | [] \<Rightarrow> [\<lparr>agents = [js_toLowerCase v], rules = []\<rparr>])
          else
            (case gs of
               current # done \<Rightarrow>
                 if (field = ''allow'' \<or> field = ''disallow'') \<and> js_startsWith v ''/'' then
                   current\<lparr>rules := rules current @
                     [\<lparr>rule_kind = (if field = ''allow'' then allow else disallow), rule_path = v\<rparr>]\<rparr> # done
                 else gs
             | [] \<Rightarrow> []))"

definition parseRobots :: "string \<Rightarrow> robot_group list" where
  "parseRobots content = rev (foldl robot_step [] (split_on newline content))"

section \<open>Matching\<close>

text \<open>
  The regular expression \<open>robotRuleMatches\<close> builds: every special character of the path is
  escaped, \<open>*\<close> becomes \<open>.*\<close>, and the expression is anchored at the start only. The last
  replacement, meant to turn a final \<open>$\<close> into an anchor, replaces the escaped \<open>\$\<close> at the end
  by itself: \<open>$\<close> in a replacement text that nothing follows stands for a dollar sign.
\<close>

fun robotRuleMatches :: "string \<Rightarrow> string \<Rightarrow> bool" where
  "robotRuleMatches target [] = True"
| "robotRuleMatches target (p # path) =
     (if p = CHR ''*'' then
        robotRuleMatches target path \<or>
        (case target of c # rest \<Rightarrow> \<not> is_line_end c \<and> robotRuleMatches rest (p # path) | [] \<Rightarrow> False)
      else (case target of c # rest \<Rightarrow> c = p \<and> robotRuleMatches rest path | [] \<Rightarrow> False))"

definition rule_length :: "robot_rule \<Rightarrow> nat" where
  "rule_length r = length (filter (\<lambda>c. c \<noteq> CHR ''*'' \<and> c \<noteq> CHR ''$'') (rule_path r))"

definition importer_agent :: string where "importer_agent = ''preluderoleimporter''"

definition robot_matches :: "string \<Rightarrow> string \<Rightarrow> robot_rule list" where
  "robot_matches content target =
     (let gs = parseRobots content;
          exactGroups = filter (\<lambda>g. importer_agent \<in> set (agents g)) gs;
          matchingGroups = (if exactGroups \<noteq> [] then exactGroups else filter (\<lambda>g. ''*'' \<in> set (agents g)) gs)
      in concat (map (\<lambda>g. filter (\<lambda>r. robotRuleMatches target (rule_path r)) (rules g)) matchingGroups))"

definition robotsAllowPath :: "string \<Rightarrow> string \<Rightarrow> bool" where
  "robotsAllowPath content target =
     (let matches = robot_matches content target
      in if matches = [] then True
         else list_ex (\<lambda>r. rule_length r = fold max (map rule_length matches) 0 \<and> rule_kind r = allow) matches)"

section \<open>Where it departs from the protocol\<close>

definition robots_text :: "string list \<Rightarrow> string" where
  "robots_text ls = join_with [newline] ls"

text \<open>
  A rule that ends in the anchor \<open>$\<close> matches a literal dollar sign only: a site that closes
  exactly this page is read all the same.
\<close>

theorem end_anchor_never_matches:
  "robotsAllowPath (robots_text [''User-agent: *'', ''Disallow: /jobs/42$'']) ''/jobs/42'' \<and>
   \<not> robotsAllowPath (robots_text [''User-agent: *'', ''Disallow: /jobs/42'']) ''/jobs/42''"
  by code_simp

text \<open>
  An empty \<open>Disallow\<close>, which grants everything, adds no rule, so the next group's agents join
  this one: a site that welcomes this importer by name and closes itself to all others is refused.
\<close>

theorem empty_disallow_joins_groups:
  "\<not> robotsAllowPath (robots_text [''User-agent: PreludeRoleImporter'', ''Disallow:'', [], ''User-agent: *'', ''Disallow: /''])
      ''/jobs/42'' \<and>
   parseRobots (robots_text [''User-agent: PreludeRoleImporter'', ''Disallow:'', [], ''User-agent: *'', ''Disallow: /'']) =
     [\<lparr>agents = [''preluderoleimporter'', ''*''], rules = [\<lparr>rule_kind = disallow, rule_path = ''/''\<rparr>]\<rparr>]"
  by code_simp

end
