(* ===== verification/RoleIntakeFetch.thy ===== *)
theory RoleIntakeFetch
  imports RoleIntakeAts RoleIntakeRobots
begin

text \<open>
  Fetching a public job page (\<open>role-intakes/role-intake-url-importer.ts\<close>). The network is a
  parameter: what a lookup, a request or a search answers may depend on everything asked
  before, which is the state of the programs.
\<close>

section \<open>Requests and answers\<close>

record ResolvedAddress =
  ra_address :: string
  ra_family :: nat

record RoleIntakeUrlRequest =
  rq_address :: string
  rq_family :: nat
  rq_headers :: "(string \<times> string) list"
  rq_maxBytes :: int
  rq_url :: string

record RoleIntakeUrlResponse =
  rs_body :: string
  rs_headers :: "string \<Rightarrow> string option"
  rs_statusCode :: int

record search_result =
  sr_canonicalUrl :: string
  sr_citations :: "string list"
  sr_draft :: ImportedRoleDraft

datatype net_event = Looked_up string | Sent RoleIntakeUrlRequest | Searched Url

type_synonym net_log = "net_event list"

record network =
  net_resolve :: "net_log \<Rightarrow> string \<Rightarrow> import_error + ResolvedAddress list"
  net_request :: "net_log \<Rightarrow> RoleIntakeUrlRequest \<Rightarrow> import_error + RoleIntakeUrlResponse"
  net_search :: "(net_log \<Rightarrow> Url \<Rightarrow> import_error + search_result) option"   \<comment> \<open>\<open>null\<close>: not configured\<close>

text \<open>A call: it is recorded, and answered from what was asked before.\<close>

definition ask :: "net_event \<Rightarrow> (net_log \<Rightarrow> import_error + 'a) \<Rightarrow> (import_error, net_log, 'a) prog" where
  "ask ev answer past = (answer past, past @ [ev])"

definition IMPORTER_USER_AGENT :: string where "IMPORTER_USER_AGENT = ''PreludeRoleImporter/1.0''"
definition MAX_REDIRECTS :: nat where "MAX_REDIRECTS = 3"
definition MAX_RESPONSE_BYTES :: int where "MAX_RESPONSE_BYTES = 1500000"
definition MAX_RESPONSE_HEADER_BYTES :: nat where "MAX_RESPONSE_HEADER_BYTES = 32 * 1024"

section \<open>The pinned request\<close>

definition getPinnedLookupResult :: "string \<Rightarrow> nat \<Rightarrow> bool \<Rightarrow> ResolvedAddress list + string" where
  "getPinnedLookupResult address family every =
     (if every then Inl [\<lparr>ra_address = address, ra_family = family\<rparr>] else Inr address)"

text \<open>The options of \<open>https.request\<close>; \<open>lookup\<close> is called with \<open>options.all\<close>.\<close>

record https_options =
  ho_headers :: "(string \<times> string) list"
  ho_hostname :: string
  ho_lookup :: "bool \<Rightarrow> ResolvedAddress list + string"
  ho_method :: string
  ho_path :: string
  ho_port :: int
  ho_rejectUnauthorized :: bool
  ho_servername :: string

definition pinned_options :: "RoleIntakeUrlRequest \<Rightarrow> Url \<Rightarrow> https_options" where
  "pinned_options inp url =
     \<lparr>ho_headers = rq_headers inp, ho_hostname = url_hostname url,
      ho_lookup = getPinnedLookupResult (rq_address inp) (rq_family inp),
      ho_method = ''GET'', ho_path = url_pathname url @ url_search url, ho_port = 443,
      ho_rejectUnauthorized = True, ho_servername = url_hostname url\<rparr>"

datatype header_value = One string | Many "string list"

text \<open>What comes over the wire: the chunks in order, and how the stream ends.\<close>

record wire_response =
  wire_rawHeaders :: "string list"
  wire_headers :: "(string \<times> header_value) list"
  wire_statusCode :: "int option"
  wire_chunks :: "string list"
  wire_error :: "string option"

definition byteLength :: "string \<Rightarrow> nat" where   \<comment> \<open>in UTF-8\<close>
  "byteLength s = sum_list (map (\<lambda>c. if of_char c < (128 :: nat) then 1 else 2) s)"

definition normaliseHeaders :: "(string \<times> header_value) list \<Rightarrow> string \<Rightarrow> string option" where
  "normaliseHeaders hs =
     map_of (rev (map (\<lambda>(k, v). (js_toLowerCase k, case v of One s \<Rightarrow> s | Many ss \<Rightarrow> join_with '','' ss)) hs))"

fun collect_chunks :: "int \<Rightarrow> string \<Rightarrow> string list \<Rightarrow> string option" where
  "collect_chunks maxBytes body [] = Some body"
| "collect_chunks maxBytes body (chunk # chunks) =
     (if maxBytes < int (length (body @ chunk)) then None else collect_chunks maxBytes (body @ chunk) chunks)"

text \<open>\<open>utf8\<close> is the text of the bytes.\<close>

definition receive :: "(string \<Rightarrow> string) \<Rightarrow> int \<Rightarrow> wire_response \<Rightarrow> import_error + RoleIntakeUrlResponse" where
  "receive utf8 maxBytes w =
     (if MAX_RESPONSE_HEADER_BYTES < sum_list (map byteLength (wire_rawHeaders w)) then Inl (importError response_too_large)
      else
        let declaredLength = js_Number (Some (case map_of (wire_headers w) ''content-length'' of
              None \<Rightarrow> ''0'' | Some (One s) \<Rightarrow> s | Some (Many ss) \<Rightarrow> join_with '','' ss))
        in if (case declaredLength of Some n \<Rightarrow> of_int maxBytes < n | None \<Rightarrow> False)
           then Inl (importError response_too_large)
           else case collect_chunks maxBytes [] (wire_chunks w) of
             None \<Rightarrow> Inl (importError response_too_large)
           | Some body \<Rightarrow>
               (case wire_error w of
                  Some e \<Rightarrow> Inl (OtherFailure e)
                | None \<Rightarrow> Inr \<lparr>rs_body = utf8 body, rs_headers = normaliseHeaders (wire_headers w),
                    rs_statusCode = (case wire_statusCode w of Some n \<Rightarrow> n | None \<Rightarrow> 0)\<rparr>))"

text \<open>The transport: an error before the response, or the response.\<close>

definition requestPinnedHttps ::
    "url_library \<Rightarrow> (string \<Rightarrow> string) \<Rightarrow> (https_options \<Rightarrow> string + wire_response) \<Rightarrow> RoleIntakeUrlRequest
     \<Rightarrow> import_error + RoleIntakeUrlResponse" where
  "requestPinnedHttps lib utf8 https inp =
     (case parse_url lib (rq_url inp) of
        None \<Rightarrow> Inl (OtherFailure ''TypeError'')
      | Some url \<Rightarrow>
          (case https (pinned_options inp url) of
             Inl e \<Rightarrow> Inl (OtherFailure e)
           | Inr w \<Rightarrow> receive utf8 (rq_maxBytes inp) w))"

definition resolvePublicHostname ::
    "(string \<Rightarrow> string + ResolvedAddress list) \<Rightarrow> string \<Rightarrow> import_error + ResolvedAddress list" where
  "resolvePublicHostname lookup hostname =
     (case lookup hostname of
        Inl e \<Rightarrow> Inl (OtherFailure e)
      | Inr addresses \<Rightarrow> Inr (filter (\<lambda>a. ra_family a = 4 \<or> ra_family a = 6) addresses))"

section \<open>Public requests\<close>

definition requestPublicUrl ::
    "url_library \<Rightarrow> network \<Rightarrow> string \<Rightarrow> int option \<Rightarrow> Url \<Rightarrow> (import_error, net_log, RoleIntakeUrlResponse) prog" where
  "requestPublicUrl lib net accept maxBytes url =
     prog_bind (ask (Looked_up (url_hostname url)) (\<lambda>past. net_resolve net past (url_hostname url))) (\<lambda>addresses.
       if addresses = [] \<or> list_ex (\<lambda>a. \<not> isGloballyRoutableIpAddress (ra_address a)) addresses
       then prog_throw (importError private_destination)
       else
         let address = (case find (\<lambda>a. ra_family a = 4) addresses of Some a \<Rightarrow> a | None \<Rightarrow> hd addresses);
             inp = \<lparr>rq_address = ra_address address, rq_family = ra_family address,
                    rq_headers = [(''accept'', accept), (''accept-encoding'', ''identity''), (''user-agent'', IMPORTER_USER_AGENT)],
                    rq_maxBytes = (case maxBytes of Some n \<Rightarrow> n | None \<Rightarrow> MAX_RESPONSE_BYTES),
                    rq_url = href lib url\<rparr>
         in prog_catch (ask (Sent inp) (\<lambda>past. net_request net past inp))
              (\<lambda>e. case e of
                  RoleIntakeUrlImportError _ _ \<Rightarrow> prog_throw e
                | OtherFailure _ \<Rightarrow> prog_throw (RoleIntakeUrlImportError remote_unavailable True)))"

definition isRedirect :: "int \<Rightarrow> bool" where
  "isRedirect statusCode \<longleftrightarrow> statusCode \<in> set [301, 302, 303, 307, 308]"

definition normaliseContentType :: "string option \<Rightarrow> string" where
  "normaliseContentType v =
     (case v of Some s \<Rightarrow> js_toLowerCase (js_trim (hd (split_on (CHR '';'') s))) | None \<Rightarrow> [])"

definition isHtmlContentType :: "string option \<Rightarrow> bool" where
  "isHtmlContentType v \<longleftrightarrow> normaliseContentType v = ''text/html'' \<or> normaliseContentType v = ''application/xhtml+xml''"

definition isTextContentType :: "string option \<Rightarrow> bool" where
  "isTextContentType v \<longleftrightarrow> normaliseContentType v = ''text/plain''"

definition isIdentityEncoding :: "string option \<Rightarrow> bool" where
  "isIdentityEncoding v \<longleftrightarrow> \<not> truthy v \<or> normaliseContentType v = ''identity''"

definition robots_accept :: string where "robots_accept = ''text/plain;q=0.9,*/*;q=0.1''"
definition page_accept :: string where "page_accept = ''text/html,application/xhtml+xml;q=0.9''"

text \<open>What \<open>assertRobotsAllows\<close> makes of the answer.\<close>

definition robots_verdict :: "Url \<Rightarrow> RoleIntakeUrlResponse \<Rightarrow> import_error + unit" where
  "robots_verdict source response =
     (if rs_statusCode response = 404 then Inr ()
      else if rs_statusCode response \<noteq> 200 \<or> \<not> isTextContentType (rs_headers response ''content-type'')
      then Inl (importError robots_unavailable)
      else if \<not> robotsAllowPath (rs_body response) (url_pathname source @ url_search source)
      then Inl (importError robots_disallowed) else Inr ())"

definition assertRobotsAllows :: "url_library \<Rightarrow> network \<Rightarrow> Url \<Rightarrow> (import_error, net_log, unit) prog" where
  "assertRobotsAllows lib net source =
     (case Option.bind (parse_url lib (url_origin lib source)) (parse_relative lib ''/robots.txt'') of
        None \<Rightarrow> prog_throw (OtherFailure ''TypeError'')
      | Some robotsUrl \<Rightarrow>
          prog_bind (requestPublicUrl lib net robots_accept None robotsUrl) (\<lambda>response. prog_lift (robots_verdict source response)))"

section \<open>Pages\<close>

text \<open>The page found; its instant (\<open>fetchedAt\<close>) is left out.\<close>

record RoleIntakePublicPage =
  pg_acquisitionStrategy :: acquisition
  pg_canonicalUrl :: string
  pg_citationUrls :: "string list"
  pg_draft :: ImportedRoleDraft
  pg_extractorVersion :: string
  pg_fieldSources :: RoleIntakeUrlFieldSources
  pg_sourceHost :: string
  pg_warnings :: "string list"

text \<open>\<open>[...new Set(xs)]\<close> keeps the first of each.\<close>

definition unique_in_order :: "string list \<Rightarrow> string list" where
  "unique_in_order xs = rev (remdups (rev xs))"

definition safeNormalizeUrl :: "url_library \<Rightarrow> string option \<Rightarrow> Url option" where
  "safeNormalizeUrl lib v =
     (case v of
        None \<Rightarrow> None
      | Some s \<Rightarrow> if s = [] then None else (case normalizeRoleIntakeUrl lib s of Inr u \<Rightarrow> Some u | Inl _ \<Rightarrow> None))"

definition present_source :: "RoleIntakeFieldSource \<Rightarrow> string option \<Rightarrow> RoleIntakeFieldSource" where
  "present_source source v = (if truthy v then source else unavailable)"

definition fetchIndexedRoleIntakePublicPage ::
    "url_library \<Rightarrow> network \<Rightarrow> Url \<Rightarrow> (import_error, net_log, RoleIntakePublicPage) prog" where
  "fetchIndexedRoleIntakePublicPage lib net source =
     (case net_search net of
        None \<Rightarrow> prog_throw (importError indexed_search_unavailable)
      | Some search \<Rightarrow>
          prog_bind (ask (Searched source) (\<lambda>past. search past source)) (\<lambda>result.
            case normalizeRoleIntakeUrl lib (sr_canonicalUrl result) of
              Inl e \<Rightarrow> prog_throw e
            | Inr canonicalUrl \<Rightarrow> prog_return
                \<lparr>pg_acquisitionStrategy = indexed_search, pg_canonicalUrl = href lib canonicalUrl,
                 pg_citationUrls = unique_in_order (map (href lib)
                   (List.map_filter (\<lambda>c. safeNormalizeUrl lib (Some c)) (sr_citations result))),
                 pg_draft = sr_draft result, pg_extractorVersion = ''indexed-web-search-v1'',
                 pg_fieldSources = \<lparr>source_description = indexed_web_search,
                   source_location = present_source indexed_web_search (draft_location (sr_draft result)),
                   source_title = present_source indexed_web_search (draft_title (sr_draft result))\<rparr>,
                 pg_sourceHost = url_hostname canonicalUrl,
                 pg_warnings = [''indexed_source_review_required'']\<rparr>))"

definition platform_text :: "RoleIntakeAtsPlatform \<Rightarrow> string" where
  "platform_text p = (case p of ashby \<Rightarrow> ''ashby'' | greenhouse \<Rightarrow> ''greenhouse'' | lever \<Rightarrow> ''lever'')"

text \<open>The page of an interface's answer, or \<open>null\<close>.\<close>

definition ats_page ::
    "url_library \<Rightarrow> parsers \<Rightarrow> Url \<Rightarrow> RoleIntakeAtsSource \<Rightarrow> RoleIntakeUrlResponse \<Rightarrow> RoleIntakePublicPage option" where
  "ats_page lib P source ats response =
     (if rs_statusCode response \<noteq> 200 \<or> normaliseContentType (rs_headers response ''content-type'') \<noteq> ''application/json''
      then None
      else case Option.bind (parse_json P (rs_body response)) (ats_mapPayload ats) of
        None \<Rightarrow> None
      | Some posting \<Rightarrow>
          let d = posting_draft posting in
          if length (draft_description d) < MIN_ROLE_DESCRIPTION_CHARACTERS then None
          else
            let canonicalUrl = (case safeNormalizeUrl lib (posting_canonicalUrl posting) of Some u \<Rightarrow> u | None \<Rightarrow> source)
            in Some \<lparr>pg_acquisitionStrategy = ats_api, pg_canonicalUrl = href lib canonicalUrl,
                 pg_citationUrls = unique_in_order [href lib canonicalUrl, href lib source],
                 pg_draft = d, pg_extractorVersion = ''ats-api-v1:'' @ platform_text (ats_platform ats),
                 pg_fieldSources = \<lparr>source_description = ats_public_api,
                   source_location = present_source ats_public_api (draft_location d),
                   source_title = present_source ats_public_api (draft_title d)\<rparr>,
                 pg_sourceHost = url_hostname canonicalUrl,
                 pg_warnings = buildMissingFieldWarnings (draft_location d) (draft_title d)\<rparr>)"

definition fetchAtsRoleIntakePublicPage ::
    "url_library \<Rightarrow> parsers \<Rightarrow> network \<Rightarrow> Url \<Rightarrow> RoleIntakeAtsSource
     \<Rightarrow> (import_error, net_log, RoleIntakePublicPage option) prog" where
  "fetchAtsRoleIntakePublicPage lib P net source ats =
     prog_catch
       (prog_bind (requestPublicUrl lib net ''application/json'' (ats_maxResponseBytes ats) (ats_apiUrl ats))
          (\<lambda>response. prog_return (ats_page lib P source ats response)))
       (\<lambda>_. prog_return None)"

text \<open>
  One round of the loop: the answer of the page, or the link to go on with. The loop leaves with
  a page, or with \<open>return fetchIndexed...\<close>, whose promise is not awaited inside the \<open>try\<close>; an
  error carries the value \<open>url\<close> has when it is thrown, which the \<open>catch\<close> reads.
\<close>

datatype round_end = Page RoleIntakePublicPage | Follow Url | Search_for Url

definition read_page :: "url_library \<Rightarrow> parsers \<Rightarrow> Url \<Rightarrow> RoleIntakeUrlResponse \<Rightarrow> import_error + RoleIntakePublicPage" where
  "read_page lib P url response =
     (if rs_statusCode response = 401 \<or> rs_statusCode response = 403 then Inl (importError source_not_public)
      else if 500 \<le> rs_statusCode response then Inl (RoleIntakeUrlImportError remote_unavailable True)
      else if rs_statusCode response \<noteq> 200 then Inl (importError source_not_public)
      else if \<not> isHtmlContentType (rs_headers response ''content-type'') then Inl (importError unsupported_content)
      else if \<not> isIdentityEncoding (rs_headers response ''content-encoding'') then Inl (importError unsupported_content)
      else case extractRoleIntakeUrlDraft P (rs_body response) of
        Inl e \<Rightarrow> Inl e
      | Inr ex \<Rightarrow> Inr \<lparr>pg_acquisitionStrategy = direct_html, pg_canonicalUrl = href lib url,
          pg_citationUrls = [href lib url], pg_draft = ex_draft ex, pg_extractorVersion = ''static-html-v1'',
          pg_fieldSources = ex_fieldSources ex, pg_sourceHost = url_hostname url, pg_warnings = ex_warnings ex\<rparr>)"

definition follow_redirect :: "url_library \<Rightarrow> Url \<Rightarrow> RoleIntakeUrlResponse \<Rightarrow> (import_error \<times> Url) + round_end" where
  "follow_redirect lib url response =
     (case rs_headers response ''location'' of
        None \<Rightarrow> Inl (importError remote_unavailable, url)
      | Some location \<Rightarrow>
          if location = [] then Inl (importError remote_unavailable, url)
          else case parse_relative lib location url of
            None \<Rightarrow> Inl (importError remote_unavailable, url)
          | Some target \<Rightarrow>
              (case normalizeRoleIntakeUrl lib (href lib target) of
                 Inl (RoleIntakeUrlImportError code retryable) \<Rightarrow> Inl (RoleIntakeUrlImportError code retryable, url)
               | Inl (OtherFailure _) \<Rightarrow> Inl (importError remote_unavailable, url)
               | Inr url \<Rightarrow>
                   (case assertRoleIntakeSourceSupported url of
                      Inl e \<Rightarrow> Inl (e, url)
                    | Inr () \<Rightarrow>
                        Inr (if getRoleIntakeUrlAcquisitionStrategy url = indexed_search then Search_for url else Follow url))))"

definition thrown_at :: "Url \<Rightarrow> (import_error, net_log, 'a) prog \<Rightarrow> (import_error \<times> Url, net_log, 'a) prog" where
  "thrown_at url m past = (case m past of (Inl e, t) \<Rightarrow> (Inl (e, url), t) | (Inr a, t) \<Rightarrow> (Inr a, t))"

definition fetch_round ::
    "url_library \<Rightarrow> parsers \<Rightarrow> network \<Rightarrow> bool \<Rightarrow> Url \<Rightarrow> (import_error \<times> Url, net_log, round_end) prog" where
  "fetch_round lib P net last_round url =
     prog_then (thrown_at url (assertRobotsAllows lib net url))
       (prog_bind (thrown_at url (requestPublicUrl lib net page_accept None url)) (\<lambda>response.
          if isRedirect (rs_statusCode response) then
            if last_round then prog_throw (importError redirect_limit, url)
            else prog_lift (follow_redirect lib url response)
          else prog_lift (case read_page lib P url response of Inl e \<Rightarrow> Inl (e, url) | Inr p \<Rightarrow> Inr (Page p))))"

text \<open>The loop, by the number of redirects that may still be followed.\<close>

fun fetch_loop ::
    "url_library \<Rightarrow> parsers \<Rightarrow> network \<Rightarrow> nat \<Rightarrow> Url \<Rightarrow> (import_error \<times> Url, net_log, round_end) prog" where
  "fetch_loop lib P net n url =
     prog_bind (fetch_round lib P net (n = 0) url) (\<lambda>r.
       case (r, n) of
         (Follow url, Suc m) \<Rightarrow> fetch_loop lib P net m url
       | _ \<Rightarrow> prog_return r)"

declare fetch_loop.simps [simp del]

definition fallback_errors :: "import_code list" where
  "fallback_errors = [no_usable_text, remote_unavailable, response_too_large, robots_disallowed, robots_unavailable,
     source_not_public, unsupported_content]"

definition shouldTryIndexedSearch :: "import_error \<Rightarrow> bool" where
  "shouldTryIndexedSearch e \<longleftrightarrow>
     (case e of RoleIntakeUrlImportError code _ \<Rightarrow> code \<in> set fallback_errors | OtherFailure _ \<Rightarrow> False)"

definition fetch_page ::
    "url_library \<Rightarrow> parsers \<Rightarrow> network \<Rightarrow> Url \<Rightarrow> (import_error, net_log, RoleIntakePublicPage) prog" where
  "fetch_page lib P net url past =
     (case fetch_loop lib P net MAX_REDIRECTS url past of
        (Inr (Page p), t) \<Rightarrow> (Inr p, t)
      | (Inr (Search_for u), t) \<Rightarrow> fetchIndexedRoleIntakePublicPage lib net u t
      | (Inr (Follow u), t) \<Rightarrow> (Inl (importError redirect_limit), t)
      | (Inl (e, u), t) \<Rightarrow>
          if net_search net \<noteq> None \<and> shouldTryIndexedSearch e then fetchIndexedRoleIntakePublicPage lib net u t
          else (Inl e, t))"

definition fetchRoleIntakePublicPage ::
    "url_library \<Rightarrow> parsers \<Rightarrow> network \<Rightarrow> string \<Rightarrow> (import_error, net_log, RoleIntakePublicPage) prog" where
  "fetchRoleIntakePublicPage lib P net source =
     (case normalizeRoleIntakeUrl lib source of
        Inl e \<Rightarrow> prog_throw e
      | Inr url \<Rightarrow>
          (case assertRoleIntakeSourceSupported url of
             Inl e \<Rightarrow> prog_throw e
           | Inr () \<Rightarrow>
               if getRoleIntakeUrlAcquisitionStrategy url = indexed_search then fetchIndexedRoleIntakePublicPage lib net url
               else (case resolveRoleIntakeAtsSource lib P url of
                   Inl e \<Rightarrow> prog_throw e
                 | Inr None \<Rightarrow> fetch_page lib P net url
                 | Inr (Some ats) \<Rightarrow>
                     prog_bind (fetchAtsRoleIntakePublicPage lib P net url ats) (\<lambda>page.
                       case page of Some p \<Rightarrow> prog_return p | None \<Rightarrow> fetch_page lib P net url))))"

section \<open>What a fetch may send\<close>

text \<open>
  Every request directly follows the lookup it was pinned by, and goes to a globally routable
  address.
\<close>

fun pinned :: "net_log \<Rightarrow> bool" where
  "pinned [] = True"
| "pinned (Looked_up h # Sent r # es) \<longleftrightarrow> isGloballyRoutableIpAddress (rq_address r) \<and> pinned es"
| "pinned (Sent r # es) = False"
| "pinned (ev # es) = pinned es"

definition requests :: "net_log \<Rightarrow> nat" where
  "requests es = length (filter (\<lambda>ev. case ev of Sent _ \<Rightarrow> True | _ \<Rightarrow> False) es)"

definition searches :: "net_log \<Rightarrow> nat" where
  "searches es = length (filter (\<lambda>ev. case ev of Searched _ \<Rightarrow> True | _ \<Rightarrow> False) es)"

lemma pinned_lookup: "pinned fs \<Longrightarrow> pinned (Looked_up h # fs)"
  by (cases fs rule: pinned.cases) auto

lemma pinned_append: "pinned es \<Longrightarrow> pinned fs \<Longrightarrow> pinned (es @ fs)"
  by (induction es rule: pinned.induct) (auto intro: pinned_lookup)

lemma counts_append [simp]: "requests (es @ fs) = requests es + requests fs" "searches (es @ fs) = searches es + searches fs"
  by (simp_all add: requests_def searches_def)

text \<open>A program that sends at most \<open>k\<close> requests and \<open>j\<close> searches, pinned ones.\<close>

definition spends :: "nat \<Rightarrow> nat \<Rightarrow> ('e, net_log, 'a) prog \<Rightarrow> bool" where
  "spends k j m \<longleftrightarrow> (\<forall>s. \<exists>es. snd (m s) = s @ es \<and> pinned es \<and> requests es \<le> k \<and> searches es \<le> j)"

lemma spendsE:
  assumes "spends k j m" and "m s = (r, t)"
  obtains es where "t = s @ es" "pinned es" "requests es \<le> k" "searches es \<le> j"
  using assms unfolding spends_def by (metis snd_conv)

lemma spends_pure: "(\<And>s. snd (m s) = s) \<Longrightarrow> spends k j m"
  unfolding spends_def by (intro allI exI [of _ "[]"]) (simp add: requests_def searches_def)

lemma spends_simps [simp]:
  "spends k j (prog_return a)" "spends k j (prog_throw e)" "spends k j (prog_lift x)"
  by (rule spends_pure, simp add: prog_defs)+

lemma spends_mono: "spends k j m \<Longrightarrow> k \<le> k' \<Longrightarrow> j \<le> j' \<Longrightarrow> spends k' j' m"
  unfolding spends_def by (meson order_trans)

lemma spends_append:
  assumes "t = s @ es" "pinned es" "requests es \<le> k" "searches es \<le> j"
    and "\<exists>fs. u = t @ fs \<and> pinned fs \<and> requests fs \<le> k' \<and> searches fs \<le> j'"
  shows "\<exists>fs. u = s @ fs \<and> pinned fs \<and> requests fs \<le> k + k' \<and> searches fs \<le> j + j'"
proof -
  from assms(5) obtain fs where "u = t @ fs" "pinned fs" "requests fs \<le> k'" "searches fs \<le> j'" by blast
  with assms show ?thesis by (intro exI [of _ "es @ fs"]) (simp add: pinned_append add_mono)
qed

lemma spends_bind:
  assumes m: "spends k j m" and f: "\<And>a. spends k' j' (f a)"
  shows "spends (k + k') (j + j') (prog_bind m f)"
  unfolding spends_def
proof
  fix s
  obtain r t where run: "m s = (r, t)" by (metis surj_pair)
  obtain es where es: "t = s @ es" "pinned es" "requests es \<le> k" "searches es \<le> j" by (rule spendsE [OF m run])
  show "\<exists>es. snd (prog_bind m f s) = s @ es \<and> pinned es \<and> requests es \<le> k + k' \<and> searches es \<le> j + j'"
  proof (cases r)
    case (Inl e)
    with run es show ?thesis by (intro exI [of _ es]) (simp add: prog_bind_def)
  next
    case (Inr a)
    with run have "snd (prog_bind m f s) = snd (f a t)" by (simp add: prog_bind_def)
    with f [of a] spends_append [OF es] show ?thesis unfolding spends_def by metis
  qed
qed

lemma spends_then: "spends k j m \<Longrightarrow> spends k' j' n \<Longrightarrow> spends (k + k') (j + j') (prog_then m n)"
  unfolding prog_then_def by (rule spends_bind)

lemma spends_step:
  assumes "spends k j m" and "\<And>a. spends 0 0 (f a)"
  shows "spends k j (prog_bind m f)"
  using spends_bind [OF assms] by simp

lemma spends_catch_pure:
  assumes "spends k j m" and "\<And>e s. snd (h e s) = s"
  shows "spends k j (prog_catch m h)"
  using assms unfolding spends_def prog_catch_def by (auto simp: case_prod_beta split: sum.split)

lemma spends_thrown_at: "spends k j m \<Longrightarrow> spends k j (thrown_at url m)"
  unfolding spends_def thrown_at_def by (auto simp: case_prod_beta split: sum.split)

text \<open>A public request looks up once and sends at most once, whatever the answers.\<close>

lemma requestPublicUrl_run:
  obtains
    (refused) e where "requestPublicUrl lib net accept maxBytes url s = (Inl e, s @ [Looked_up (url_hostname url)])"
  | (sent) inp where "snd (requestPublicUrl lib net accept maxBytes url s) = s @ [Looked_up (url_hostname url), Sent inp]"
      "isGloballyRoutableIpAddress (rq_address inp)" "rq_url inp = href lib url"
      "map_of (rq_headers inp) ''accept'' = Some accept"
      "\<And>resp t. requestPublicUrl lib net accept maxBytes url s = (Inr resp, t) \<Longrightarrow>
         net_request net (s @ [Looked_up (url_hostname url)]) inp = Inr resp"
proof (cases "net_resolve net s (url_hostname url)")
  case (Inl e)
  then show ?thesis by (intro refused [of e]) (simp add: requestPublicUrl_def prog_bind_def ask_def)
next
  case (Inr addresses)
  show ?thesis
  proof (cases "addresses = [] \<or> list_ex (\<lambda>a. \<not> isGloballyRoutableIpAddress (ra_address a)) addresses")
    case True
    with Inr show ?thesis
      by (intro refused [of "importError private_destination"]) (simp add: requestPublicUrl_def prog_defs ask_def)
  next
    case False
    define address where "address = (case find (\<lambda>a. ra_family a = 4) addresses of Some a \<Rightarrow> a | None \<Rightarrow> hd addresses)"
    have "address \<in> set addresses"
      using False by (auto simp: address_def find_Some_iff split: option.split)
    then have routable: "isGloballyRoutableIpAddress (ra_address address)" using False by (auto simp: list_ex_iff)
    let ?inp = "\<lparr>rq_address = ra_address address, rq_family = ra_family address,
                    rq_headers = [(''accept'', accept), (''accept-encoding'', ''identity''), (''user-agent'', IMPORTER_USER_AGENT)],
                    rq_maxBytes = (case maxBytes of Some n \<Rightarrow> n | None \<Rightarrow> MAX_RESPONSE_BYTES),
                    rq_url = href lib url\<rparr>"
    have run: "requestPublicUrl lib net accept maxBytes url s =
        prog_catch (ask (Sent ?inp) (\<lambda>past. net_request net past ?inp))
              (\<lambda>e. case e of
                  RoleIntakeUrlImportError _ _ \<Rightarrow> prog_throw e
                | OtherFailure _ \<Rightarrow> prog_throw (RoleIntakeUrlImportError remote_unavailable True)) (s @ [Looked_up (url_hostname url)])"
      using Inr False by (simp add: requestPublicUrl_def prog_bind_def ask_def address_def [symmetric] Let_def)
    show ?thesis
    proof (rule sent [of ?inp])
      show "snd (requestPublicUrl lib net accept maxBytes url s) = s @ [Looked_up (url_hostname url), Sent ?inp]"
        unfolding run by (simp add: prog_defs ask_def split: sum.split import_error.split)
      show "net_request net (s @ [Looked_up (url_hostname url)]) ?inp = Inr resp"
        if "requestPublicUrl lib net accept maxBytes url s = (Inr resp, t)" for resp t
        using that unfolding run by (simp add: prog_defs ask_def split: sum.splits import_error.splits)
    qed (simp_all add: routable)
  qed
qed

lemma spends_requestPublicUrl: "spends 1 0 (requestPublicUrl lib net accept maxBytes url)"
  unfolding spends_def
proof
  fix s
  show "\<exists>es. snd (requestPublicUrl lib net accept maxBytes url s) = s @ es \<and> pinned es \<and> requests es \<le> 1 \<and> searches es \<le> 0"
    by (rule requestPublicUrl_run [of lib net accept maxBytes url s]) (force simp: requests_def searches_def)+
qed

lemma spends_robots: "spends 1 0 (assertRobotsAllows lib net source)"
  unfolding assertRobotsAllows_def
  by (cases "Option.bind (parse_url lib (url_origin lib source)) (parse_relative lib ''/robots.txt'')")
    (auto intro!: spends_step spends_requestPublicUrl [unfolded One_nat_def])

lemma spends_ask_search: "spends 0 1 (ask (Searched source) answer)"
  by (auto simp: spends_def ask_def requests_def searches_def)

lemma spends_indexed: "spends 0 1 (fetchIndexedRoleIntakePublicPage lib net source)"
  unfolding fetchIndexedRoleIntakePublicPage_def
  by (auto intro!: spends_step spends_ask_search [unfolded One_nat_def] split: option.split sum.split)

lemma spends_ats: "spends 1 0 (fetchAtsRoleIntakePublicPage lib P net source ats)"
  unfolding fetchAtsRoleIntakePublicPage_def
  by (intro spends_catch_pure spends_step spends_requestPublicUrl) (simp_all add: prog_return_def)

lemma spends_round: "spends 2 0 (fetch_round lib P net last_round url)"
proof -
  have "spends 1 0 (prog_bind (thrown_at url (requestPublicUrl lib net page_accept None url)) (\<lambda>response.
          if isRedirect (rs_statusCode response) then
            if last_round then prog_throw (importError redirect_limit, url)
            else prog_lift (follow_redirect lib url response)
          else prog_lift (case read_page lib P url response of Inl e \<Rightarrow> Inl (e, url) | Inr p \<Rightarrow> Inr (Page p))))"
    by (intro spends_step spends_thrown_at spends_requestPublicUrl) simp
  from spends_then [OF spends_thrown_at [OF spends_robots, of url lib net url] this] show ?thesis
    by (simp add: fetch_round_def numeral_2_eq_2)
qed

lemma spends_loop: "spends (2 * Suc n) 0 (fetch_loop lib P net n url)"
proof (induction n arbitrary: url)
  case 0
  have "spends 2 0 (fetch_loop lib P net 0 url)"
    by (subst fetch_loop.simps, intro spends_step spends_round) (simp split: round_end.split)
  then show ?case by simp
next
  case (Suc n)
  have "spends (2 * Suc n) 0 (case r of Follow u \<Rightarrow> fetch_loop lib P net n u | _ \<Rightarrow> prog_return r)" for r
    using Suc.IH by (cases r) simp_all
  from spends_bind [OF spends_round this] show ?case
    by (subst fetch_loop.simps) (simp add: round_end.case_distrib cong: round_end.case_cong)
qed

lemma spends_fetch_page: "spends 8 1 (fetch_page lib P net url)"
  unfolding spends_def
proof
  fix s
  obtain r t where run: "fetch_loop lib P net MAX_REDIRECTS url s = (r, t)" by (metis surj_pair)
  obtain es where es: "t = s @ es" "pinned es" "requests es \<le> 2 * Suc MAX_REDIRECTS" "searches es \<le> 0"
    by (rule spendsE [OF spends_loop run])
  have "\<exists>fs. snd (fetch_page lib P net url s) = t @ fs \<and> pinned fs \<and> requests fs \<le> 0 \<and> searches fs \<le> 1"
    using spends_indexed [of lib net] unfolding spends_def fetch_page_def run
    by (auto simp: requests_def searches_def split: sum.split round_end.split)
  from spends_append [OF es this] show "\<exists>fs. snd (fetch_page lib P net url s) = s @ fs \<and> pinned fs \<and> requests fs \<le> 8 \<and> searches fs \<le> 1"
    by (simp add: MAX_REDIRECTS_def)
qed

lemma spends_fetch: "spends 9 1 (fetchRoleIntakePublicPage lib P net source)"
proof -
  have after: "spends 8 1 (case page of Some p \<Rightarrow> prog_return p | None \<Rightarrow> fetch_page lib P net url)" for page url
    using spends_fetch_page by (simp split: option.split)
  have ats: "spends 9 1 (prog_bind (fetchAtsRoleIntakePublicPage lib P net url ats)
      (\<lambda>page. case page of Some p \<Rightarrow> prog_return p | None \<Rightarrow> fetch_page lib P net url))" for url ats
    using spends_bind [OF spends_ats after] by simp
  show ?thesis
    unfolding fetchRoleIntakePublicPage_def
    using ats spends_mono [OF spends_fetch_page, of 9 1] spends_mono [OF spends_indexed, of 9 1]
    by (simp split: sum.split option.split unit.split)
qed


section \<open>Pages are read with permission\<close>

text \<open>
  The request before a page's own, two events back, was answered in a way that permits exactly
  this page.
\<close>

definition permitted :: "url_library \<Rightarrow> network \<Rightarrow> net_log \<Rightarrow> RoleIntakeUrlRequest \<Rightarrow> bool" where
  "permitted lib net past r \<longleftrightarrow>
     (\<exists>url rr resp. rq_url r = href lib url \<and> 2 \<le> length past \<and> past ! (length past - 2) = Sent rr \<and>
        net_request net (take (length past - 2) past) rr = Inr resp \<and> robots_verdict url resp = Inr ())"

definition is_page_request :: "RoleIntakeUrlRequest \<Rightarrow> bool" where
  "is_page_request r \<longleftrightarrow> map_of (rq_headers r) ''accept'' = Some page_accept"

definition lawful :: "url_library \<Rightarrow> network \<Rightarrow> net_log \<Rightarrow> bool" where
  "lawful lib net events \<longleftrightarrow>
     (\<forall>i<length events. \<forall>r. events ! i = Sent r \<longrightarrow> is_page_request r \<longrightarrow> permitted lib net (take i events) r)"

lemma lawful_Nil [simp]: "lawful lib net []"
  by (simp add: lawful_def)

lemma lawful_snoc:
  "lawful lib net (s @ [ev]) \<longleftrightarrow>
     lawful lib net s \<and> (\<forall>r. ev = Sent r \<longrightarrow> is_page_request r \<longrightarrow> permitted lib net s r)"
  by (auto simp: lawful_def less_Suc_eq nth_append)

lemma lawful_two:
  "lawful lib net (s @ [Looked_up h, Sent r]) \<longleftrightarrow>
     lawful lib net s \<and> (is_page_request r \<longrightarrow> permitted lib net (s @ [Looked_up h]) r)"
  using lawful_snoc [of lib net "s @ [Looked_up h]" "Sent r"] lawful_snoc [of lib net s "Looked_up h"] by simp

interpretation robots_law: effect_preorder "\<lambda>s t. lawful lib net s \<longrightarrow> lawful lib net t" for lib net
  by unfold_locales auto

abbreviation keeps_law :: "url_library \<Rightarrow> network \<Rightarrow> ('e, net_log, 'a) prog \<Rightarrow> bool" where
  "keeps_law lib net \<equiv> effects (\<lambda>s t. lawful lib net s \<longrightarrow> lawful lib net t)"

lemma accepts_differ: "robots_accept \<noteq> page_accept" "''application/json'' \<noteq> page_accept"
  by (simp_all add: robots_accept_def page_accept_def)

lemma other_request_lawful:
  assumes "accept \<noteq> page_accept"
  shows "keeps_law lib net (requestPublicUrl lib net accept maxBytes url)"
  unfolding effects_def
proof
  fix s
  show "lawful lib net s \<longrightarrow> lawful lib net (snd (requestPublicUrl lib net accept maxBytes url s))"
    by (rule requestPublicUrl_run [of lib net accept maxBytes url s])
      (auto simp: lawful_snoc lawful_two is_page_request_def assms)
qed

lemma robots_lawful: "keeps_law lib net (assertRobotsAllows lib net url)"
  unfolding assertRobotsAllows_def
  by (auto intro!: robots_law.structural other_request_lawful accepts_differ split: option.split)

lemma robots_run:
  assumes "assertRobotsAllows lib net url s = (Inr u, t)"
  obtains h rr resp where "t = s @ [Looked_up h, Sent rr]" "net_request net (s @ [Looked_up h]) rr = Inr resp"
    "robots_verdict url resp = Inr ()"
proof -
  obtain robotsUrl where robotsUrl: "Option.bind (parse_url lib (url_origin lib url)) (parse_relative lib ''/robots.txt'') = Some robotsUrl"
    using assms by (auto simp: assertRobotsAllows_def prog_throw_def split: option.splits)
  then obtain resp where run: "requestPublicUrl lib net robots_accept None robotsUrl s = (Inr resp, t)"
    and verdict: "robots_verdict url resp = Inr ()"
    using assms by (auto simp: assertRobotsAllows_def prog_bind_def prog_lift_def split: prod.splits sum.splits)
  show thesis
  proof (rule requestPublicUrl_run [of lib net robots_accept None robotsUrl s])
    fix inp
    assume "snd (requestPublicUrl lib net robots_accept None robotsUrl s) = s @ [Looked_up (url_hostname robotsUrl), Sent inp]"
      and "\<And>resp t. requestPublicUrl lib net robots_accept None robotsUrl s = (Inr resp, t) \<Longrightarrow>
         net_request net (s @ [Looked_up (url_hostname robotsUrl)]) inp = Inr resp"
    with run verdict that show thesis by simp
  qed (simp add: run)
qed

lemma round_lawful: "keeps_law lib net (fetch_round lib P net last_round url)"
  unfolding effects_def
proof (intro allI impI)
  fix s
  assume lawful: "lawful lib net s"
  obtain r t where robots: "assertRobotsAllows lib net url s = (r, t)" by (metis surj_pair)
  have "lawful lib net t" using robots_lawful [of lib net url] robots lawful unfolding effects_def by (metis snd_conv)
  show "lawful lib net (snd (fetch_round lib P net last_round url s))"
  proof (cases r)
    case (Inl e)
    with robots \<open>lawful lib net t\<close> show ?thesis
      by (simp add: fetch_round_def thrown_at_def prog_then_def prog_bind_def)
  next
    case (Inr u)
    with robots obtain h rr resp where t: "t = s @ [Looked_up h, Sent rr]"
      and answer: "net_request net (s @ [Looked_up h]) rr = Inr resp" "robots_verdict url resp = Inr ()"
      by (auto elim: robots_run)
    have round: "snd (fetch_round lib P net last_round url s) = snd (requestPublicUrl lib net page_accept None url t)"
      using robots Inr
      by (auto simp: fetch_round_def thrown_at_def prog_defs case_prod_beta split: sum.split)
    have "permitted lib net (t @ [Looked_up h']) inp" if "rq_url inp = href lib url" for h' inp
      using t answer that
      by (auto simp: permitted_def nth_append intro!: exI [of _ url])
    then show ?thesis
      unfolding round using \<open>lawful lib net t\<close>
      by (rule_tac requestPublicUrl_run [of lib net page_accept None url t]) (auto simp: lawful_snoc lawful_two)
  qed
qed

lemma loop_lawful: "keeps_law lib net (fetch_loop lib P net n url)"
proof (induction n arbitrary: url)
  case 0
  show ?case
    by (subst fetch_loop.simps, intro robots_law.bind round_lawful) (simp add: robots_law.pure split: round_end.split)
next
  case (Suc n)
  show ?case
    by (subst fetch_loop.simps, intro robots_law.bind round_lawful) (simp add: robots_law.pure Suc.IH split: round_end.split)
qed

lemma indexed_lawful: "keeps_law lib net (fetchIndexedRoleIntakePublicPage lib net source)"
proof -
  have "keeps_law lib net (ask (Searched source) answer)" for answer :: "net_log \<Rightarrow> import_error + search_result"
    by (simp add: effects_def ask_def lawful_snoc)
  then show ?thesis
    unfolding fetchIndexedRoleIntakePublicPage_def
    by (auto intro!: robots_law.structural split: option.split sum.split)
qed

lemma page_lawful: "keeps_law lib net (fetch_page lib P net url)"
  unfolding effects_def
proof
  fix s
  obtain r t where run: "fetch_loop lib P net MAX_REDIRECTS url s = (r, t)" by (metis surj_pair)
  then have "lawful lib net s \<longrightarrow> lawful lib net t"
    using loop_lawful [of lib net P MAX_REDIRECTS url] unfolding effects_def by (metis snd_conv)
  then show "lawful lib net s \<longrightarrow> lawful lib net (snd (fetch_page lib P net url s))"
    using indexed_lawful [of lib net] by (auto simp: fetch_page_def run effects_def split: sum.split round_end.split)
qed

lemma ats_lawful: "keeps_law lib net (fetchAtsRoleIntakePublicPage lib P net source ats)"
  unfolding fetchAtsRoleIntakePublicPage_def
  by (intro robots_law.attempt robots_law.bind robots_law.pure other_request_lawful accepts_differ)

lemma fetch_lawful: "keeps_law lib net (fetchRoleIntakePublicPage lib P net source)"
proof -
  have "keeps_law lib net (prog_bind (fetchAtsRoleIntakePublicPage lib P net url ats)
      (\<lambda>page. case page of Some p \<Rightarrow> prog_return p | None \<Rightarrow> fetch_page lib P net url))" for url ats
    by (intro robots_law.bind ats_lawful robots_law.choice robots_law.pure page_lawful)
  then show ?thesis
    unfolding fetchRoleIntakePublicPage_def
    by (simp add: page_lawful indexed_lawful robots_law.pure split: sum.split option.split unit.split)
qed


text \<open>A site without a robots file whose page wants a sign-in.\<close>

definition example_address :: ResolvedAddress where
  "example_address = \<lparr>ra_address = ''2606:4700:4700::1111'', ra_family = 6\<rparr>"

definition plain_response :: "int \<Rightarrow> RoleIntakeUrlResponse" where
  "plain_response status = \<lparr>rs_body = [], rs_headers = (\<lambda>_. None), rs_statusCode = status\<rparr>"

definition example_network :: network where
  "example_network = \<lparr>net_resolve = (\<lambda>past h. Inr [example_address]),
     net_request = (\<lambda>past r. Inr (plain_response (if length past = 1 then 404 else 401))), net_search = None\<rparr>"

definition example_request :: "string \<Rightarrow> string \<Rightarrow> RoleIntakeUrlRequest" where
  "example_request accept url = \<lparr>rq_address = ''2606:4700:4700::1111'', rq_family = 6,
     rq_headers = [(''accept'', accept), (''accept-encoding'', ''identity''), (''user-agent'', IMPORTER_USER_AGENT)],
     rq_maxBytes = 1500000, rq_url = url\<rparr>"

definition example_parser :: parsers where
  "example_parser = \<lparr>parseDocument = text_node, parse_json = (\<lambda>s. None)\<rparr>"

lemma example_fetch:
  "snd (fetchRoleIntakePublicPage example_library example_parser example_network ''https://jobs.example.com/42'' []) =
     [Looked_up ''jobs.example.com'', Sent (example_request robots_accept ''https://jobs.example.com/robots.txt''),
      Looked_up ''jobs.example.com''] @ [Sent (example_request page_accept ''https://jobs.example.com/42'')] @ []"
  by code_simp


section \<open>Responses are bounded\<close>

lemma collect_bounded:
  "collect_chunks maxBytes body chunks = Some b \<Longrightarrow>
     b = body @ concat chunks \<and> (chunks \<noteq> [] \<longrightarrow> int (length b) \<le> maxBytes)"
  by (induction maxBytes body chunks rule: collect_chunks.induct) (auto split: if_splits)

text \<open>
  C27: a response that is taken has at most 32 KiB of header bytes, and its body is the text of all
  chunks in order, whose bytes are within the limit of the request, whatever length it declared.
\<close>

theorem responses_are_bounded:
  assumes "receive utf8 maxBytes w = Inr response" and "0 \<le> maxBytes"
  shows "rs_body response = utf8 (concat (wire_chunks w)) \<and> int (length (concat (wire_chunks w))) \<le> maxBytes \<and>
    sum_list (map byteLength (wire_rawHeaders w)) \<le> MAX_RESPONSE_HEADER_BYTES"
proof -
  obtain b where b: "collect_chunks maxBytes [] (wire_chunks w) = Some b" and "rs_body response = utf8 b"
    and "\<not> MAX_RESPONSE_HEADER_BYTES < sum_list (map byteLength (wire_rawHeaders w))"
    using assms(1) unfolding receive_def Let_def by (auto split: if_split_asm option.splits)
  with collect_bounded [OF b] assms(2) show ?thesis by (cases "wire_chunks w") auto
qed

theorem responses_are_bounded_witness:
  "int (length (concat [''ab'', ''c''])) \<le> (4 :: int)"
proof -
  have "receive id 4 \<lparr>wire_rawHeaders = [''Server'', ''x''], wire_headers = [], wire_statusCode = Some 200,
      wire_chunks = [''ab'', ''c''], wire_error = None\<rparr> =
    Inr \<lparr>rs_body = ''abc'', rs_headers = normaliseHeaders [], rs_statusCode = 200\<rparr>"
    by (simp add: receive_def MAX_RESPONSE_HEADER_BYTES_def byteLength_def Number_list [of "''0''", simplified] is_digit_def
        digits_value_def digit_value_def)
  from responses_are_bounded [OF this] show ?thesis by simp
qed

text \<open>
  An unknown host is no import error: the failure of the lookup is not among the ones that are
  turned into \<open>remote_unavailable\<close>, so neither the message nor the indexed search applies.
\<close>

theorem unknown_host_is_not_translated:
  "fst (fetchRoleIntakePublicPage example_library example_parser
      (example_network\<lparr>net_resolve := \<lambda>past h. Inl (OtherFailure ''ENOTFOUND'')\<rparr>) ''https://jobs.example.com/42'' []) =
     Inl (OtherFailure ''ENOTFOUND'')"
  by code_simp

end
