(* ===== verification/Spec2Isabelle.thy ===== *)
theory Spec2Isabelle
  imports LedgerFlows BillableCompletion StripeWebhook StripePurchase BillingService CandidateLifecycle CandidateCredits ClerkSync BillingRoutes RoleIntakeFetch
begin

text \<open>
  A verification library of Prelude (HireCall), an interview product: recruiters import a role,
  candidates take an interview with a voice agent, and workspaces pay for interviews with
  prepaid credits. The theories model the TypeScript of the repository; names of files below
  are relative to its root.

  The parts and how they work together.
  \<^item> The credit ledger (\<open>packages/billing/src/credit-ledger.ts\<close>, \<open>packages/core/src/domain/credit-lots.ts\<close>)
    keeps, for each organization, a wallet of counters, lots of credits, reservations and an
    append-only list of entries. Everything that moves a credit is a transaction of it.
  \<^item> Stripe events and browser returns reach it through fulfilment, refunds, disputes and the
    webhook archive (\<open>packages/billing/src/stripe-*.ts\<close>); checkout writes the metadata that
    fulfilment reads back.
  \<^item> A candidate's interview reserves a credit when it is admitted and captures or releases it
    when it ends (\<open>apps/candidate/src/server/billing-admission.ts\<close>, \<open>credit-settlement.ts\<close>), by
    the evidence rule of \<open>packages/core/src/domain/billable-completion.ts\<close>.
  \<^item> A scheduled sweep (\<open>apps/console/app/api/internal/billing-sweep/route.ts\<close>) recovers missed
    events, replays ignored ones, and expires, releases and audits every wallet page by page.
  \<^item> Plans and access come from a stored projection of the Clerk subscription
    (\<open>packages/billing/src/billing-policy.ts\<close>, \<open>server.ts\<close>, \<open>clerk-billing.ts\<close>).
  \<^item> Members and roles come from Clerk: a webhook projects its events into tables, and team
    management writes roles under the workspace's own rules
    (\<open>apps/console/src/domain/organization-*.ts\<close>, \<open>apps/console/src/server/organizations/\<close>).
  \<^item> A role is imported from a public link (\<open>apps/console/src/server/role-intakes/\<close>): the link is
    normalised, its host looked up, the address guarded, robots rules asked, the page or a job
    board interface read and turned into a draft.

  Which theory models what.
  \<^item> \<open>Prelude\<close>: transactions (\<open>'s \<Rightarrow> 'e + 'a \<times> 's\<close>; an error rolls back), their triples, keyed rows,
    stable sorting by a comparator (a locale). \<open>Programs\<close>: handlers (\<open>'s \<Rightarrow> ('e + 'a) \<times> 's\<close>; an
    error keeps what was done) and the locale \<open>effect_preorder\<close>, by which a property of all runs
    is proved call by call. \<open>JsText\<close>, \<open>JsNumber\<close>, \<open>JsDate\<close>, \<open>JsJson\<close>: the parts of JavaScript the
    code relies on.
  \<^item> \<open>CreditLots\<close>, \<open>BillableCompletion\<close>: the two domain files of the same name.
  \<^item> \<open>LedgerDb\<close>, \<open>Ledger\<close>: tables with their unique keys, and every operation of the ledger.
    \<open>LedgerInv\<close>, \<open>LedgerPreserve\<close>: the invariant and its preservation. \<open>LedgerApi\<close>: retries, the
    step relation \<open>ledger_step\<close> and the reachable states. \<open>LedgerHistory\<close>, \<open>LedgerProps\<close>,
    \<open>LedgerFlows\<close>: what never changes, the books, and the functional behaviour of the flows.
  \<^item> \<open>Effects\<close>: the billing database as handlers see it. \<open>StripeRefunds\<close>, \<open>StripeFulfilment\<close>,
    \<open>StripeWebhook\<close>, \<open>StripePurchase\<close>: the four files of the same name with the feature flag and
    the configuration; the handlers are the locale \<open>webhook_handlers\<close> of the dispatcher.
  \<^item> \<open>BillingPolicy\<close>, \<open>BillingService\<close>: plans, entitlements, the projection and its upsert.
  \<^item> \<open>CandidateLifecycle\<close>: statuses, transitions, consent and start policy. \<open>CandidateCredits\<close>:
    admission, resumption and settlement over the locale \<open>credit_service\<close>, interpreted on the
    ledger.
  \<^item> \<open>WorkspaceAccess\<close>, \<open>ClerkSync\<close>: roles, permissions, team management and the Clerk webhook.
  \<^item> \<open>BillingRoutes\<close>: the sweep, the checkout return and the Stripe endpoint.
  \<^item> \<open>IpAddress\<close>, \<open>RoleIntakeUrl\<close>: the address guard and the link policy
    (\<open>role-intake-url-policy.ts\<close>). \<open>RoleIntakeExtract\<close>: \<open>role-intake-url-extractor.ts\<close>.
    \<open>RoleIntakeAts\<close>: \<open>role-intake-ats-api.ts\<close>. \<open>RoleIntakeRobots\<close>, \<open>RoleIntakeFetch\<close>:
    \<open>role-intake-url-importer.ts\<close>.

  State and effects. A Prisma table is a list of rows with a key; unique columns are checked by
  the writes that can violate them. A row lock is modelled by transactions being atomic; where
  code reads and writes without one, the two are separate definitions and the theorems speak of
  interleavings. Faults (a transaction that times out, a call that throws) are arguments of the
  definitions, so the theorems hold for every pattern of them. Services outside the repository
  (Stripe, Clerk, the resolver, the transport, the URL class, the HTML and JSON parsers) are
  arguments too. Clocks are arguments; an instant is a number of milliseconds.

  What the lemmas show, by group: the books of the ledger balance in every reachable state, no
  credit is spent twice and captures are final; a payment is granted once and for what was
  paid; admission, resumption and settlement charge exactly on evidence; projections and
  memberships converge as far as the code orders them, and theorems of their own show where it
  does not; the sweep covers every wallet; an import sends a bounded number of requests, to
  public addresses, with permission of the site.

  Bounds and fuel. A wallet transaction makes at most three attempts (\<open>TRANSACTION_RETRY_ATTEMPTS\<close>).
  The chain of sweep calls takes the number of calls as fuel; the liveness theorem shows that
  one more than the number of wallets is enough. The redirect loop recurses on the redirects
  that are left (\<open>MAX_REDIRECTS\<close>), the JSON walk on the value. No other recursion needs fuel.

  Limits of the model. Code units are those of Latin-1 and case mappings act on ASCII letters;
  numbers are exact. A coarse role named like an inherited member of \<open>Object.prototype\<close> counts as
  no role. Console logging and the prose of messages are left out.

  Not modelled: the stored role intake with its document parsers, scanner, object store and
  indexed search (services outside the repository around a table of statuses); interview
  drafting and candidate briefs (prompts and language model calls); live interview transport
  (media tokens and a realtime service); calendars, marketing demos, dashboards, notifications
  and user interfaces (queries, delivery and rendering); contracts (schemas the zod library
  interprets); the Python and Go services; scripts and migrations.
\<close>

end
